(* ===== verification/Prelude.thy ===== *)
theory Prelude
  imports Main "HOL-Library.Word" "HOL-Library.Char_ord" "HOL-Library.List_Lexorder"
begin

text \<open>
  Shared vocabulary of the development.

  A Go \<open>string\<close> and a Go \<open>[]byte\<close> are byte sequences: both are HOL strings
  (lists of 8-bit characters), so \<open>length\<close> is Go's \<open>len\<close>. A Go \<open>byte\<close> on which
  the code computes is an \<open>8 word\<close>. Go's signed 64-bit integers are \<open>int\<close>, and
  every operation that can leave the 64-bit range is followed by \<open>wrap64\<close>, the
  two's-complement wrap-around of the machine. A slice or a map whose nil-ness the code
  observes is an \<open>option\<close>, with \<open>None\<close> for nil.

  The collections \<open>go_eval\<close> (definitions unfolded to run the model on a concrete input)
  and \<open>str_simps\<close> (rewriting of byte and string operations) are shared by all theories.
\<close>

named_theorems go_eval \<open>definitions unfolded to evaluate the model on a concrete input\<close>
named_theorems str_simps \<open>rewrite rules for bytes and strings\<close>

unbundle bit_operations_syntax

type_synonym byte = "8 word"
type_synonym bytes = string

section \<open>Bytes\<close>

definition byte_of :: "char \<Rightarrow> byte" where
  "byte_of c = of_nat (of_char c)"

definition char_of_byte :: "byte \<Rightarrow> char" where
  "char_of_byte w = char_of (unat w)"

lemma unat_byte_of [str_simps]: "unat (byte_of c) = of_char c"
proof -
  have "(of_char c :: nat) mod 256 = of_char c" by simp
  then have "(of_char c :: nat) < 256"
    by (metis mod_less_divisor zero_less_numeral)
  then show ?thesis
    by (simp add: byte_of_def unat_of_nat)
qed

lemma char_of_byte_of [simp]: "char_of_byte (byte_of c) = c"
  by (simp add: char_of_byte_def unat_byte_of)

lemma byte_of_char_of_byte [simp]: "byte_of (char_of_byte w) = w"
proof -
  have "unat w < 256"
    using unsigned_less [of w, where 'a = nat] by simp
  then have "unat (byte_of (char_of_byte w)) = unat w"
    by (simp add: unat_byte_of char_of_byte_def)
  then show ?thesis by (simp only: word_unat_eq_iff)
qed

lemma byte_of_inject [simp]: "byte_of c = byte_of d \<longleftrightarrow> c = d"
  by (metis char_of_byte_of)

section \<open>Signed 64-bit integers\<close>

definition in_int64 :: "int \<Rightarrow> bool" where
  "in_int64 n \<longleftrightarrow> - (2 ^ 63) \<le> n \<and> n < 2 ^ 63"

definition wrap64 :: "int \<Rightarrow> int" where
  "wrap64 n = (n + 2 ^ 63) mod 2 ^ 64 - 2 ^ 63"

lemma wrap64_in_int64: "in_int64 (wrap64 n)"
proof -
  have "0 \<le> (n + 2 ^ 63) mod 2 ^ 64" and "(n + 2 ^ 63) mod 2 ^ 64 < (2 ^ 64 :: int)"
    by simp_all
  then show ?thesis by (simp add: in_int64_def wrap64_def)
qed

lemma wrap64_id [simp]: "in_int64 n \<Longrightarrow> wrap64 n = n"
  by (simp add: in_int64_def wrap64_def)

section \<open>Lists\<close>

text \<open>Go's \<open>s[i:j]\<close> for \<open>i \<le> j \<le> len(s)\<close>.\<close>

definition str_slice :: "'a list \<Rightarrow> nat \<Rightarrow> nat \<Rightarrow> 'a list" where
  "str_slice s i j = take (j - i) (drop i s)"

lemma str_slice_same [simp]: "str_slice s i i = []"
  by (simp add: str_slice_def)

lemma str_slice_snoc:
  "i \<le> j \<Longrightarrow> j < length s \<Longrightarrow> str_slice s i (Suc j) = str_slice s i j @ [s ! j]"
  by (simp add: str_slice_def Suc_diff_le take_Suc_conv_app_nth)

lemma str_slice_append_drop: "i \<le> j \<Longrightarrow> str_slice s i j @ drop j s = drop i s"
proof -
  assume "i \<le> j"
  then have "drop j s = drop (j - i) (drop i s)" by simp
  then show ?thesis by (simp only: str_slice_def append_take_drop_id)
qed

text \<open>\<open>strings.Cut\<close> at the first occurrence of a byte: before, after, found.\<close>

fun str_cut :: "char \<Rightarrow> string \<Rightarrow> string \<times> string \<times> bool" where
  "str_cut c [] = ([], [], False)"
| "str_cut c (x # xs) =
     (if x = c then ([], xs, True)
      else (case str_cut c xs of (a, b, f) \<Rightarrow> (x # a, b, f)))"

lemma str_cut_found: "str_cut c s = (a, b, True) \<Longrightarrow> s = a @ c # b"
  by (induction s arbitrary: a) (auto split: if_splits prod.splits)

lemma str_cut_not_found: "str_cut c s = (a, b, False) \<Longrightarrow> a = s \<and> b = [] \<and> c \<notin> set s"
  by (induction s arbitrary: a) (auto split: if_splits prod.splits)

lemma str_cut_before: "str_cut c s = (a, b, f) \<Longrightarrow> c \<notin> set a"
  by (induction s arbitrary: a) (auto split: if_splits prod.splits)

lemma str_cut_absent [simp]: "c \<notin> set s \<Longrightarrow> str_cut c s = (s, [], False)"
  by (induction s) auto

lemma str_cut_append [simp]: "c \<notin> set a \<Longrightarrow> str_cut c (a @ c # b) = (a, b, True)"
  by (induction a) auto

lemma str_cut_length: "str_cut c s = (a, b, f) \<Longrightarrow> length a \<le> length s \<and> length b \<le> length s"
  by (induction s arbitrary: a) (auto split: if_splits prod.splits simp: le_SucI)

lemma str_cut_after_length: "str_cut c (x # xs) = (a, b, f) \<Longrightarrow> length b < length (x # xs)"
proof (induction xs arbitrary: x a)
  case Nil
  then show ?case by (auto split: if_splits)
next
  case (Cons y ys)
  then show ?case
    using str_cut_length [of c "y # ys"] by (fastforce split: if_splits prod.splits)
qed

lemma str_cut_shorter: "str_cut c s = (a, b, f) \<Longrightarrow> s \<noteq> [] \<Longrightarrow> length b < length s"
  by (cases s) (simp_all only: str_cut_after_length)

text \<open>Byte-wise search and prefix tests, Go's \<open>strings.Contains\<close> of one byte and
  \<open>strings.HasPrefix\<close>.\<close>

definition contains_byte :: "char \<Rightarrow> string \<Rightarrow> bool" where
  "contains_byte c s = (c \<in> set s)"

fun has_prefix :: "string \<Rightarrow> string \<Rightarrow> bool" where
  "has_prefix s [] = True"
| "has_prefix [] (p # ps) = False"
| "has_prefix (x # xs) (p # ps) = (x = p \<and> has_prefix xs ps)"

lemma has_prefix_append [simp]: "has_prefix (p @ s) p"
  by (induction p) simp_all

lemma has_prefixE: "has_prefix s p \<Longrightarrow> \<exists>t. s = p @ t"
  by (induction s p rule: has_prefix.induct) auto

lemmas prelude_eval = byte_of_def char_of_byte_def contains_byte_def str_slice_def
  char_of_def bit_iff_odd

end
