(* ===== verification/GoStrings.thy ===== *)
theory GoStrings
  imports Prelude
begin

text \<open>
  The part of the \<open>strings\<close> and \<open>strconv\<close> packages that the code
  calls: \<open>strings.ToLower\<close>, \<open>strings.TrimSpace\<close>, \<open>strings.EqualFold\<close>,
  \<open>strings.ContainsAny\<close>, \<open>strconv.ParseInt(s, 10, 64)\<close> and \<open>strconv.FormatInt(n, 10)\<close>.

  Case mapping. \<open>to_lower\<close> maps the ASCII letters and the two other code points whose
  Unicode lower case is ASCII (U+0130 to \<open>i\<close>, U+212A to \<open>k\<close>); every other non-ASCII byte
  is kept where Go would write the lower-case letter, another non-ASCII sequence. The code
  only compares the result with ASCII constants, on which the two agree.
\<close>

section \<open>Case and white space\<close>

definition is_upper :: "char \<Rightarrow> bool" where
  "is_upper c = (CHR ''A'' \<le> c \<and> c \<le> CHR ''Z'')"

definition is_lower :: "char \<Rightarrow> bool" where
  "is_lower c = (CHR ''a'' \<le> c \<and> c \<le> CHR ''z'')"

definition is_digit :: "char \<Rightarrow> bool" where
  "is_digit c = (CHR ''0'' \<le> c \<and> c \<le> CHR ''9'')"

definition lower_byte :: "char \<Rightarrow> char" where
  "lower_byte c = (if is_upper c then char_of (of_char c + 32 :: nat) else c)"

fun to_lower :: "string \<Rightarrow> string" where
  "to_lower [] = []"
| "to_lower (c # s) =
     (if has_prefix (c # s) [CHR 0xC4, CHR 0xB0] then CHR ''i'' # to_lower (drop 1 s)
      else if has_prefix (c # s) [CHR 0xE2, CHR 0x84, CHR 0xAA] then CHR ''k'' # to_lower (drop 2 s)
      else lower_byte c # to_lower s)"

text \<open>\<open>strings.EqualFold\<close> against an ASCII constant that contains neither \<open>k\<close> nor \<open>s\<close>
  (the two ASCII letters with a non-ASCII case variant).\<close>

definition equal_fold :: "string \<Rightarrow> string \<Rightarrow> bool" where
  "equal_fold s t = (map lower_byte s = map lower_byte t)"

text \<open>The UTF-8 encodings of the code points for which \<open>unicode.IsSpace\<close> holds.\<close>

definition unicode_spaces :: "string list" where
  "unicode_spaces =
     [[CHR 0x09], [CHR 0x0A], [CHR 0x0B], [CHR 0x0C], [CHR 0x0D], [CHR 0x20],
      [CHR 0xC2, CHR 0x85], [CHR 0xC2, CHR 0xA0], [CHR 0xE1, CHR 0x9A, CHR 0x80],
      [CHR 0xE2, CHR 0x80, CHR 0x80], [CHR 0xE2, CHR 0x80, CHR 0x81],
      [CHR 0xE2, CHR 0x80, CHR 0x82], [CHR 0xE2, CHR 0x80, CHR 0x83],
      [CHR 0xE2, CHR 0x80, CHR 0x84], [CHR 0xE2, CHR 0x80, CHR 0x85],
      [CHR 0xE2, CHR 0x80, CHR 0x86], [CHR 0xE2, CHR 0x80, CHR 0x87],
      [CHR 0xE2, CHR 0x80, CHR 0x88], [CHR 0xE2, CHR 0x80, CHR 0x89],
      [CHR 0xE2, CHR 0x80, CHR 0x8A], [CHR 0xE2, CHR 0x80, CHR 0xA8],
      [CHR 0xE2, CHR 0x80, CHR 0xA9], [CHR 0xE2, CHR 0x80, CHR 0xAF],
      [CHR 0xE2, CHR 0x81, CHR 0x9F], [CHR 0xE3, CHR 0x80, CHR 0x80]]"

function strip_prefixes :: "string list \<Rightarrow> string \<Rightarrow> string" where
  "strip_prefixes ps s =
     (case find (\<lambda>p. p \<noteq> [] \<and> has_prefix s p) ps of
        None \<Rightarrow> s
      | Some p \<Rightarrow> strip_prefixes ps (drop (length p) s))"
  by pat_completeness auto
termination
proof (relation "measure (\<lambda>(ps, s). length s)")
  fix ps s p
  assume "find (\<lambda>p. p \<noteq> [] \<and> has_prefix s p) ps = Some p"
  then have "p \<noteq> []" and "has_prefix s p"
    by (auto simp: find_Some_iff)
  then have "0 < length p" and "length p \<le> length s"
    by (auto dest!: has_prefixE)
  moreover from this have "length s - length p < length s" by linarith
  ultimately show "((ps, drop (length p) s), ps, s) \<in> measure (\<lambda>(ps, s). length s)"
    by auto
qed simp

declare strip_prefixes.simps [simp del]

definition trim_left :: "string \<Rightarrow> string" where
  "trim_left s = strip_prefixes unicode_spaces s"

definition trim_right :: "string \<Rightarrow> string" where
  "trim_right s = rev (strip_prefixes (map rev unicode_spaces) (rev s))"

definition trim_space :: "string \<Rightarrow> string" where
  "trim_space s = trim_right (trim_left s)"

definition contains_any :: "string \<Rightarrow> char list \<Rightarrow> bool" where
  "contains_any s cs = list_ex (\<lambda>c. c \<in> set cs) s"

lemma contains_any_iff: "contains_any s cs \<longleftrightarrow> set s \<inter> set cs \<noteq> {}"
  by (auto simp: contains_any_def list_ex_iff)

section \<open>Decimal integers\<close>

text \<open>\<open>strconv.ErrSyntax\<close> and \<open>strconv.ErrRange\<close>.\<close>

datatype num_error = ErrSyntax | ErrRange

definition digit_value :: "char \<Rightarrow> int" where
  "digit_value c = int (of_char c) - 48"

text \<open>The loop of \<open>strconv.ParseUint\<close> in base 10 with 64 bits: the first byte that is not
  a digit is a syntax error, the first digit that leaves the range a range error.\<close>

fun parse_uint_loop :: "string \<Rightarrow> int \<Rightarrow> int \<times> num_error option" where
  "parse_uint_loop [] n = (n, None)"
| "parse_uint_loop (c # cs) n =
     (if \<not> is_digit c then (0, Some ErrSyntax)
      else if n \<ge> (2 ^ 64 - 1) div 10 + 1 then (2 ^ 64 - 1, Some ErrRange)
      else if n * 10 + digit_value c > 2 ^ 64 - 1 then (2 ^ 64 - 1, Some ErrRange)
      else parse_uint_loop cs (n * 10 + digit_value c))"

definition parse_uint :: "string \<Rightarrow> int \<times> num_error option" where
  "parse_uint s = (if s = [] then (0, Some ErrSyntax) else parse_uint_loop s 0)"

definition parse_int :: "string \<Rightarrow> int \<times> num_error option" where
  "parse_int s =
     (if s = [] then (0, Some ErrSyntax)
      else
        let neg = (hd s = CHR ''-'');
            rest = (if hd s = CHR ''+'' \<or> hd s = CHR ''-'' then tl s else s)
        in case parse_uint rest of (un, err) \<Rightarrow>
             (if err = Some ErrSyntax then (0, Some ErrSyntax)
              else if \<not> neg \<and> un \<ge> 2 ^ 63 then (2 ^ 63 - 1, Some ErrRange)
              else if neg \<and> un > 2 ^ 63 then (- (2 ^ 63), Some ErrRange)
              else ((if neg then - un else un), None)))"

definition digit_char :: "int \<Rightarrow> char" where
  "digit_char d = char_of (48 + d)"

fun decimal :: "int \<Rightarrow> string" where
  "decimal n = (if n < 10 then [digit_char n] else decimal (n div 10) @ [digit_char (n mod 10)])"

declare decimal.simps [simp del]

definition format_int :: "int \<Rightarrow> string" where
  "format_int n = (if n < 0 then CHR ''-'' # decimal (- n) else decimal n)"

lemma of_char_digit_char: "0 \<le> d \<Longrightarrow> d < 10 \<Longrightarrow> of_char (digit_char d) = nat (48 + d)"
proof -
  assume "0 \<le> d" and "d < 10"
  then have "digit_char d = char_of (nat (48 + d))"
    using char_of_nat [of "nat (48 + d)", where 'a = int] by (simp add: digit_char_def)
  with \<open>0 \<le> d\<close> \<open>d < 10\<close> show ?thesis by simp
qed

lemma digit_value_digit_char [simp]: "0 \<le> d \<Longrightarrow> d < 10 \<Longrightarrow> digit_value (digit_char d) = d"
  by (simp add: digit_value_def of_char_digit_char)

lemma is_digit_digit_char [simp]: "0 \<le> d \<Longrightarrow> d < 10 \<Longrightarrow> is_digit (digit_char d)"
  by (simp add: is_digit_def of_char_digit_char less_eq_char_def nat_le_iff le_nat_iff)

lemma is_digit_value: "is_digit c \<Longrightarrow> 0 \<le> digit_value c \<and> digit_value c \<le> 9"
  by (simp add: is_digit_def digit_value_def less_eq_char_def)

lemma decimal_nonempty [simp]: "decimal n \<noteq> []"
  by (subst decimal.simps) simp

lemma decimal_digits: "0 \<le> n \<Longrightarrow> c \<in> set (decimal n) \<Longrightarrow> is_digit c"
proof (induction n rule: decimal.induct)
  case (1 n)
  then show ?case
    by (subst (asm) decimal.simps) (auto split: if_splits)
qed

lemma parse_uint_loop_append:
  "parse_uint_loop (xs @ ys) n =
     (case parse_uint_loop xs n of
        (m, None) \<Rightarrow> parse_uint_loop ys m
      | (m, Some e) \<Rightarrow> (m, Some e))"
  by (induction xs n rule: parse_uint_loop.induct) auto

lemma parse_uint_loop_decimal:
  "0 \<le> n \<Longrightarrow> n < 2 ^ 64 \<Longrightarrow> parse_uint_loop (decimal n) 0 = (n, None)"
proof (induction n rule: decimal.induct)
  case (1 n)
  show ?case
  proof (cases "n < 10")
    case True
    with "1.prems" show ?thesis by (subst decimal.simps) simp
  next
    case False
    then have "parse_uint_loop (decimal (n div 10)) 0 = (n div 10, None)"
      using "1.IH" "1.prems" by simp
    moreover have "n div 10 * 10 + n mod 10 = n"
      by presburger
    moreover have "n div 10 < (2 ^ 64 - 1) div 10 + 1" and "n \<le> 2 ^ 64 - 1"
      using "1.prems" by simp_all
    ultimately show ?thesis
      using False by (subst decimal.simps) (simp add: parse_uint_loop_append)
  qed
qed

lemma parse_uint_loop_range:
  "parse_uint_loop s n = (m, e) \<Longrightarrow> 0 \<le> n \<Longrightarrow> n \<le> 2 ^ 64 - 1 \<Longrightarrow> 0 \<le> m \<and> m \<le> 2 ^ 64 - 1"
  by (induction s n rule: parse_uint_loop.induct)
    (auto split: if_splits dest: is_digit_value)

lemma parse_int_range: "parse_int s = (n, e) \<Longrightarrow> in_int64 n"
proof -
  assume *: "parse_int s = (n, e)"
  obtain un err where u: "parse_uint (if hd s = CHR ''+'' \<or> hd s = CHR ''-'' then tl s else s) = (un, err)"
    by fastforce
  then have "0 \<le> un \<and> un \<le> 2 ^ 64 - 1"
    by (auto simp: parse_uint_def dest: parse_uint_loop_range split: if_splits)
  with * u show ?thesis
    by (auto simp: parse_int_def Let_def in_int64_def split: if_splits)
qed

lemma hd_decimal_digit: "0 \<le> n \<Longrightarrow> is_digit (hd (decimal n))"
  by (rule decimal_digits [of n]) (simp_all add: hd_in_set)

lemma hd_decimal_no_sign:
  "0 \<le> n \<Longrightarrow> hd (decimal n) \<noteq> CHR ''+'' \<and> hd (decimal n) \<noteq> CHR ''-''"
  using hd_decimal_digit [of n] by (auto simp: is_digit_def)

lemma parse_format_int:
  assumes "in_int64 n"
  shows "parse_int (format_int n) = (n, None)"
proof (cases "n < 0")
  case True
  with assms have "parse_uint (decimal (- n)) = (- n, None)"
    by (simp add: parse_uint_def parse_uint_loop_decimal in_int64_def)
  with True assms show ?thesis
    by (simp add: format_int_def parse_int_def in_int64_def)
next
  case False
  with assms have "parse_uint (decimal n) = (n, None)"
    by (simp add: parse_uint_def parse_uint_loop_decimal in_int64_def)
  with False assms show ?thesis
    by (simp add: format_int_def parse_int_def in_int64_def hd_decimal_no_sign)
qed

lemma format_int_digits: "0 \<le> n \<Longrightarrow> c \<in> set (format_int n) \<Longrightarrow> is_digit c"
  by (simp add: format_int_def decimal_digits)

lemmas gostrings_eval [go_eval] = is_upper_def is_lower_def is_digit_def lower_byte_def
  equal_fold_def trim_left_def trim_right_def trim_space_def contains_any_def
  digit_value_def parse_uint_def parse_int_def digit_char_def format_int_def

end
