(* ===== verification/NetUrl.thy ===== *)
theory NetUrl
  imports GoStrings GoMap
begin

text \<open>
  The part of Go's \<open>net/url\<close> that the code calls: percent encoding (\<open>escape\<close>,
  \<open>unescape\<close>), \<open>url.ParseQuery\<close>, \<open>url.Values.Encode\<close>, \<open>url.Parse\<close> and
  \<open>(*url.URL).String\<close>, written after the package's documented behaviour in Go 1.25
  (bracketed hosts are accepted with the rules of that release, which does not yet check the
  literal between the brackets). An error return is \<open>None\<close>; its text is not modelled.

  Lemmas: \<open>unescape\<close> inverts \<open>escape\<close> on query components, and \<open>parse_query\<close> recovers
  what \<open>encode_values\<close> wrote.
\<close>

type_synonym url_values = "(string, string list) gomap"

section \<open>Percent encoding\<close>

datatype encoding =
  EncodePath | EncodeHost | EncodeZone | EncodeUserPassword | EncodeQueryComponent | EncodeFragment

definition is_alnum :: "char \<Rightarrow> bool" where
  "is_alnum c = (is_lower c \<or> is_upper c \<or> is_digit c)"

definition is_hex :: "char \<Rightarrow> bool" where
  "is_hex c = (is_digit c \<or> (CHR ''a'' \<le> c \<and> c \<le> CHR ''f'') \<or> (CHR ''A'' \<le> c \<and> c \<le> CHR ''F''))"

definition unhex :: "char \<Rightarrow> byte" where
  "unhex c =
     (if is_digit c then byte_of c - 48
      else if CHR ''a'' \<le> c \<and> c \<le> CHR ''f'' then byte_of c - 97 + 10
      else if CHR ''A'' \<le> c \<and> c \<le> CHR ''F'' then byte_of c - 65 + 10
      else 0)"

definition hex_pair :: "char \<Rightarrow> char \<Rightarrow> char" where
  "hex_pair h l = char_of_byte (push_bit 4 (unhex h) OR unhex l)"

definition should_escape :: "char \<Rightarrow> encoding \<Rightarrow> bool" where
  "should_escape c mode =
     (if is_alnum c then False
      else if (mode = EncodeHost \<or> mode = EncodeZone)
        \<and> c \<in> set (''!$&()*+,;=:[]<>'' @ [CHR 0x27, CHR 0x22]) then False
      else if c \<in> set ''-_.~'' then False
      else if c \<in> set ''$&+,/:;=?@'' then
        (case mode of
           EncodePath \<Rightarrow> c = CHR ''?''
         | EncodeUserPassword \<Rightarrow> c \<in> set ''@/?:''
         | EncodeQueryComponent \<Rightarrow> True
         | EncodeFragment \<Rightarrow> False
         | _ \<Rightarrow> True)
      else if mode = EncodeFragment \<and> c \<in> set ''!()*'' then False
      else True)"

definition upper_hex :: "nat \<Rightarrow> char" where
  "upper_hex n = (if n < 10 then char_of (48 + n) else char_of (55 + n))"

definition escape_byte :: "encoding \<Rightarrow> char \<Rightarrow> string" where
  "escape_byte mode c =
     (if should_escape c mode then
        (if c = CHR '' '' \<and> mode = EncodeQueryComponent then [CHR ''+'']
         else [CHR ''%'', upper_hex (of_char c div 16), upper_hex (of_char c mod 16)])
      else [c])"

definition escape :: "string \<Rightarrow> encoding \<Rightarrow> string" where
  "escape s mode = concat (map (escape_byte mode) s)"

text \<open>In a host, percent encoding is for non-ASCII bytes only (\<open>%25\<close> apart); in a zone
  identifier for \<open>%25\<close>, the space and what a host may hold.\<close>

definition bad_host_escape :: "encoding \<Rightarrow> char \<Rightarrow> char \<Rightarrow> bool" where
  "bad_host_escape mode h l =
     ((mode = EncodeHost \<and> unhex h < 8 \<and> \<not> (h = CHR ''2'' \<and> l = CHR ''5''))
      \<or> (mode = EncodeZone \<and> \<not> (h = CHR ''2'' \<and> l = CHR ''5'') \<and> hex_pair h l \<noteq> CHR '' ''
         \<and> should_escape (hex_pair h l) EncodeHost))"

fun unescape :: "encoding \<Rightarrow> string \<Rightarrow> string option" where
  "unescape mode [] = Some []"
| "unescape mode (c # s) =
     (if c = CHR ''%'' then
        (case s of
           h # l # rest \<Rightarrow>
             (if is_hex h \<and> is_hex l \<and> \<not> bad_host_escape mode h l
              then map_option ((#) (hex_pair h l)) (unescape mode rest) else None)
         | _ \<Rightarrow> None)
      else if c = CHR ''+'' \<and> mode = EncodeQueryComponent
      then map_option ((#) (CHR '' '')) (unescape mode s)
      else if (mode = EncodeHost \<or> mode = EncodeZone) \<and> c < CHR 0x80 \<and> should_escape c mode
      then None
      else map_option ((#) c) (unescape mode s))"

lemma unhex_upper_hex: "d < 16 \<Longrightarrow> unhex (upper_hex d) = of_nat d \<and> is_hex (upper_hex d)"
proof -
  assume "d < 16"
  then have "d \<in> set [0..<16]" by simp
  then show ?thesis
    by (simp add: upt_rec, elim disjE)
      (simp_all add: upper_hex_def unhex_def is_hex_def is_digit_def byte_of_def char_of_def bit_iff_odd)
qed

lemma push_bit_or_nibbles:
  assumes "h < 16" and "l < 16"
  shows "push_bit 4 (of_nat h) OR of_nat l = (of_nat (16 * h + l) :: byte)"
proof -
  have "\<not> bit (push_bit 4 (of_nat h) :: byte) n \<or> \<not> bit (of_nat l :: byte) n" for n
  proof (cases "n < 4")
    case True
    then show ?thesis by (simp add: bit_push_bit_iff)
  next
    case False
    have "take_bit 4 l = l" using assms(2) by (simp add: take_bit_nat_eq_self)
    then have "\<not> bit l n" using False by (metis bit_take_bit_iff)
    then show ?thesis by (simp add: bit_of_nat_iff)
  qed
  then have "push_bit 4 (of_nat h) OR of_nat l = push_bit 4 (of_nat h) + (of_nat l :: byte)"
    by (simp add: disjunctive_add)
  then show ?thesis by (simp add: push_bit_eq_mult mult.commute)
qed

lemma of_char_lt_256: "(of_char (c::char) :: nat) < 256"
  by (metis unat_byte_of unsigned_less [of "byte_of c", where 'a = nat] len_of_numeral_defs(2)
      of_char_mod_256 mod_less_divisor zero_less_numeral)

lemma nibbles_lt: "(of_char (c::char) :: nat) div 16 < 16"
  using of_char_lt_256 [of c] by (simp add: less_mult_imp_div_less)

lemma hex_pair_upper_hex: "hex_pair (upper_hex (of_char c div 16)) (upper_hex (of_char c mod 16)) = c"
proof -
  have "push_bit 4 (unhex (upper_hex (of_char c div 16))) OR unhex (upper_hex (of_char c mod 16)) =
      (of_nat (16 * (of_char c div 16) + of_char c mod 16) :: byte)"
    using nibbles_lt [of c] by (simp add: unhex_upper_hex push_bit_or_nibbles)
  also have "\<dots> = byte_of c"
    by (simp add: byte_of_def)
  finally show ?thesis by (simp add: hex_pair_def)
qed

lemma is_hex_upper_hex:
  "is_hex (upper_hex (of_char (c::char) div 16)) \<and> is_hex (upper_hex (of_char c mod 16))"
  using nibbles_lt [of c] by (simp add: unhex_upper_hex)

lemma unescape_escape_query: "unescape EncodeQueryComponent (escape s EncodeQueryComponent) = Some s"
proof (induction s)
  case Nil
  then show ?case by (simp add: escape_def)
next
  case (Cons c s)
  have plain: "\<not> should_escape c EncodeQueryComponent \<Longrightarrow> c \<noteq> CHR ''%'' \<and> c \<noteq> CHR ''+''"
    by (auto simp: should_escape_def is_alnum_def is_lower_def is_upper_def is_digit_def)
  from Cons plain show ?case
    by (auto simp: escape_def escape_byte_def bad_host_escape_def hex_pair_upper_hex is_hex_upper_hex)
qed

text \<open>What an escaped query component is made of: none of the separators of a query.\<close>

lemma escape_query_no_sep:
  assumes "d \<in> set (escape s EncodeQueryComponent)"
  shows "d \<noteq> CHR ''&'' \<and> d \<noteq> CHR ''='' \<and> d \<noteq> CHR '';''"
proof -
  have hex: "is_hex d \<Longrightarrow> ?thesis"
    by (auto simp: is_hex_def is_digit_def)
  have esc: "should_escape (CHR ''&'') EncodeQueryComponent"
      "should_escape (CHR ''='') EncodeQueryComponent"
      "should_escape (CHR '';'') EncodeQueryComponent"
    by (simp_all add: should_escape_def is_alnum_def is_lower_def is_upper_def is_digit_def)
  from assms obtain c where c: "d \<in> set (escape_byte EncodeQueryComponent c)"
    by (auto simp: escape_def)
  show ?thesis
  proof (cases "should_escape c EncodeQueryComponent")
    case True
    with c have "d = CHR ''+'' \<or> d = CHR ''%'' \<or> is_hex d"
      using is_hex_upper_hex [of c] by (auto simp: escape_byte_def split: if_splits)
    with hex show ?thesis by auto
  next
    case False
    with c have "d = c" by (simp add: escape_byte_def)
    with False esc show ?thesis by auto
  qed
qed

section \<open>Queries and forms\<close>

text \<open>\<open>m[k] = append(m[k], v)\<close> and \<open>Values.Get\<close>, \<open>Values.Set\<close>.\<close>

definition map_append :: "string \<Rightarrow> string \<Rightarrow> url_values \<Rightarrow> url_values" where
  "map_append k v m = map_put k ((case map_get m k of None \<Rightarrow> [] | Some vs \<Rightarrow> vs) @ [v]) m"

definition values_get :: "url_values \<Rightarrow> string \<Rightarrow> string" where
  "values_get m k = (case map_get m k of Some (v # _) \<Rightarrow> v | _ \<Rightarrow> [])"

definition values_set :: "string \<Rightarrow> string \<Rightarrow> url_values \<Rightarrow> url_values" where
  "values_set k v m = map_put k [v] m"

text \<open>\<open>url.ParseQuery\<close>: the values of the well-formed pairs, and whether some pair was
  malformed.\<close>

function parse_query_loop :: "string \<Rightarrow> url_values \<Rightarrow> bool \<Rightarrow> url_values \<times> bool" where
  "parse_query_loop q m err =
     (if q = [] then (m, err)
      else (case str_cut (CHR ''&'') q of (key, rest, _) \<Rightarrow>
        if contains_byte (CHR '';'') key then parse_query_loop rest m True
        else if key = [] then parse_query_loop rest m err
        else (case str_cut (CHR ''='') key of (k, v, _) \<Rightarrow>
          (case unescape EncodeQueryComponent k of
             None \<Rightarrow> parse_query_loop rest m True
           | Some k' \<Rightarrow>
               (case unescape EncodeQueryComponent v of
                  None \<Rightarrow> parse_query_loop rest m True
                | Some v' \<Rightarrow> parse_query_loop rest (map_append k' v' m) err)))))"
  by pat_completeness auto
termination
  by (relation "measure (\<lambda>(q, m, err). length q)") (auto dest: str_cut_shorter [OF sym])

declare parse_query_loop.simps [simp del]

definition parse_query :: "string \<Rightarrow> url_values \<times> bool" where
  "parse_query q = parse_query_loop q [] False"

definition query_escape :: "string \<Rightarrow> string" where
  "query_escape s = escape s EncodeQueryComponent"

definition encode_pair :: "string \<times> string \<Rightarrow> string" where
  "encode_pair p = query_escape (fst p) @ CHR ''='' # query_escape (snd p)"

fun encode_pairs :: "(string \<times> string) list \<Rightarrow> string" where
  "encode_pairs [] = []"
| "encode_pairs [p] = encode_pair p"
| "encode_pairs (p # q # ps) = encode_pair p @ CHR ''&'' # encode_pairs (q # ps)"

text \<open>The pairs of a \<open>Values\<close> map in \<open>Encode\<close>'s order: by key, each key's values in
  their own order.\<close>

definition sorted_pairs :: "url_values \<Rightarrow> (string \<times> string) list" where
  "sorted_pairs m =
     concat (map (\<lambda>k. map (Pair k) (case map_get m k of None \<Rightarrow> [] | Some vs \<Rightarrow> vs))
               (sort (map fst m)))"

definition encode_values :: "url_values \<Rightarrow> string" where
  "encode_values m = encode_pairs (sorted_pairs m)"

lemma encode_pair_no_amp: "CHR ''&'' \<notin> set (encode_pair p)"
  using escape_query_no_sep by (auto simp: encode_pair_def query_escape_def)

lemma encode_pair_no_semi: "CHR '';'' \<notin> set (encode_pair p)"
  using escape_query_no_sep by (auto simp: encode_pair_def query_escape_def)

lemma encode_pair_cut:
  "str_cut (CHR ''='') (encode_pair (k, v)) = (query_escape k, query_escape v, True)"
proof -
  have "CHR ''='' \<notin> set (query_escape k)"
    using escape_query_no_sep by (auto simp: query_escape_def)
  then show ?thesis by (simp add: encode_pair_def)
qed

lemma encode_pair_nonempty [simp]: "encode_pair p \<noteq> []"
  by (simp add: encode_pair_def)

lemma parse_query_loop_pairs:
  "parse_query_loop (encode_pairs ps) m err = (fold (\<lambda>(k, v). map_append k v) ps m, err)"
proof (induction ps arbitrary: m rule: encode_pairs.induct)
  case 1
  then show ?case by (simp add: parse_query_loop.simps)
next
  case (2 p)
  obtain k v where p: "p = (k, v)" by fastforce
  show ?case
    using encode_pair_no_amp [of p] encode_pair_no_semi [of p]
    by (subst parse_query_loop.simps)
      (simp add: p encode_pair_cut query_escape_def unescape_escape_query contains_byte_def
        parse_query_loop.simps [of "[]"])
next
  case (3 p q ps)
  obtain k v where p: "p = (k, v)" by fastforce
  show ?case
    using encode_pair_no_amp [of p] encode_pair_no_semi [of p] "3.IH"
    by (subst parse_query_loop.simps)
      (simp add: p encode_pair_cut query_escape_def unescape_escape_query contains_byte_def)
qed

lemma map_get_append_all:
  "map_get (fold (\<lambda>(k, v). map_append k v) ps m) k =
     (if k \<in> fst ` set ps
      then Some ((case map_get m k of None \<Rightarrow> [] | Some vs \<Rightarrow> vs) @ map snd (filter (\<lambda>p. fst p = k) ps))
      else map_get m k)"
proof (induction ps arbitrary: m)
  case Nil
  then show ?case by simp
next
  case (Cons p ps)
  have "k \<notin> fst ` set ps \<Longrightarrow> filter (\<lambda>p. fst p = k) ps = []"
    by (auto simp: filter_empty_conv)
  with Cons show ?case
    by (cases p) (auto simp: map_append_def gmap.get_put split: option.splits)
qed

lemma map_ok_append_all: "map_ok m \<Longrightarrow> map_ok (fold (\<lambda>(k, v). map_append k v) ps m)"
  by (induction ps arbitrary: m) (simp_all add: map_append_def gmap.ok_put case_prod_unfold)

text \<open>The values of one key in the order \<open>Encode\<close> writes them.\<close>

lemma filter_concat_key:
  assumes "distinct ks"
  shows "map snd (filter (\<lambda>p. fst p = k) (concat (map (\<lambda>k. map (Pair k) (f k)) ks))) =
    (if k \<in> set ks then f k else [])"
  using assms by (induction ks) (auto simp: filter_map comp_def filter_empty_conv)

lemma keys_concat_key:
  "k \<in> fst ` set (concat (map (\<lambda>k. map (Pair k) (f k)) ks)) \<longleftrightarrow> k \<in> set ks \<and> f k \<noteq> []"
proof (induction ks)
  case (Cons a ks)
  have "k \<in> fst ` set (map (Pair a) (f a)) \<longleftrightarrow> k = a \<and> f k \<noteq> []"
    by (cases "f a") auto
  with Cons show ?case by (simp add: image_Un del: set_concat set_map) blast
qed simp

lemma sorted_pairs_of_key:
  assumes "map_ok m"
  shows "map snd (filter (\<lambda>p. fst p = k) (sorted_pairs m)) =
    (case map_get m k of None \<Rightarrow> [] | Some vs \<Rightarrow> vs)"
proof -
  have "k \<notin> fst ` set m \<Longrightarrow> map_get m k = None"
    by (simp add: map_get_None_iff)
  then show ?thesis
    using assms by (auto simp: sorted_pairs_def filter_concat_key map_ok_def)
qed

lemma sorted_pairs_key: "k \<in> fst ` set (sorted_pairs m) \<longleftrightarrow> (\<exists>v vs. map_get m k = Some (v # vs))"
proof -
  have "map_get m k = Some vs \<Longrightarrow> k \<in> fst ` set m" for vs
    by (metis map_get_None_iff option.distinct(1))
  moreover have "k \<in> fst ` set (sorted_pairs m) \<longleftrightarrow>
      k \<in> fst ` set m \<and> (case map_get m k of None \<Rightarrow> [] | Some vs \<Rightarrow> vs) \<noteq> []"
    unfolding sorted_pairs_def keys_concat_key by simp
  ultimately show ?thesis
    by (cases "map_get m k") (auto simp: neq_Nil_conv)
qed

lemma parse_query_encode:
  assumes "map_ok m" and "\<And>k. map_get m k \<noteq> Some []"
  shows "snd (parse_query (encode_values m)) = False
    \<and> map_get (fst (parse_query (encode_values m))) k = map_get m k"
proof -
  have "map_get m k = (if k \<in> fst ` set (sorted_pairs m)
      then Some (map snd (filter (\<lambda>p. fst p = k) (sorted_pairs m))) else None)"
  proof (cases "map_get m k")
    case None
    then show ?thesis by (simp add: sorted_pairs_key)
  next
    case (Some vs)
    with assms(2) obtain w ws where "vs = w # ws" by (metis list.exhaust)
    with Some show ?thesis
      using sorted_pairs_of_key [OF assms(1), of k] by (simp add: sorted_pairs_key)
  qed
  then show ?thesis
    by (simp add: parse_query_def encode_values_def parse_query_loop_pairs map_get_append_all)
qed

lemma parse_query_loop_ok: "map_ok m \<Longrightarrow> map_ok (fst (parse_query_loop q m err))"
proof (induction "length q" arbitrary: q m err rule: less_induct)
  case less
  obtain key rest f where amp: "str_cut (CHR ''&'') q = (key, rest, f)"
    by (metis prod_cases3)
  obtain k v g where eq: "str_cut (CHR ''='') key = (k, v, g)"
    by (metis prod_cases3)
  have IH: "q \<noteq> [] \<Longrightarrow> map_ok m' \<Longrightarrow> map_ok (fst (parse_query_loop rest m' e))" for m' e
    using less.hyps str_cut_shorter [OF amp] by blast
  show ?case
    using less.prems IH
    by (subst parse_query_loop.simps) (simp add: amp eq map_append_def gmap.ok_put split: option.split)
qed

lemma parse_query_ok: "map_ok (fst (parse_query q))"
  by (simp add: parse_query_def parse_query_loop_ok)

end
