(* ===== verification/UrlParse.thy ===== *)
theory UrlParse
  imports NetUrl
begin

text \<open>
  \<open>url.Parse\<close> and \<open>(*url.URL).String\<close> of Go's \<open>net/url\<close>: the scheme, the authority
  with its user information and host, the path, the raw query (kept unparsed) and the
  fragment, each with the checks that make parsing fail.
\<close>

record url =
  u_scheme :: string
  u_opaque :: string
  u_user :: "(string \<times> string option) option"
  u_host :: string
  u_path :: string
  u_raw_path :: string
  u_omit_host :: bool
  u_force_query :: bool
  u_raw_query :: string
  u_fragment :: string
  u_raw_fragment :: string

definition empty_url :: url where
  "empty_url =
     \<lparr>u_scheme = [], u_opaque = [], u_user = None, u_host = [], u_path = [], u_raw_path = [],
      u_omit_host = False, u_force_query = False, u_raw_query = [], u_fragment = [],
      u_raw_fragment = []\<rparr>"

section \<open>Parsing\<close>

definition is_ctl :: "char \<Rightarrow> bool" where
  "is_ctl c = (c < CHR '' '' \<or> c = CHR 0x7F)"

fun scheme_loop :: "string \<Rightarrow> string \<Rightarrow> string \<Rightarrow> (string \<times> string) option" where
  "scheme_loop raw acc [] = Some ([], raw)"
| "scheme_loop raw acc (c # s) =
     (if is_lower c \<or> is_upper c then scheme_loop raw (acc @ [c]) s
      else if is_digit c \<or> c \<in> set ''+-.'' then
        (if acc = [] then Some ([], raw) else scheme_loop raw (acc @ [c]) s)
      else if c = CHR '':'' then (if acc = [] then None else Some (acc, s))
      else Some ([], raw))"

definition get_scheme :: "string \<Rightarrow> (string \<times> string) option" where
  "get_scheme raw = scheme_loop raw [] raw"

text \<open>Cut at the last occurrence of a byte.\<close>

definition str_cut_last :: "char \<Rightarrow> string \<Rightarrow> string \<times> string \<times> bool" where
  "str_cut_last c s =
     (case str_cut c (rev s) of (a, b, f) \<Rightarrow> if f then (rev b, rev a, True) else (s, [], False))"

fun index_of :: "string \<Rightarrow> string \<Rightarrow> nat option" where
  "index_of sub [] = (if sub = [] then Some 0 else None)"
| "index_of sub (c # s) =
     (if has_prefix (c # s) sub then Some 0 else map_option Suc (index_of sub s))"

definition valid_optional_port :: "string \<Rightarrow> bool" where
  "valid_optional_port port =
     (case port of [] \<Rightarrow> True | c # ds \<Rightarrow> c = CHR '':'' \<and> list_all is_digit ds)"

definition valid_userinfo :: "string \<Rightarrow> bool" where
  "valid_userinfo s =
     list_all (\<lambda>c. is_alnum c \<or> c \<in> set (''-._:~!$&()*+,;=%@'' @ [CHR 0x27])) s"

definition parse_host :: "string \<Rightarrow> string option" where
  "parse_host host =
     (if has_prefix host ''['' then
        (case str_cut_last (CHR '']'') host of (inside, port, found) \<Rightarrow>
           if \<not> found \<or> \<not> valid_optional_port port then None
           else (case index_of ''%25'' inside of
                   None \<Rightarrow> unescape EncodeHost host
                 | Some zone \<Rightarrow>
                     (case (unescape EncodeHost (take zone inside),
                            unescape EncodeZone (drop zone inside),
                            unescape EncodeHost (CHR '']'' # port)) of
                        (Some h1, Some h2, Some h3) \<Rightarrow> Some (h1 @ h2 @ h3)
                      | _ \<Rightarrow> None)))
      else
        (case str_cut_last (CHR '':'') host of (_, port, found) \<Rightarrow>
           if found \<and> \<not> valid_optional_port (CHR '':'' # port) then None
           else unescape EncodeHost host))"

definition parse_userinfo :: "string \<Rightarrow> (string \<times> string option) option" where
  "parse_userinfo info =
     (if \<not> valid_userinfo info then None
      else (case str_cut (CHR '':'') info of (name, password, found) \<Rightarrow>
        if \<not> found then map_option (\<lambda>n. (n, None)) (unescape EncodeUserPassword info)
        else (case (unescape EncodeUserPassword name, unescape EncodeUserPassword password) of
                (Some n, Some p) \<Rightarrow> Some (n, Some p)
              | _ \<Rightarrow> None)))"

text \<open>User information (if any) and host.\<close>

definition parse_authority :: "string \<Rightarrow> ((string \<times> string option) option \<times> string) option" where
  "parse_authority authority =
     (case str_cut_last (CHR ''@'') authority of (info, rest, found) \<Rightarrow>
        if \<not> found then map_option (\<lambda>h. (None, h)) (parse_host authority)
        else (case parse_host rest of
                None \<Rightarrow> None
              | Some h \<Rightarrow> map_option (\<lambda>u. (Some u, h)) (parse_userinfo info)))"

text \<open>\<open>setPath\<close>, \<open>setFragment\<close>: the decoded component, and the raw one where the default
  encoding would not give it back.\<close>

definition set_component :: "encoding \<Rightarrow> string \<Rightarrow> (string \<times> string) option" where
  "set_component mode p =
     (case unescape mode p of
        None \<Rightarrow> None
      | Some d \<Rightarrow> Some (d, if p = escape d mode then [] else p))"

definition split_query :: "string \<Rightarrow> bool \<times> string \<times> string" where
  "split_query rest =
     (if rest \<noteq> [] \<and> last rest = CHR ''?'' \<and> length (filter (\<lambda>c. c = CHR ''?'') rest) = 1
      then (True, butlast rest, [])
      else (case str_cut (CHR ''?'') rest of (front, query, _) \<Rightarrow> (False, front, query)))"

definition finish_path :: "url \<Rightarrow> string \<Rightarrow> url option" where
  "finish_path u rest =
     (case set_component EncodePath rest of
        None \<Rightarrow> None
      | Some (path, raw) \<Rightarrow> Some (u\<lparr>u_path := path, u_raw_path := raw\<rparr>))"

text \<open>The unexported \<open>parse\<close>, on the part before the fragment and with \<open>viaRequest\<close> false.\<close>

definition parse_no_fragment :: "string \<Rightarrow> url option" where
  "parse_no_fragment raw =
     (if list_ex is_ctl raw then None
      else if raw = ''*'' then Some (empty_url\<lparr>u_path := ''*''\<rparr>)
      else (case get_scheme raw of
        None \<Rightarrow> None
      | Some (sch, rest0) \<Rightarrow>
          (case split_query rest0 of (force, rest, query) \<Rightarrow>
             let u = empty_url\<lparr>u_scheme := to_lower sch, u_force_query := force, u_raw_query := query\<rparr>
             in if \<not> has_prefix rest ''/'' \<and> sch \<noteq> [] then Some (u\<lparr>u_opaque := rest\<rparr>)
                else if \<not> has_prefix rest ''/''
                  \<and> contains_byte (CHR '':'') (fst (str_cut (CHR ''/'') rest)) then None
                else if (sch \<noteq> [] \<or> \<not> has_prefix rest ''///'') \<and> has_prefix rest ''//'' then
                  (case str_cut (CHR ''/'') (drop 2 rest) of (authority, after, found) \<Rightarrow>
                     (case parse_authority authority of
                        None \<Rightarrow> None
                      | Some (user, host) \<Rightarrow>
                          finish_path (u\<lparr>u_user := user, u_host := host\<rparr>)
                            (if found then CHR ''/'' # after else [])))
                else finish_path
                  (if sch \<noteq> [] \<and> has_prefix rest ''/'' then u\<lparr>u_omit_host := True\<rparr> else u) rest)))"

definition parse_url :: "string \<Rightarrow> url option" where
  "parse_url raw =
     (case str_cut (CHR ''#'') raw of (front, frag, _) \<Rightarrow>
        (case parse_no_fragment front of
           None \<Rightarrow> None
         | Some u \<Rightarrow>
             if frag = [] then Some u
             else (case set_component EncodeFragment frag of
                     None \<Rightarrow> None
                   | Some (f, raw_f) \<Rightarrow> Some (u\<lparr>u_fragment := f, u_raw_fragment := raw_f\<rparr>))))"

section \<open>Printing\<close>

definition valid_encoded :: "string \<Rightarrow> encoding \<Rightarrow> bool" where
  "valid_encoded s mode =
     list_all (\<lambda>c. c \<in> set (''!$&()*+,;=:@[]%'' @ [CHR 0x27]) \<or> \<not> should_escape c mode) s"

text \<open>\<open>EscapedPath\<close> and \<open>EscapedFragment\<close>: the raw component where it is a valid encoding
  of the decoded one, the default encoding otherwise.\<close>

definition escaped_component :: "encoding \<Rightarrow> string \<Rightarrow> string \<Rightarrow> string" where
  "escaped_component mode decoded raw =
     (if raw \<noteq> [] \<and> valid_encoded raw mode \<and> unescape mode raw = Some decoded then raw
      else escape decoded mode)"

definition escaped_path :: "url \<Rightarrow> string" where
  "escaped_path u =
     (if u_raw_path u = [] \<and> u_path u = ''*'' then ''*''
      else escaped_component EncodePath (u_path u) (u_raw_path u))"

definition userinfo_string :: "string \<times> string option \<Rightarrow> string" where
  "userinfo_string ui =
     (case ui of (name, password) \<Rightarrow>
        escape name EncodeUserPassword
        @ (case password of None \<Rightarrow> [] | Some p \<Rightarrow> CHR '':'' # escape p EncodeUserPassword))"

definition authority_string :: "url \<Rightarrow> string" where
  "authority_string u =
     (if (u_scheme u = [] \<and> u_host u = [] \<and> u_user u = None)
        \<or> (u_omit_host u \<and> u_host u = [] \<and> u_user u = None) then []
      else (if u_host u \<noteq> [] \<or> u_path u \<noteq> [] \<or> u_user u \<noteq> None then ''//'' else [])
        @ (case u_user u of None \<Rightarrow> [] | Some ui \<Rightarrow> userinfo_string ui @ ''@'')
        @ escape (u_host u) EncodeHost)"

text \<open>The \<open>./\<close> that \<open>String\<close> puts before a scheme-less first segment with a colon is not
  modelled: every URL the code prints has a scheme.\<close>

definition url_string :: "url \<Rightarrow> string" where
  "url_string u =
     (if u_scheme u \<noteq> [] then u_scheme u @ '':'' else [])
     @ (if u_opaque u \<noteq> [] then u_opaque u
        else authority_string u
          @ (let path = escaped_path u
             in (if path \<noteq> [] \<and> hd path \<noteq> CHR ''/'' \<and> u_host u \<noteq> [] then ''/'' else []) @ path))
     @ (if u_force_query u \<or> u_raw_query u \<noteq> [] then CHR ''?'' # u_raw_query u else [])
     @ (if u_fragment u \<noteq> []
        then CHR ''#'' # escaped_component EncodeFragment (u_fragment u) (u_raw_fragment u) else [])"

lemmas url_eval [go_eval] = is_alnum_def is_hex_def unhex_def hex_pair_def should_escape_def
  upper_hex_def escape_byte_def escape_def bad_host_escape_def empty_url_def is_ctl_def
  get_scheme_def str_cut_last_def valid_optional_port_def valid_userinfo_def parse_host_def
  parse_userinfo_def parse_authority_def set_component_def split_query_def finish_path_def
  parse_no_fragment_def parse_url_def valid_encoded_def escaped_component_def escaped_path_def
  userinfo_string_def authority_string_def url_string_def

end
