(* ===== verification/NetHttp.thy ===== *)
theory NetHttp
  imports UrlParse
begin

text \<open>
  The part of Go's \<open>net/http\<close> that the code calls: canonical header keys and the
  \<open>http.Header\<close> methods, the response writer with \<open>http.Error\<close>, bounded body readers, and
  the client's \<open>Do\<close> with its redirect policy. What answers a request is outside the
  program: a round trip is a parameter \<open>rt\<close> of type \<open>'s \<Rightarrow> http_request \<Rightarrow> 's \<times> http_response option\<close>,
  where \<open>'s\<close> is the state of everything outside and \<open>None\<close> is a transport error.
\<close>

section \<open>Headers\<close>

type_synonym header = "(string, string list) gomap"

definition valid_header_byte :: "char \<Rightarrow> bool" where
  "valid_header_byte c = (is_alnum c \<or> c \<in> set (''!#$%&*+-.^_`|~'' @ [CHR 0x27]))"

definition upper_byte :: "char \<Rightarrow> char" where
  "upper_byte c = (if is_lower c then char_of (of_char c - 32 :: nat) else c)"

fun canonical_loop :: "bool \<Rightarrow> string \<Rightarrow> string" where
  "canonical_loop upper [] = []"
| "canonical_loop upper (c # s) =
     (if upper then upper_byte c else lower_byte c) # canonical_loop (c = CHR ''-'') s"

text \<open>\<open>http.CanonicalHeaderKey\<close>: a name with a byte that is not a token byte is returned
  unchanged.\<close>

definition canonical_key :: "string \<Rightarrow> string" where
  "canonical_key s = (if list_all valid_header_byte s then canonical_loop True s else s)"

definition header_values :: "header \<Rightarrow> string \<Rightarrow> string list" where
  "header_values h k = (case map_get h (canonical_key k) of None \<Rightarrow> [] | Some vs \<Rightarrow> vs)"

definition header_get :: "header \<Rightarrow> string \<Rightarrow> string" where
  "header_get h k = values_get h (canonical_key k)"

definition header_set :: "string \<Rightarrow> string \<Rightarrow> header \<Rightarrow> header" where
  "header_set k v h = map_put (canonical_key k) [v] h"

definition header_add :: "string \<Rightarrow> string \<Rightarrow> header \<Rightarrow> header" where
  "header_add k v h = map_append (canonical_key k) v h"

definition header_del :: "string \<Rightarrow> header \<Rightarrow> header" where
  "header_del k h = map_del (canonical_key k) h"

lemma header_values_set:
  "header_values (header_set k v h) k' =
     (if canonical_key k' = canonical_key k then [v] else header_values h k')"
  by (simp add: header_values_def header_set_def gmap.get_put)

lemma header_values_add:
  "header_values (header_add k v h) k' =
     (if canonical_key k' = canonical_key k then header_values h k' @ [v] else header_values h k')"
  by (simp add: header_values_def header_add_def map_append_def gmap.get_put)

lemma header_values_del:
  "header_values (header_del k h) k' =
     (if canonical_key k' = canonical_key k then [] else header_values h k')"
  by (simp add: header_values_def header_del_def gmap.get_del)

lemma header_get_values: "header_get h k = (case header_values h k of [] \<Rightarrow> [] | v # _ \<Rightarrow> v)"
  by (simp add: header_get_def values_get_def header_values_def split: option.split list.split)

section \<open>The response writer\<close>

text \<open>\<open>rw_header\<close> is the map that handlers write to, \<open>rw_sent\<close> the status and the header
  that the first \<open>WriteHeader\<close> committed, \<open>rw_calls\<close> the number of \<open>WriteHeader\<close> calls.\<close>

record response_writer =
  rw_header :: header
  rw_sent :: "(int \<times> header) option"
  rw_body :: bytes
  rw_calls :: nat

definition new_writer :: response_writer where
  "new_writer = \<lparr>rw_header = [], rw_sent = None, rw_body = [], rw_calls = 0\<rparr>"

definition rw_set :: "string \<Rightarrow> string \<Rightarrow> response_writer \<Rightarrow> response_writer" where
  "rw_set k v w = w\<lparr>rw_header := header_set k v (rw_header w)\<rparr>"

definition write_header :: "int \<Rightarrow> response_writer \<Rightarrow> response_writer" where
  "write_header status w =
     (case rw_sent w of
        None \<Rightarrow> w\<lparr>rw_sent := Some (status, rw_header w), rw_calls := Suc (rw_calls w)\<rparr>
      | Some _ \<Rightarrow> w\<lparr>rw_calls := Suc (rw_calls w)\<rparr>)"

text \<open>A status without a body (1xx, 204, 304) makes \<open>Write\<close> return an error and write nothing.\<close>

definition body_allowed :: "int \<Rightarrow> bool" where
  "body_allowed status = (\<not> (100 \<le> status \<and> status \<le> 199) \<and> status \<noteq> 204 \<and> status \<noteq> 304)"

definition write_body :: "bytes \<Rightarrow> response_writer \<Rightarrow> response_writer" where
  "write_body b w =
     (let w' = (if rw_sent w = None then write_header 200 w else w)
      in case rw_sent w' of
           Some (status, _) \<Rightarrow> if body_allowed status then w'\<lparr>rw_body := rw_body w' @ b\<rparr> else w'
         | None \<Rightarrow> w')"

definition http_error :: "string \<Rightarrow> int \<Rightarrow> response_writer \<Rightarrow> response_writer" where
  "http_error message code w =
     (let h = header_set ''X-Content-Type-Options'' ''nosniff''
                (header_set ''Content-Type'' ''text/plain; charset=utf-8''
                  (header_del ''Content-Length'' (rw_header w)))
      in write_body (message @ [CHR 0x0A]) (write_header code (w\<lparr>rw_header := h\<rparr>)))"

text \<open>\<open>http.StatusText\<close> on the codes the library sends with it.\<close>

definition status_text :: "int \<Rightarrow> string" where
  "status_text code =
     (if code = 400 then ''Bad Request''
      else if code = 500 then ''Internal Server Error''
      else if code = 503 then ''Service Unavailable''
      else [])"

definition rw_status :: "response_writer \<Rightarrow> int option" where
  "rw_status w = map_option fst (rw_sent w)"

text \<open>Exactly one commit on a fresh writer.\<close>

definition committed_once :: "response_writer \<Rightarrow> int \<Rightarrow> bool" where
  "committed_once w status \<longleftrightarrow> rw_status w = Some status \<and> rw_calls w = 1"

definition fresh_writer :: "response_writer \<Rightarrow> bool" where
  "fresh_writer w \<longleftrightarrow> rw_sent w = None \<and> rw_calls w = 0 \<and> rw_body w = []"

lemma fresh_new_writer [simp]: "fresh_writer new_writer"
  by (simp add: fresh_writer_def new_writer_def)

lemma fresh_rw_set [simp]: "fresh_writer (rw_set k v w) = fresh_writer w"
  by (simp add: fresh_writer_def rw_set_def)

lemma committed_http_error: "fresh_writer w \<Longrightarrow> committed_once (http_error m code w) code"
  by (simp add: fresh_writer_def committed_once_def http_error_def write_header_def
      write_body_def rw_status_def Let_def)

lemma rw_body_http_error: "fresh_writer w \<Longrightarrow> body_allowed code \<Longrightarrow> rw_body (http_error m code w) = m @ [CHR 0x0A]"
  by (simp add: fresh_writer_def http_error_def write_header_def write_body_def Let_def)

lemma committed_write_header: "fresh_writer w \<Longrightarrow> committed_once (write_header code w) code"
  by (simp add: fresh_writer_def committed_once_def write_header_def rw_status_def)

lemma committed_write_body: "committed_once w code \<Longrightarrow> committed_once (write_body b w) code"
  by (auto simp: committed_once_def write_body_def rw_status_def Let_def split: prod.split)

section \<open>Bodies\<close>

text \<open>A body reader yields \<open>rd_data\<close> and then end of file, or an error when \<open>rd_err\<close>.\<close>

record reader =
  rd_data :: bytes
  rd_err :: bool

text \<open>\<open>io.ReadAll\<close>: \<open>None\<close> for an error.\<close>

definition read_all :: "reader \<Rightarrow> bytes option" where
  "read_all r = (if rd_err r then None else Some (rd_data r))"

text \<open>\<open>io.LimitReader(r, n)\<close>: end of file after \<open>n\<close> bytes, at once when \<open>n \<le> 0\<close>.\<close>

definition limit_reader :: "reader \<Rightarrow> int \<Rightarrow> reader" where
  "limit_reader r n =
     (if int (length (rd_data r)) \<ge> n then \<lparr>rd_data = take (nat n) (rd_data r), rd_err = False\<rparr> else r)"

text \<open>\<open>http.MaxBytesReader(w, r, n)\<close>: an error once more than \<open>n\<close> bytes are there to read.\<close>

definition max_bytes_reader :: "reader \<Rightarrow> int \<Rightarrow> reader" where
  "max_bytes_reader r n =
     (if int (length (rd_data r)) > n then \<lparr>rd_data = take (nat n) (rd_data r), rd_err = True\<rparr> else r)"

section \<open>Inbound requests\<close>

record request =
  rq_method :: string
  rq_header :: header
  rq_raw_query :: string
  rq_body :: reader
  rq_remote_addr :: string

section \<open>The client\<close>

record http_request =
  hr_method :: string
  hr_url :: string
  hr_header :: header
  hr_body :: bytes

record http_response =
  rs_status :: int
  rs_header :: header
  rs_body :: reader

text \<open>\<open>http.NewRequestWithContext\<close> for a valid method.\<close>

definition new_request :: "string \<Rightarrow> string \<Rightarrow> bytes \<Rightarrow> http_request option" where
  "new_request m u b =
     (case parse_url u of
        None \<Rightarrow> None
      | Some _ \<Rightarrow> Some \<lparr>hr_method = m, hr_url = u, hr_header = [], hr_body = b\<rparr>)"

text \<open>\<open>CheckRedirect\<close>: nil follows up to ten hops, \<open>UseLastResponse\<close> stands for a function
  that returns \<open>http.ErrUseLastResponse\<close>, \<open>AppRedirect n\<close> for a function of the application.
  \<open>cl_transport\<close> names the \<open>RoundTripper\<close> (\<open>None\<close> for nil).\<close>

datatype redirect_policy = FollowRedirects | UseLastResponse | AppRedirect nat

datatype transport_ref = AppTransport nat | DefaultTransportClone

record http_client =
  cl_transport :: "transport_ref option"
  cl_check_redirect :: redirect_policy
  cl_jar :: "nat option"
  cl_timeout :: int

type_synonym 's round_trip = "'s \<Rightarrow> http_request \<Rightarrow> 's \<times> http_response option"

definition is_redirect :: "http_response \<Rightarrow> bool" where
  "is_redirect r = (rs_status r \<in> {301, 302, 303, 307, 308} \<and> header_get (rs_header r) ''Location'' \<noteq> [])"

definition redirected :: "http_request \<Rightarrow> http_response \<Rightarrow> http_request" where
  "redirected q r =
     (if rs_status r \<in> {307, 308} then q\<lparr>hr_url := header_get (rs_header r) ''Location''\<rparr>
      else q\<lparr>hr_url := header_get (rs_header r) ''Location'',
             hr_method := (if hr_method q = ''HEAD'' then ''HEAD'' else ''GET''), hr_body := []\<rparr>)"

text \<open>\<open>(*http.Client).Do\<close>. \<open>follow\<close> is the number of hops the policy still allows.\<close>

fun do_hops :: "redirect_policy \<Rightarrow> 's round_trip \<Rightarrow> nat \<Rightarrow> 's \<Rightarrow> http_request \<Rightarrow> 's \<times> http_response option" where
  "do_hops policy rt follow s q =
     (case rt s q of
        (s', None) \<Rightarrow> (s', None)
      | (s', Some r) \<Rightarrow>
          if policy = UseLastResponse \<or> \<not> is_redirect r then (s', Some r)
          else (case follow of
                  0 \<Rightarrow> (s', None)
                | Suc n \<Rightarrow> do_hops policy rt n s' (redirected q r)))"

declare do_hops.simps [simp del]

definition client_do :: "http_client \<Rightarrow> 's round_trip \<Rightarrow> 's \<Rightarrow> http_request \<Rightarrow> 's \<times> http_response option" where
  "client_do cl rt s q = do_hops (cl_check_redirect cl) rt 9 s q"

text \<open>A client that refuses redirects makes one round trip and returns what it answered.\<close>

lemma client_do_refuse: "cl_check_redirect cl = UseLastResponse \<Longrightarrow> client_do cl rt s q = rt s q"
  by (simp add: client_do_def do_hops.simps split: prod.split option.split)

lemmas nethttp_eval [go_eval] = valid_header_byte_def upper_byte_def canonical_key_def
  header_values_def header_get_def header_set_def header_add_def header_del_def new_writer_def
  rw_set_def write_header_def body_allowed_def write_body_def http_error_def status_text_def rw_status_def
  read_all_def limit_reader_def max_bytes_reader_def new_request_def map_append_def
  values_get_def values_set_def

end
