(* ===== verification/Errors.thy ===== *)
theory Errors
  imports NetHttp
begin

text \<open>
  \<open>errors.go\<close>: the sentinel errors, \<open>HTTPError\<close>, \<open>DeniedError\<close>, \<open>RedirectError\<close> with
  their \<open>Error\<close>, \<open>Unwrap\<close> and \<open>Is\<close> methods, \<open>invalidRequest\<close>, and \<open>errors.Is\<close>,
  \<open>errors.As\<close> and \<open>errors.Join\<close> on them.

  A Go \<open>error\<close> that is not nil is an \<open>error\<close>. The pointer types have one constructor for
  a pointer to a struct and one for the typed nil pointer, which is an error value that is
  not nil. \<open>AppError t\<close> is any other error value (an application's, the standard
  library's), with its text. \<open>Wrapped\<close> and \<open>Prefixed\<close> are \<open>fmt.Errorf\<close> with \<open>%w\<close> at the start
  and at the end of the text.
\<close>

datatype sentinel =
    ErrInvalidRequest | ErrDenied | ErrVerificationFailed | ErrSubscriptionGone
  | ErrDeliveryFailed | ErrPublisherFailed | ErrQueueFull | ErrClosed
  | ErrExternalVerificationDisabled | ErrAlreadyVerified

datatype error =
    Sentinel sentinel
  | AppError string
  | Wrapped error string
  | Prefixed string error
  | Joined "error list"
  | HTTPError (operation: string) (status_code: int) (err_header: "header option")
      (err_body: "bytes option") (http_cause: "error option")
  | NilHTTPError
  | DeniedError (reason: string) (denied_cause: "error option")
  | NilDeniedError
  | RedirectError (redirect_status: int) (location: string)
  | NilRedirectError

section \<open>Texts\<close>

fun sentinel_text :: "sentinel \<Rightarrow> string" where
  "sentinel_text ErrInvalidRequest = ''websubhub: invalid request''"
| "sentinel_text ErrDenied = ''websubhub: denied''"
| "sentinel_text ErrVerificationFailed = ''websubhub: verification failed''"
| "sentinel_text ErrSubscriptionGone = ''websubhub: subscription gone''"
| "sentinel_text ErrDeliveryFailed = ''websubhub: delivery failed''"
| "sentinel_text ErrPublisherFailed = ''websubhub: publisher request failed''"
| "sentinel_text ErrQueueFull = ''websubhub: verification queue full''"
| "sentinel_text ErrClosed = ''websubhub: closed''"
| "sentinel_text ErrExternalVerificationDisabled = ''websubhub: external verification disabled''"
| "sentinel_text ErrAlreadyVerified = ''websubhub: already marked verified''"

definition http_error_text :: "string \<Rightarrow> int \<Rightarrow> string" where
  "http_error_text op status =
     (if status \<noteq> 0 then ''websubhub: '' @ op @ '' returned HTTP '' @ format_int status
      else ''websubhub: '' @ op @ '' failed'')"

definition denied_text :: "string \<Rightarrow> string" where
  "denied_text r =
     (if r = [] then sentinel_text ErrDenied else sentinel_text ErrDenied @ '': '' @ r)"

fun error_text :: "error \<Rightarrow> string" where
  "error_text (Sentinel s) = sentinel_text s"
| "error_text (AppError t) = t"
| "error_text (Wrapped e t) = error_text e @ '': '' @ t"
| "error_text (Prefixed t e) = t @ '': '' @ error_text e"
| "error_text (Joined []) = []"
| "error_text (Joined [e]) = error_text e"
| "error_text (Joined (e # e' # es)) = error_text e @ CHR 0x0A # error_text (Joined (e' # es))"
| "error_text (HTTPError op status _ _ _) = http_error_text op status"
| "error_text NilHTTPError = ''websubhub: HTTP error''"
| "error_text (DeniedError r _) = denied_text r"
| "error_text NilDeniedError = sentinel_text ErrDenied"
| "error_text (RedirectError status _) = ''websubhub: redirect with HTTP '' @ format_int status"
| "error_text NilRedirectError = ''websubhub: redirect''"

definition invalidRequest :: "string \<Rightarrow> error" where
  "invalidRequest why = Wrapped (Sentinel ErrInvalidRequest) why"

section \<open>Error trees\<close>

text \<open>What \<open>Unwrap() error\<close> or \<open>Unwrap() []error\<close> gives. The \<open>Unwrap\<close> methods of the
  package return nil on a nil receiver.\<close>

fun unwrap :: "error \<Rightarrow> error list" where
  "unwrap (Wrapped e _) = [e]"
| "unwrap (Prefixed _ e) = [e]"
| "unwrap (Joined es) = es"
| "unwrap (HTTPError _ _ _ _ cause) = (case cause of None \<Rightarrow> [] | Some e \<Rightarrow> [e])"
| "unwrap (DeniedError _ cause) = (case cause of None \<Rightarrow> [] | Some e \<Rightarrow> [e])"
| "unwrap _ = []"

lemma unwrap_smaller [termination_simp]: "e' \<in> set (unwrap e) \<Longrightarrow> size e' < size e"
proof (cases e)
  case (Joined es)
  then show "e' \<in> set (unwrap e) \<Longrightarrow> size e' < size e"
    using size_list_estimation' [of e' es "size e'" size] by auto
qed (auto split: option.splits)

text \<open>The \<open>Is\<close> method of \<open>*DeniedError\<close>, on a nil receiver too.\<close>

definition is_method :: "error \<Rightarrow> error \<Rightarrow> bool" where
  "is_method e target =
     (case e of
        DeniedError _ _ \<Rightarrow> target = Sentinel ErrDenied
      | NilDeniedError \<Rightarrow> target = Sentinel ErrDenied
      | _ \<Rightarrow> False)"

text \<open>\<open>errors.Is\<close> for a target without fields, the only kind the code passes: comparison
  of error values is then comparison of constructors.\<close>

function errors_is :: "error \<Rightarrow> error \<Rightarrow> bool" where
  "errors_is e target = (e = target \<or> is_method e target \<or> (\<exists>e' \<in> set (unwrap e). errors_is e' target))"
  by pat_completeness auto
termination
  by (relation "measure (\<lambda>(e, _). size e)") (simp_all add: unwrap_smaller)

declare errors_is.simps [simp del]

text \<open>\<open>errors.As\<close> for \<open>*DeniedError\<close> and \<open>*RedirectError\<close>: the first match in depth-first
  order. The outer option is whether there is one, the inner one whether that pointer is
  not nil.\<close>

fun first_some :: "'a option list \<Rightarrow> 'a option" where
  "first_some [] = None"
| "first_some (None # xs) = first_some xs"
| "first_some (Some x # xs) = Some x"

function errors_as_denied :: "error \<Rightarrow> string option option" where
  "errors_as_denied e =
     (case e of
        DeniedError r _ \<Rightarrow> Some (Some r)
      | NilDeniedError \<Rightarrow> Some None
      | _ \<Rightarrow> first_some (map errors_as_denied (unwrap e)))"
  by pat_completeness auto
termination
  by (relation "measure size", simp, unfold in_measure) (erule unwrap_smaller)+

function errors_as_redirect :: "error \<Rightarrow> (int \<times> string) option option" where
  "errors_as_redirect e =
     (case e of
        RedirectError status loc \<Rightarrow> Some (Some (status, loc))
      | NilRedirectError \<Rightarrow> Some None
      | _ \<Rightarrow> first_some (map errors_as_redirect (unwrap e)))"
  by pat_completeness auto
termination
  by (relation "measure size", simp, unfold in_measure) (erule unwrap_smaller)+

declare errors_as_denied.simps [simp del] errors_as_redirect.simps [simp del]

text \<open>\<open>errors.Join\<close> of arguments that are not nil.\<close>

definition errors_join :: "error list \<Rightarrow> error" where
  "errors_join es = Joined es"

section \<open>Classification\<close>

lemma errors_is_refl [simp]: "errors_is e e"
  by (subst errors_is.simps) simp

lemma errors_is_wrapped [simp]:
  "errors_is (Wrapped e t) (Sentinel s) \<longleftrightarrow> errors_is e (Sentinel s)"
  by (subst errors_is.simps) (simp add: is_method_def)

lemma errors_is_prefixed [simp]:
  "errors_is (Prefixed t e) (Sentinel s) \<longleftrightarrow> errors_is e (Sentinel s)"
  "errors_is (Prefixed t e) (AppError a) \<longleftrightarrow> errors_is e (AppError a)"
  by (subst errors_is.simps, simp add: is_method_def)+

lemma errors_is_joined [simp]:
  "errors_is (errors_join es) (Sentinel s) \<longleftrightarrow> (\<exists>e \<in> set es. errors_is e (Sentinel s))"
  by (subst errors_is.simps) (simp add: is_method_def errors_join_def)

lemma errors_is_http [simp]:
  "errors_is (HTTPError op st h b cause) (Sentinel s) \<longleftrightarrow>
     (\<exists>e. cause = Some e \<and> errors_is e (Sentinel s))"
  by (subst errors_is.simps) (auto simp: is_method_def split: option.splits)

lemma errors_is_denied [simp]: "errors_is (DeniedError r cause) (Sentinel ErrDenied)"
  by (subst errors_is.simps) (simp add: is_method_def)

lemma errors_is_sentinel [simp]: "errors_is (Sentinel s) (Sentinel s') \<longleftrightarrow> s = s'"
  by (subst errors_is.simps) (simp add: is_method_def)

lemma errors_is_invalidRequest [simp]:
  "errors_is (invalidRequest why) (Sentinel s) \<longleftrightarrow> s = ErrInvalidRequest"
  by (auto simp: invalidRequest_def)

lemma first_some_member: "first_some xs = Some y \<Longrightarrow> Some y \<in> set xs"
  by (induction xs rule: first_some.induct) auto

lemma errors_as_denied_is_denied:
  "errors_as_denied e = Some d \<Longrightarrow> errors_is e (Sentinel ErrDenied)"
proof (induction e arbitrary: d rule: measure_induct_rule [of size])
  case (less e)
  show ?case
  proof (cases "(\<exists>r c. e = DeniedError r c) \<or> e = NilDeniedError")
    case True
    then show ?thesis by (subst errors_is.simps) (auto simp: is_method_def)
  next
    case False
    with less.prems have "first_some (map errors_as_denied (unwrap e)) = Some d"
      by (subst (asm) errors_as_denied.simps) (auto split: error.splits)
    then obtain e' where "e' \<in> set (unwrap e)" and "errors_as_denied e' = Some d"
      by (auto dest!: first_some_member)
    with less.IH have "errors_is e' (Sentinel ErrDenied)"
      using unwrap_smaller by blast
    with \<open>e' \<in> set (unwrap e)\<close> show ?thesis by (subst errors_is.simps) blast
  qed
qed

lemma errors_as_denied_direct [simp]: "errors_as_denied (DeniedError r c) = Some (Some r)"
  by (subst errors_as_denied.simps) simp

lemma errors_as_redirect_direct [simp]: "errors_as_redirect (RedirectError st l) = Some (Some (st, l))"
  by (subst errors_as_redirect.simps) simp

lemmas errors_eval [go_eval] = http_error_text_def denied_text_def invalidRequest_def
  is_method_def errors_is.simps errors_as_denied.simps errors_as_redirect.simps errors_join_def

end
