(* ===== verification/Service.thy ===== *)
theory Service
  imports Errors
begin

text \<open>
  \<open>service.go\<close>: the modes, the configuration, the messages handed to the application, its
  callbacks and the \<open>Controller\<close>; and the clone functions of \<open>helpers.go\<close> and \<open>handler.go\<close>
  that detach them.

  The application is a parameter. Its state (everything its callbacks can see and change)
  is the type variable \<open>'s\<close>; a callback maps its arguments and the state to the new state
  and to what it returned, or to \<open>Panicked\<close>. An admission callback also gets the \<open>Controller\<close>:
  its last argument is whether external verification is allowed, which fixes what each
  \<open>MarkVerified\<close> call answers, and the number it returns is how often it called
  \<open>MarkVerified\<close> before the handler reads the mark. Lemmas: what the clone functions give,
  and the controller's protocol.
\<close>

section \<open>Modes, configuration\<close>

type_synonym mode = string

definition ModeSubscribe :: mode where "ModeSubscribe = ''subscribe''"
definition ModeUnsubscribe :: mode where "ModeUnsubscribe = ''unsubscribe''"
definition ModeRegister :: mode where "ModeRegister = ''register''"
definition ModeDeregister :: mode where "ModeDeregister = ''deregister''"
definition ModePublish :: mode where "ModePublish = ''publish''"

datatype update_kind = UpdateEvent | UpdateContent

text \<open>A \<open>time.Duration\<close> counts nanoseconds.\<close>

type_synonym duration = int

definition second :: duration where "second = 1000000000"

text \<open>\<open>cfg_logger\<close>: whether a logger was supplied.\<close>

record config =
  HubURL :: string
  DefaultLease :: duration
  MaxLease :: duration
  MaxRequestBody :: int
  MaxCallbackBody :: int
  VerificationTimeout :: duration
  VerificationWorkers :: int
  VerificationQueue :: int
  HTTPClient :: "http_client option"
  cfg_logger :: bool
  AllowExternalVerification :: bool
  EnablePublisherExtension :: bool
  EnableHubErrorCallback :: bool

section \<open>Messages\<close>

record request_metadata =
  md_header :: "header option"
  md_remote_addr :: string

record result =
  res_status :: int
  res_header :: "header option"
  res_content_type :: string
  res_body :: "bytes option"

definition zero_result :: result where
  "zero_result = \<lparr>res_status = 0, res_header = None, res_content_type = [], res_body = None\<rparr>"

record topic_registration =
  reg_mode :: mode
  reg_topic :: string
  reg_content_type :: string

record topic_deregistration =
  dereg_mode :: mode
  dereg_topic :: string

record subscription =
  sub_hub :: string
  sub_mode :: mode
  sub_callback :: string
  sub_topic :: string
  sub_lease_seconds :: string
  sub_secret :: string
  sub_parameters :: "url_values option"

text \<open>An instant is a number of nanoseconds since Go's zero time, so \<open>IsZero\<close> is \<open>= 0\<close>.\<close>

type_synonym time = int

record verified_subscription =
  vs_subscription :: subscription
  vs_effective_lease :: string
  vs_lease_started :: time

record unsubscription =
  unsub_mode :: mode
  unsub_callback :: string
  unsub_topic :: string
  unsub_secret :: string
  unsub_parameters :: "url_values option"

record verified_unsubscription =
  vu_unsubscription :: unsubscription

record update_message =
  upd_kind :: update_kind
  upd_topic :: string
  upd_content_type :: string
  upd_body :: "bytes option"
  upd_header :: "header option"

section \<open>Detached copies\<close>

text \<open>\<open>http.Header.Clone\<close> and \<open>cloneHeader\<close>: a new map with the same entries, nil for nil.\<close>

definition cloneHeader :: "header option \<Rightarrow> header option" where
  "cloneHeader h =
     (case h of None \<Rightarrow> None | Some m \<Rightarrow> Some (fold (\<lambda>(k, vs). map_put k vs) m []))"

definition cloneValues :: "url_values option \<Rightarrow> url_values option" where
  "cloneValues v =
     (case v of None \<Rightarrow> None | Some m \<Rightarrow> Some (fold (\<lambda>(k, vs). map_put k ([] @ vs)) m []))"

text \<open>\<open>append([]byte(nil), value...)\<close> is nil when there is nothing to append.\<close>

definition cloneBytes :: "bytes option \<Rightarrow> bytes option" where
  "cloneBytes b = (case b of None \<Rightarrow> None | Some [] \<Rightarrow> None | Some (c # cs) \<Rightarrow> Some (c # cs))"

definition cloneMetadata :: "request_metadata \<Rightarrow> request_metadata" where
  "cloneMetadata md = \<lparr>md_header = cloneHeader (md_header md), md_remote_addr = md_remote_addr md\<rparr>"

definition cloneSubscription :: "subscription \<Rightarrow> subscription" where
  "cloneSubscription m = m\<lparr>sub_parameters := cloneValues (sub_parameters m)\<rparr>"

definition cloneUnsubscription :: "unsubscription \<Rightarrow> unsubscription" where
  "cloneUnsubscription m = m\<lparr>unsub_parameters := cloneValues (unsub_parameters m)\<rparr>"

definition cloneUpdate :: "update_message \<Rightarrow> update_message" where
  "cloneUpdate m = m\<lparr>upd_body := cloneBytes (upd_body m), upd_header := cloneHeader (upd_header m)\<rparr>"

definition cloneResult :: "result \<Rightarrow> result" where
  "cloneResult r = r\<lparr>res_header := cloneHeader (res_header r), res_body := cloneBytes (res_body r)\<rparr>"

definition cloneVerifiedSubscription :: "verified_subscription \<Rightarrow> verified_subscription" where
  "cloneVerifiedSubscription m = m\<lparr>vs_subscription := cloneSubscription (vs_subscription m)\<rparr>"

definition cloneVerifiedUnsubscription :: "verified_unsubscription \<Rightarrow> verified_unsubscription" where
  "cloneVerifiedUnsubscription m =
     m\<lparr>vu_unsubscription := cloneUnsubscription (vu_unsubscription m)\<rparr>"

text \<open>A copy made entry by entry in any order is the map that was copied.\<close>

lemma copy_map_id_aux:
  "distinct (map fst (m' @ m)) \<Longrightarrow> fold (\<lambda>(k, v). map_put k v) m m' = m' @ m"
proof (induction m arbitrary: m')
  case (Cons p m)
  obtain k v where p: "p = (k, v)" by fastforce
  have "k \<notin> set (map fst m')" using Cons.prems p by auto
  then have "map_put k v m' = m' @ [(k, v)]"
    unfolding map_put_def by (induction m') auto
  with Cons p show ?case by simp
qed simp

lemma copy_map_id: "map_ok m \<Longrightarrow> fold (\<lambda>(k, v). map_put k v) m [] = m"
  by (simp add: copy_map_id_aux map_ok_def)

lemma cloneHeader_id [simp]: "map_ok m \<Longrightarrow> cloneHeader (Some m) = Some m"
  by (simp add: cloneHeader_def copy_map_id)

lemma cloneHeader_None [simp]: "cloneHeader None = None"
  by (simp add: cloneHeader_def)

lemma cloneValues_id [simp]: "map_ok m \<Longrightarrow> cloneValues (Some m) = Some m"
  by (simp add: cloneValues_def copy_map_id)

lemma cloneValues_None [simp]: "cloneValues None = None"
  by (simp add: cloneValues_def)

lemma map_ok_copy: "map_ok (fold (\<lambda>(k, v). map_put k (f v)) m [])"
proof -
  have "map_ok m0 \<Longrightarrow> map_ok (fold (\<lambda>(k, v). map_put k (f v)) m m0)" for m0
    by (induction m arbitrary: m0) (auto intro: gmap.ok_put)
  then show ?thesis by simp
qed

lemma cloneValues_ok: "cloneValues v = Some m \<Longrightarrow> map_ok m"
  using map_ok_copy [of "\<lambda>vs. [] @ vs"] by (auto simp: cloneValues_def split: option.splits)

lemma cloneHeader_ok: "cloneHeader v = Some m \<Longrightarrow> map_ok m"
  using map_ok_copy [of "\<lambda>vs. vs"] by (auto simp: cloneHeader_def split: option.splits)

lemma cloneValues_idem [simp]: "cloneValues (cloneValues v) = cloneValues v"
  using cloneValues_ok [of v] by (cases "cloneValues v") simp_all

lemma cloneHeader_idem [simp]: "cloneHeader (cloneHeader v) = cloneHeader v"
  using cloneHeader_ok [of v] by (cases "cloneHeader v") simp_all

lemma cloneBytes_idem [simp]: "cloneBytes (cloneBytes b) = cloneBytes b"
  by (simp add: cloneBytes_def split: option.split list.split)

lemma clone_idem [simp]:
  "cloneMetadata (cloneMetadata md) = cloneMetadata md"
  "cloneSubscription (cloneSubscription s) = cloneSubscription s"
  "cloneUnsubscription (cloneUnsubscription u) = cloneUnsubscription u"
  "cloneResult (cloneResult r) = cloneResult r"
  "cloneVerifiedSubscription (cloneVerifiedSubscription v) = cloneVerifiedSubscription v"
  "cloneVerifiedUnsubscription (cloneVerifiedUnsubscription w) = cloneVerifiedUnsubscription w"
  by (simp_all add: cloneMetadata_def cloneSubscription_def cloneUnsubscription_def cloneResult_def
      cloneVerifiedSubscription_def cloneVerifiedUnsubscription_def)

lemma cloneSubscription_fields [simp]:
  "sub_hub (cloneSubscription s) = sub_hub s" "sub_mode (cloneSubscription s) = sub_mode s"
  "sub_callback (cloneSubscription s) = sub_callback s" "sub_topic (cloneSubscription s) = sub_topic s"
  "sub_lease_seconds (cloneSubscription s) = sub_lease_seconds s"
  "sub_secret (cloneSubscription s) = sub_secret s"
  by (simp_all add: cloneSubscription_def)

lemma cloneUnsubscription_fields [simp]:
  "unsub_mode (cloneUnsubscription u) = unsub_mode u"
  "unsub_callback (cloneUnsubscription u) = unsub_callback u"
  "unsub_topic (cloneUnsubscription u) = unsub_topic u"
  "unsub_secret (cloneUnsubscription u) = unsub_secret u"
  by (simp_all add: cloneUnsubscription_def)

section \<open>The controller\<close>

record controller =
  ct_allowed :: bool
  ct_marked :: bool

text \<open>A \<open>*Controller\<close>, \<open>None\<close> for nil: the answer and the controller afterwards.\<close>

definition MarkVerified :: "controller option \<Rightarrow> controller option \<times> error option" where
  "MarkVerified c =
     (case c of
        None \<Rightarrow> (None, Some (Sentinel ErrExternalVerificationDisabled))
      | Some ct \<Rightarrow>
          if \<not> ct_allowed ct then (Some ct, Some (Sentinel ErrExternalVerificationDisabled))
          else if ct_marked ct then (Some ct, Some (Sentinel ErrAlreadyVerified))
          else (Some (ct\<lparr>ct_marked := True\<rparr>), None))"

definition isMarked :: "controller option \<Rightarrow> bool" where
  "isMarked c = (case c of None \<Rightarrow> False | Some ct \<Rightarrow> ct_marked ct)"

text \<open>The state a controller is in after \<open>n\<close> calls of \<open>MarkVerified\<close>, with the answers.\<close>

fun mark_calls :: "nat \<Rightarrow> controller option \<Rightarrow> controller option \<times> error option list" where
  "mark_calls 0 c = (c, [])"
| "mark_calls (Suc n) c =
     (case MarkVerified c of (c', e) \<Rightarrow> case mark_calls n c' of (c'', es) \<Rightarrow> (c'', e # es))"

lemma mark_calls_disabled:
  "\<not> ct_allowed ct \<Longrightarrow> mark_calls n (Some ct) =
     (Some ct, replicate n (Some (Sentinel ErrExternalVerificationDisabled)))"
  by (induction n) (simp_all add: MarkVerified_def)

lemma mark_calls_marked:
  "ct_allowed ct \<Longrightarrow> ct_marked ct \<Longrightarrow>
     mark_calls n (Some ct) = (Some ct, replicate n (Some (Sentinel ErrAlreadyVerified)))"
  by (induction n) (simp_all add: MarkVerified_def)

lemma mark_calls_allowed:
  "ct_allowed ct \<Longrightarrow> \<not> ct_marked ct \<Longrightarrow>
     mark_calls (Suc n) (Some ct) =
       (Some (ct\<lparr>ct_marked := True\<rparr>), None # replicate n (Some (Sentinel ErrAlreadyVerified)))"
  by (simp add: MarkVerified_def mark_calls_marked)

lemma isMarked_mark_calls:
  "isMarked (fst (mark_calls n (Some \<lparr>ct_allowed = a, ct_marked = False\<rparr>))) \<longleftrightarrow> a \<and> 0 < n"
  by (cases n; cases a)
    (simp_all add: mark_calls_disabled mark_calls_allowed isMarked_def del: mark_calls.simps(2))

section \<open>The application's callbacks\<close>

text \<open>What running a callback comes to: it returned, or it panicked.\<close>

datatype 'a outcome = Returned 'a | Panicked

record 's service =
  OnRegisterTopic :: "('s \<Rightarrow> topic_registration \<Rightarrow> request_metadata
    \<Rightarrow> 's \<times> (result \<times> error option) outcome) option"
  OnDeregisterTopic :: "('s \<Rightarrow> topic_deregistration \<Rightarrow> request_metadata
    \<Rightarrow> 's \<times> (result \<times> error option) outcome) option"
  OnUpdateMessage :: "('s \<Rightarrow> update_message \<Rightarrow> request_metadata
    \<Rightarrow> 's \<times> (result \<times> error option) outcome) option"
  OnSubscription :: "('s \<Rightarrow> subscription \<Rightarrow> request_metadata \<Rightarrow> bool
    \<Rightarrow> 's \<times> nat \<times> (result \<times> error option) outcome) option"
  OnSubscriptionValidation :: "('s \<Rightarrow> subscription \<Rightarrow> request_metadata
    \<Rightarrow> 's \<times> (error option) outcome) option"
  OnSubscriptionVerified :: "('s \<Rightarrow> verified_subscription \<Rightarrow> request_metadata
    \<Rightarrow> 's \<times> (error option) outcome) option"
  OnUnsubscription :: "('s \<Rightarrow> unsubscription \<Rightarrow> request_metadata \<Rightarrow> bool
    \<Rightarrow> 's \<times> nat \<times> (result \<times> error option) outcome) option"
  OnUnsubscriptionValidation :: "('s \<Rightarrow> unsubscription \<Rightarrow> request_metadata
    \<Rightarrow> 's \<times> (error option) outcome) option"
  OnUnsubscriptionVerified :: "('s \<Rightarrow> verified_unsubscription \<Rightarrow> request_metadata
    \<Rightarrow> 's \<times> (error option) outcome) option"

text \<open>\<open>recoverCallback\<close>: a panic becomes an error, with the zero result.\<close>

definition panic_error :: error where
  "panic_error = AppError ''websubhub: application callback panicked''"

definition recover_result :: "(result \<times> error option) outcome \<Rightarrow> result \<times> error option" where
  "recover_result out = (case out of Returned r \<Rightarrow> r | Panicked \<Rightarrow> (zero_result, Some panic_error))"

definition recover_error :: "error option outcome \<Rightarrow> error option" where
  "recover_error out = (case out of Returned e \<Rightarrow> e | Panicked \<Rightarrow> Some panic_error)"

lemmas service_eval [go_eval] = ModeSubscribe_def ModeUnsubscribe_def ModeRegister_def
  ModeDeregister_def ModePublish_def second_def zero_result_def cloneHeader_def cloneValues_def
  cloneBytes_def cloneMetadata_def cloneSubscription_def cloneUnsubscription_def cloneUpdate_def
  cloneResult_def cloneVerifiedSubscription_def cloneVerifiedUnsubscription_def
  MarkVerified_def isMarked_def panic_error_def recover_result_def recover_error_def

end
