(* ===== verification/Urls.thy ===== *)
theory Urls
  imports Service
begin

text \<open>
  The URL part of \<open>helpers.go\<close>: \<open>validateHTTPURL\<close>, \<open>normalizeHTTPURL\<close> and
  \<open>decodeURLUnreserved\<close> with its index loop. \<open>decode_unreserved\<close> is the specification of
  the loop, by recursion on the string. Lemmas: the loop computes it, the result is no
  longer, decodes to the same bytes, and has no escape of an unreserved byte left when the
  escapes are well formed; what an accepted URL looks like.
\<close>

section \<open>Single bytes\<close>

definition hexValue :: "byte \<Rightarrow> byte \<times> bool" where
  "hexValue v =
     (if v \<ge> byte_of (CHR ''0'') \<and> v \<le> byte_of (CHR ''9'') then (v - byte_of (CHR ''0''), True)
      else if v \<ge> byte_of (CHR ''a'') \<and> v \<le> byte_of (CHR ''f'') then (v - byte_of (CHR ''a'') + 10, True)
      else if v \<ge> byte_of (CHR ''A'') \<and> v \<le> byte_of (CHR ''F'') then (v - byte_of (CHR ''A'') + 10, True)
      else (0, False))"

definition isURLUnreserved :: "byte \<Rightarrow> bool" where
  "isURLUnreserved v \<longleftrightarrow>
     v \<ge> byte_of (CHR ''a'') \<and> v \<le> byte_of (CHR ''z'')
     \<or> v \<ge> byte_of (CHR ''A'') \<and> v \<le> byte_of (CHR ''Z'')
     \<or> v \<ge> byte_of (CHR ''0'') \<and> v \<le> byte_of (CHR ''9'')
     \<or> v = byte_of (CHR ''-'') \<or> v = byte_of (CHR ''.'')
     \<or> v = byte_of (CHR ''_'') \<or> v = byte_of (CHR ''~'')"

section \<open>The loop of \<open>decodeURLUnreserved\<close>\<close>

text \<open>The loop variables are \<open>index\<close>, \<open>start\<close> (the code's \<open>last\<close>), \<open>changed\<close> and the builder's content.\<close>

function decode_loop :: "string \<Rightarrow> nat \<Rightarrow> nat \<Rightarrow> bool \<Rightarrow> string \<Rightarrow> nat \<times> bool \<times> string" where
  "decode_loop raw index start changed normalized =
     (if \<not> index + 2 < length raw then (start, changed, normalized)
      else if raw ! index \<noteq> CHR ''%'' then decode_loop raw (index + 1) start changed normalized
      else
        (case hexValue (byte_of (raw ! (index + 1))) of (high, highOK) \<Rightarrow>
         case hexValue (byte_of (raw ! (index + 2))) of (low, lowOK) \<Rightarrow>
           if \<not> highOK \<or> \<not> lowOK then decode_loop raw (index + 1) start changed normalized
           else
             let decoded = push_bit 4 high OR low
             in if \<not> isURLUnreserved decoded then decode_loop raw (index + 1) start changed normalized
                else decode_loop raw (index + 2 + 1) (index + 2 + 1) True
                       (normalized @ str_slice raw start index @ [char_of_byte decoded])))"
  by pat_completeness auto
termination
  by (relation "measure (\<lambda>(raw, index, _). length raw - index)") auto

declare decode_loop.simps [simp del]

definition decodeURLUnreserved :: "string \<Rightarrow> string" where
  "decodeURLUnreserved raw =
     (case decode_loop raw 0 0 False [] of (start, changed, normalized) \<Rightarrow>
        if \<not> changed then raw else normalized @ drop start raw)"

section \<open>The specification\<close>

text \<open>\<open>decodable h l\<close>: \<open>%hl\<close> is an escape of an unreserved byte, \<open>decoded_char h l\<close>.\<close>

definition decoded_char :: "char \<Rightarrow> char \<Rightarrow> char" where
  "decoded_char h l = char_of_byte (push_bit 4 (fst (hexValue (byte_of h))) OR fst (hexValue (byte_of l)))"

definition decodable :: "char \<Rightarrow> char \<Rightarrow> bool" where
  "decodable h l \<longleftrightarrow>
     snd (hexValue (byte_of h)) \<and> snd (hexValue (byte_of l))
     \<and> isURLUnreserved (byte_of (decoded_char h l))"

fun decode_unreserved :: "string \<Rightarrow> string" where
  "decode_unreserved (c # h # l # s) =
     (if c = CHR ''%'' \<and> decodable h l then decoded_char h l # decode_unreserved s
      else c # decode_unreserved (h # l # s))"
| "decode_unreserved s = s"

lemma decode_unreserved_short: "length s < 3 \<Longrightarrow> decode_unreserved s = s"
  by (cases s rule: decode_unreserved.cases) auto

lemma drop_three:
  "index + 2 < length raw \<Longrightarrow>
     drop index raw = raw ! index # raw ! (index + 1) # raw ! (index + 2) # drop (index + 3) raw"
  by (simp add: Cons_nth_drop_Suc numeral_3_eq_3)

text \<open>The loop invariant: what is written so far, the bytes since \<open>start\<close> and the decoded
  rest make the result; nothing has been written while \<open>changed\<close> is false.\<close>

lemma decode_loop_correct:
  assumes "start \<le> index" "index \<le> length raw" "\<not> changed \<Longrightarrow> start = 0 \<and> normalized = []"
  shows "(case decode_loop raw index start changed normalized of (start', changed', normalized') \<Rightarrow>
            if \<not> changed' then raw else normalized' @ drop start' raw) =
         normalized @ str_slice raw start index @ decode_unreserved (drop index raw)"
  using assms
proof (induction raw index start changed normalized rule: decode_loop.induct)
  case (1 raw index start changed normalized)
  show ?case
  proof (cases "index + 2 < length raw")
    case False
    then have rest: "decode_unreserved (drop index raw) = drop index raw"
      by (intro decode_unreserved_short) simp
    have "str_slice raw start index @ drop index raw = drop start raw"
      using "1.prems"(1) by (rule str_slice_append_drop)
    with "1.prems" False rest show ?thesis
      by (subst decode_loop.simps) auto
  next
    case True
    obtain high highOK where h: "hexValue (byte_of (raw ! (index + 1))) = (high, highOK)" by fastforce
    obtain low lowOK where l: "hexValue (byte_of (raw ! (index + 2))) = (low, lowOK)" by fastforce
    have slice: "str_slice raw start (index + 1) = str_slice raw start index @ [raw ! index]"
      using "1.prems"(1) True by (simp add: str_slice_snoc)
    have split: "drop index raw = raw ! index # raw ! (index + 1) # raw ! (index + 2) # drop (index + 3) raw"
      using True by (rule drop_three)
    have tl: "drop (index + 1) raw = raw ! (index + 1) # raw ! (index + 2) # drop (index + 3) raw"
      using arg_cong [OF split, of tl] by (simp add: drop_Suc tl_drop)
    show ?thesis
    proof (cases "raw ! index = CHR ''%'' \<and> decodable (raw ! (index + 1)) (raw ! (index + 2))")
      case True
      with 1 h l slice split tl \<open>index + 2 < length raw\<close> show ?thesis
        by (subst decode_loop.simps) (simp add: decodable_def decoded_char_def Let_def numeral_3_eq_3)
    next
      case False
      then show ?thesis
        using 1 h l slice split tl \<open>index + 2 < length raw\<close>
        by (subst decode_loop.simps)
          (simp add: decodable_def decoded_char_def Let_def)
    qed
  qed
qed

lemma decodeURLUnreserved_spec: "decodeURLUnreserved raw = decode_unreserved raw"
  using decode_loop_correct [of 0 0 raw False "[]"] by (simp add: decodeURLUnreserved_def)

section \<open>What decoding does\<close>

lemma byte_le_iff: "byte_of c \<le> byte_of d \<longleftrightarrow> c \<le> d"
  by (simp add: word_le_nat_alt unat_byte_of less_eq_char_def)

lemma hexValue_char: "hexValue (byte_of c) = (unhex c, is_hex c)"
proof -
  have n: "byte_of (CHR ''0'') = 48" "byte_of (CHR ''a'') = 97" "byte_of (CHR ''A'') = 65"
    by (simp_all add: byte_of_def)
  show ?thesis
    unfolding hexValue_def byte_le_iff unfolding unhex_def is_hex_def is_digit_def n by auto
qed

lemma unreserved_char:
  "isURLUnreserved (byte_of c) \<longleftrightarrow> is_alnum c \<or> c \<in> set ''-._~''"
  unfolding isURLUnreserved_def byte_le_iff byte_of_inject is_alnum_def is_lower_def is_upper_def
    is_digit_def
  by auto

lemma decodable_iff:
  "decodable h l \<longleftrightarrow> is_hex h \<and> is_hex l \<and> (is_alnum (hex_pair h l) \<or> hex_pair h l \<in> set ''-._~'')"
  unfolding decodable_def decoded_char_def hexValue_char fst_conv snd_conv
    hex_pair_def [symmetric] unreserved_char by simp

lemma decoded_char_hex [simp]: "decoded_char h l = hex_pair h l"
  by (simp add: decoded_char_def hexValue_char hex_pair_def)

lemma not_alnum_specials: "\<not> is_alnum (CHR ''%'')" "\<not> is_alnum (CHR ''+'')"
  by (simp_all add: is_alnum_def is_lower_def is_upper_def is_digit_def)

lemma decodable_plain: "decodable h l \<Longrightarrow> hex_pair h l \<noteq> CHR ''%'' \<and> hex_pair h l \<noteq> CHR ''+''"
  by (auto simp: decodable_iff not_alnum_specials)

lemma hex_not_percent: "is_hex h \<Longrightarrow> h \<noteq> CHR ''%''"
  by (auto simp: is_hex_def is_digit_def)

lemma decode_unreserved_other [simp]: "c \<noteq> CHR ''%'' \<Longrightarrow> decode_unreserved (c # s) = c # decode_unreserved s"
  by (cases "c # s" rule: decode_unreserved.cases) auto

lemma decode_unreserved_length: "length (decode_unreserved s) \<le> length s"
  by (induction s rule: decode_unreserved.induct) auto

text \<open>Every \<open>%\<close> begins an escape.\<close>

fun well_escaped :: "string \<Rightarrow> bool" where
  "well_escaped [] = True"
| "well_escaped (c # s) =
     (if c = CHR ''%'' then (case s of h # l # r \<Rightarrow> is_hex h \<and> is_hex l \<and> well_escaped r | _ \<Rightarrow> False)
      else well_escaped s)"

lemma unescape_well_escaped: "unescape mode s = Some t \<Longrightarrow> well_escaped s"
  by (induction mode s arbitrary: t rule: unescape.induct) (auto split: if_splits list.splits)

text \<open>An induction over a string with its escapes in one piece.\<close>

lemma well_escaped_induct [consumes 1, case_names Nil Decoded Escape Other]:
  assumes "well_escaped s" and "P []"
    and "\<And>h l r. decodable h l \<Longrightarrow> well_escaped r \<Longrightarrow> P r \<Longrightarrow> P (CHR ''%'' # h # l # r)"
    and "\<And>h l r. \<not> decodable h l \<Longrightarrow> is_hex h \<Longrightarrow> is_hex l \<Longrightarrow> well_escaped r \<Longrightarrow> P r
           \<Longrightarrow> P (CHR ''%'' # h # l # r)"
    and "\<And>c r. c \<noteq> CHR ''%'' \<Longrightarrow> well_escaped r \<Longrightarrow> P r \<Longrightarrow> P (c # r)"
  shows "P s"
  using assms(1)
proof (induction s rule: measure_induct_rule [of length])
  case (less s)
  show ?case
  proof (cases s)
    case (Cons c r)
    show ?thesis
    proof (cases "c = CHR ''%''")
      case True
      with Cons less.prems obtain h l r' where s: "s = CHR ''%'' # h # l # r'"
        and hex: "is_hex h" "is_hex l" and r': "well_escaped r'"
        by (auto split: list.splits)
      have "P r'" using less.IH [of r'] s r' by simp
      with s hex r' assms(3,4) show ?thesis by (cases "decodable h l") auto
    next
      case False
      with less Cons assms(5) show ?thesis by auto
    qed
  qed (simp add: assms(2))
qed

declare decode_unreserved.simps(1) [simp del]

lemma decode_escape [simp]:
  "decodable h l \<Longrightarrow> decode_unreserved (CHR ''%'' # h # l # r) = hex_pair h l # decode_unreserved r"
  "\<not> decodable h l \<Longrightarrow> is_hex h \<Longrightarrow> is_hex l \<Longrightarrow>
     decode_unreserved (CHR ''%'' # h # l # r) = CHR ''%'' # h # l # decode_unreserved r"
  by (simp_all add: decode_unreserved.simps(1) hex_not_percent)

lemma decode_well_escaped: "well_escaped s \<Longrightarrow> well_escaped (decode_unreserved s)"
  by (induction s rule: well_escaped_induct) (auto dest: decodable_plain)

lemma decode_unreserved_idem:
  "well_escaped s \<Longrightarrow> decode_unreserved (decode_unreserved s) = decode_unreserved s"
  by (induction s rule: well_escaped_induct) (auto dest: decodable_plain)

text \<open>Outside hosts, the decoded string stands for the same bytes.\<close>

lemma decode_unescape:
  assumes "unescape mode s = Some t" and "mode \<noteq> EncodeHost" and "mode \<noteq> EncodeZone"
  shows "unescape mode (decode_unreserved s) = Some t"
proof -
  have "well_escaped s" using assms(1) by (rule unescape_well_escaped)
  then show ?thesis
    using assms
  proof (induction s arbitrary: t rule: well_escaped_induct)
    case (Decoded h l r)
    moreover have "\<not> bad_host_escape mode h l"
      using Decoded.prems by (simp add: bad_host_escape_def)
    ultimately show ?case
      using decodable_plain [OF Decoded.hyps(1)] by (auto simp: decodable_iff [of h l])
  next
    case (Escape h l r)
    then show ?case by (auto split: if_splits)
  next
    case (Other c r)
    then show ?case by (auto split: if_splits)
  qed simp
qed

section \<open>Accepted URLs\<close>

definition validateHTTPURL :: "string \<Rightarrow> string \<Rightarrow> bool \<Rightarrow> bool \<Rightarrow> error + url" where
  "validateHTTPURL raw name rejectUserinfo rejectFragment =
     (case parse_url raw of
        None \<Rightarrow> Inl (invalidRequest (name @ '' must be an absolute HTTP(S) URL''))
      | Some u \<Rightarrow>
          if u_scheme u = [] \<or> u_host u = []
          then Inl (invalidRequest (name @ '' must be an absolute HTTP(S) URL''))
          else if u_scheme u \<noteq> ''http'' \<and> u_scheme u \<noteq> ''https''
          then Inl (invalidRequest (name @ '' must use HTTP or HTTPS''))
          else if rejectUserinfo \<and> u_user u \<noteq> None
          then Inl (invalidRequest (name @ '' must not contain userinfo''))
          else if rejectFragment \<and> u_fragment u \<noteq> []
          then Inl (invalidRequest (name @ '' must not contain a fragment''))
          else Inr u)"

definition normalizeHTTPURL :: "string \<Rightarrow> string \<Rightarrow> bool \<Rightarrow> bool \<Rightarrow> error + string" where
  "normalizeHTTPURL raw name rejectUserinfo rejectFragment =
     (case validateHTTPURL raw name rejectUserinfo rejectFragment of
        Inl e \<Rightarrow> Inl e
      | Inr _ \<Rightarrow> Inr (decodeURLUnreserved raw))"

text \<open>The specification of an accepted URL.\<close>

definition http_url :: "bool \<Rightarrow> bool \<Rightarrow> url \<Rightarrow> bool" where
  "http_url rejectUserinfo rejectFragment u \<longleftrightarrow>
     u_scheme u \<in> {''http'', ''https''} \<and> u_host u \<noteq> []
     \<and> (rejectUserinfo \<longrightarrow> u_user u = None) \<and> (rejectFragment \<longrightarrow> u_fragment u = [])"

lemma validateHTTPURL_iff:
  "validateHTTPURL raw name ru rf = Inr u \<longleftrightarrow> parse_url raw = Some u \<and> http_url ru rf u"
  by (cases "parse_url raw"; cases "u_user u") (auto simp: validateHTTPURL_def http_url_def)

lemma validateHTTPURL_Inl:
  "validateHTTPURL raw name ru rf = Inl e \<Longrightarrow> \<not> (\<exists>u. parse_url raw = Some u \<and> http_url ru rf u)"
  using validateHTTPURL_iff [of raw name ru rf] by simp

lemma validateHTTPURL_Inr:
  "validateHTTPURL raw name ru rf = Inr u \<Longrightarrow> \<exists>u. parse_url raw = Some u \<and> http_url ru rf u"
  using validateHTTPURL_iff [of raw name ru rf] by blast

lemma validateHTTPURL_error:
  "validateHTTPURL raw name ru rf = Inl e \<Longrightarrow> \<exists>why. e = invalidRequest (name @ why)"
  by (auto simp: validateHTTPURL_def split: option.splits if_splits)

lemma normalizeHTTPURL_iff:
  "normalizeHTTPURL raw name ru rf = Inr t \<longleftrightarrow>
     t = decode_unreserved raw \<and> (\<exists>u. parse_url raw = Some u \<and> http_url ru rf u)"
  using validateHTTPURL_iff [of raw name ru rf]
  by (cases "validateHTTPURL raw name ru rf")
    (simp_all add: normalizeHTTPURL_def decodeURLUnreserved_spec, blast)

text \<open>Control bytes: none before the fragment of an accepted URL.\<close>

lemma parse_url_no_ctl:
  "parse_url raw = Some u \<Longrightarrow> c \<in> set (fst (str_cut (CHR ''#'') raw)) \<Longrightarrow> \<not> is_ctl c"
  by (auto simp: parse_url_def parse_no_fragment_def list_ex_iff split: prod.splits option.splits if_splits)

lemmas urls_eval [go_eval] = hexValue_def isURLUnreserved_def decodeURLUnreserved_def
  decode_loop.simps validateHTTPURL_def normalizeHTTPURL_def

end
