(* ===== verification/GoMime.thy ===== *)
theory GoMime
  imports GoStrings GoMap
begin

text \<open>
  Go's \<open>mime.ParseMediaType\<close>: the lower-cased media type and its parameters, RFC 2231
  continuations included, or \<open>None\<close> for an error return.
\<close>

definition is_tspecial :: "char \<Rightarrow> bool" where
  "is_tspecial c = (c \<in> set (''()<>@,;:/[]?='' @ [CHR 0x5C, CHR 0x22]))"

definition is_token_char :: "char \<Rightarrow> bool" where
  "is_token_char c = (CHR 0x20 < c \<and> c < CHR 0x7F \<and> \<not> is_tspecial c)"

definition consume_token :: "string \<Rightarrow> string \<times> string" where
  "consume_token v = (takeWhile is_token_char v, dropWhile is_token_char v)"

text \<open>The quoted string after its opening quote: the value and what follows the closing
  quote, \<open>None\<close> when there is no closing quote or a line break comes first.\<close>

fun quoted_string :: "string \<Rightarrow> (string \<times> string) option" where
  "quoted_string [] = None"
| "quoted_string [c] = (if c = CHR 0x22 then Some ([], []) else None)"
| "quoted_string (c # d # s) =
     (if c = CHR 0x22 then Some ([], d # s)
      else if c = CHR 0x5C \<and> is_tspecial d
        then map_option (\<lambda>(v, r). (d # v, r)) (quoted_string s)
      else if c = CHR 0x0D \<or> c = CHR 0x0A then None
      else map_option (\<lambda>(v, r). (c # v, r)) (quoted_string (d # s)))"

definition consume_value :: "string \<Rightarrow> string \<times> string" where
  "consume_value v =
     (if v = [] then ([], [])
      else if hd v \<noteq> CHR 0x22 then consume_token v
      else (case quoted_string (tl v) of None \<Rightarrow> ([], v) | Some r \<Rightarrow> r))"

definition cut_prefix_byte :: "char \<Rightarrow> string \<Rightarrow> string option" where
  "cut_prefix_byte c s = (case s of [] \<Rightarrow> None | x # r \<Rightarrow> if x = c then Some r else None)"

text \<open>One \<open>; key = value\<close>: key, value and the rest, \<open>None\<close> when there is none.\<close>

definition consume_media_param :: "string \<Rightarrow> (string \<times> string \<times> string) option" where
  "consume_media_param v =
     (case cut_prefix_byte (CHR '';'') (trim_left v) of
        None \<Rightarrow> None
      | Some r1 \<Rightarrow>
          (case consume_token (trim_left r1) of (param, r2) \<Rightarrow>
             if to_lower param = [] then None
             else (case cut_prefix_byte (CHR ''='') (trim_left r2) of
                     None \<Rightarrow> None
                   | Some r3 \<Rightarrow>
                       (let r4 = trim_left r3 in
                        case consume_value r4 of (v', r5) \<Rightarrow>
                          if v' = [] \<and> r5 = r4 then None else Some (to_lower param, v', r5)))))"

definition check_media_type :: "string \<Rightarrow> bool" where
  "check_media_type s =
     (case consume_token s of (typ, rest) \<Rightarrow>
        if typ = [] then False
        else if rest = [] then True
        else if hd rest \<noteq> CHR ''/'' then False
        else (case consume_token (tl rest) of (subtype, rest') \<Rightarrow> subtype \<noteq> [] \<and> rest' = []))"

type_synonym params = "(string, string) gomap"

lemma length_strip_prefixes: "length (strip_prefixes ps s) \<le> length s"
proof (induction ps s rule: strip_prefixes.induct)
  case (1 ps s)
  then show ?case
    by (subst strip_prefixes.simps) (fastforce split: option.split)
qed

lemma length_trim_left: "length (trim_left s) \<le> length s"
  by (simp add: trim_left_def length_strip_prefixes)

lemma length_consume_token: "consume_token v = (t, r) \<Longrightarrow> length r \<le> length v"
  by (auto simp: consume_token_def length_dropWhile_le)

lemma length_quoted_string: "quoted_string v = Some (t, r) \<Longrightarrow> length r \<le> length v"
  by (induction v arbitrary: t r rule: quoted_string.induct)
    (auto split: if_splits simp: le_SucI)

lemma length_consume_value: "consume_value v = (t, r) \<Longrightarrow> length r \<le> length v"
  by (cases v) (auto simp: consume_value_def le_SucI split: if_splits option.splits
      dest: length_consume_token length_quoted_string)

lemma length_cut_prefix_byte: "cut_prefix_byte c s = Some r \<Longrightarrow> length r < length s"
  by (auto simp: cut_prefix_byte_def split: list.splits if_splits)

lemma length_consume_media_param:
  assumes "consume_media_param v = Some (k, x, r)"
  shows "length r < length v"
proof -
  from assms obtain r1 p r2 r3 where
    c1: "cut_prefix_byte (CHR '';'') (trim_left v) = Some r1" and
    c2: "consume_token (trim_left r1) = (p, r2)" and
    c3: "cut_prefix_byte (CHR ''='') (trim_left r2) = Some r3" and
    c4: "\<exists>t. consume_value (trim_left r3) = (t, r)"
    by (auto simp: consume_media_param_def Let_def split: option.splits prod.splits if_splits)
  from c4 have "length r \<le> length r3"
    using length_consume_value length_trim_left le_trans by blast
  also have "\<dots> < length r2"
    using length_cut_prefix_byte [OF c3] length_trim_left [of r2] by linarith
  also have "\<dots> \<le> length r1"
    using length_consume_token [OF c2] length_trim_left [of r1] by linarith
  also have "\<dots> < length v"
    using length_cut_prefix_byte [OF c1] length_trim_left [of v] by linarith
  finally show ?thesis by simp
qed

text \<open>The parameter loop. A key with a star goes to the continuations of its base name.\<close>

function media_params_loop ::
    "string \<Rightarrow> params \<Rightarrow> (string, params) gomap \<Rightarrow> (params \<times> (string, params) gomap) option" where
  "media_params_loop v params cont =
     (if trim_left v = [] then Some (params, cont)
      else (case consume_media_param (trim_left v) of
        None \<Rightarrow> if trim_space (trim_left v) = '';'' then Some (params, cont) else None
      | Some (key, val, rest) \<Rightarrow>
          (case str_cut (CHR ''*'') key of (base, _, starred) \<Rightarrow>
             let pmap = (if starred then (case map_get cont base of None \<Rightarrow> [] | Some m \<Rightarrow> m) else params)
             in if map_get pmap key \<noteq> None \<and> map_get pmap key \<noteq> Some val then None
                else if starred then media_params_loop rest params (map_put base (map_put key val pmap) cont)
                else media_params_loop rest (map_put key val params) cont)))"
  by pat_completeness auto
termination
proof -
  have "consume_media_param (trim_left v) = Some (k, x, r) \<Longrightarrow> length r < length v" for v k x r
    using length_consume_media_param length_trim_left less_le_trans by blast
  then show ?thesis
    by (relation "measure (\<lambda>(v, params, cont). length v)") auto
qed

declare media_params_loop.simps [simp del]

text \<open>\<open>percentHexUnescape\<close> and \<open>decode2231Enc\<close>.\<close>

definition hex_nibble :: "char \<Rightarrow> nat option" where
  "hex_nibble c =
     (if is_digit c then Some (of_char c - 48)
      else if CHR ''a'' \<le> c \<and> c \<le> CHR ''f'' then Some (of_char c - 87)
      else if CHR ''A'' \<le> c \<and> c \<le> CHR ''F'' then Some (of_char c - 55)
      else None)"

fun percent_hex_unescape :: "string \<Rightarrow> string option" where
  "percent_hex_unescape [] = Some []"
| "percent_hex_unescape (c # s) =
     (if c = CHR ''%'' then
        (case s of
           h # l # rest \<Rightarrow>
             (case (hex_nibble h, hex_nibble l) of
                (Some x, Some y) \<Rightarrow>
                  map_option ((#) (char_of (16 * x + y))) (percent_hex_unescape rest)
              | _ \<Rightarrow> None)
         | _ \<Rightarrow> None)
      else map_option ((#) c) (percent_hex_unescape s))"

definition decode_2231 :: "string \<Rightarrow> string option" where
  "decode_2231 v =
     (case str_cut (CHR 0x27) v of (charset, v1, ok1) \<Rightarrow>
        if \<not> ok1 then None
        else (case str_cut (CHR 0x27) v1 of (_, v2, ok2) \<Rightarrow>
          if \<not> ok2 then None
          else if to_lower charset \<noteq> ''us-ascii'' \<and> to_lower charset \<noteq> ''utf-8'' then None
          else percent_hex_unescape v2))"

text \<open>The numbered pieces of one continued parameter. Every round but the last finds a key
  of \<open>pieces\<close> of its own, so a fuel of one more than the number of pieces is enough.\<close>

fun stitch_pieces :: "nat \<Rightarrow> string \<Rightarrow> params \<Rightarrow> int \<Rightarrow> string \<Rightarrow> bool \<Rightarrow> string \<times> bool" where
  "stitch_pieces 0 key pieces n buf valid = (buf, valid)"
| "stitch_pieces (Suc fuel) key pieces n buf valid =
     (let simple = key @ ''*'' @ format_int n in
      case map_get pieces simple of
        Some v \<Rightarrow> stitch_pieces fuel key pieces (n + 1) (buf @ v) True
      | None \<Rightarrow>
          (case map_get pieces (simple @ ''*'') of
             None \<Rightarrow> (buf, valid)
           | Some v \<Rightarrow>
               (let decoded = (if n = 0 then decode_2231 v else percent_hex_unescape v)
                in stitch_pieces fuel key pieces (n + 1)
                     (buf @ (case decoded of None \<Rightarrow> [] | Some d \<Rightarrow> d)) True)))"

definition stitch_one :: "string \<times> params \<Rightarrow> params \<Rightarrow> params" where
  "stitch_one kp params =
     (case kp of (key, pieces) \<Rightarrow>
        (case map_get pieces (key @ ''*'') of
           Some v \<Rightarrow> (case decode_2231 v of None \<Rightarrow> params | Some d \<Rightarrow> map_put key d params)
         | None \<Rightarrow>
             (case stitch_pieces (Suc (length pieces)) key pieces 0 [] False of (buf, valid) \<Rightarrow>
                if valid then map_put key buf params else params)))"

definition mime_parse_media_type :: "string \<Rightarrow> (string \<times> params) option" where
  "mime_parse_media_type v =
     (let base = fst (str_cut (CHR '';'') v);
          mediatype = trim_space (to_lower base)
      in if \<not> check_media_type mediatype then None
         else (case media_params_loop (drop (length base) v) [] [] of
                 None \<Rightarrow> None
               | Some (params, cont) \<Rightarrow> Some (mediatype, fold stitch_one cont params)))"

lemma mime_parse_nonempty: "mime_parse_media_type v = Some (t, p) \<Longrightarrow> t \<noteq> []"
  by (auto simp: mime_parse_media_type_def Let_def check_media_type_def consume_token_def
      split: if_splits option.splits)

lemmas gomime_eval [go_eval] = is_tspecial_def is_token_char_def consume_token_def
  consume_value_def cut_prefix_byte_def consume_media_param_def check_media_type_def
  hex_nibble_def decode_2231_def stitch_one_def mime_parse_media_type_def unicode_spaces_def

end
