(* ===== verification/Helpers.thy ===== *)
theory Helpers
  imports Urls GoMime
begin

text \<open>
  The rest of \<open>helpers.go\<close>: limits and defaults, the HTTP client, bounded bodies, media
  types, header validation and copying, response snapshots, safe reasons and link values.
  Lemmas: \<open>readBounded\<close> returns the whole body or an error for every limit but the largest
  integer, header validation does not depend on the order of the map and protects the
  reserved names, and a safe reason has no CR, LF or NUL and at most 256 bytes.
\<close>

section \<open>Defaults\<close>

definition defaultLease :: duration where "defaultLease = 10 * 24 * 3600 * second"
definition defaultRequestBody :: int where "defaultRequestBody = 65536"
definition defaultCallbackBody :: int where "defaultCallbackBody = 4096"
definition defaultDeliveryBody :: int where "defaultDeliveryBody = 65536"
definition defaultVerificationTimeout :: duration where "defaultVerificationTimeout = 10 * second"
definition defaultClientTimeout :: duration where "defaultClientTimeout = 30 * second"
definition defaultWorkers :: int where "defaultWorkers = 4"
definition defaultQueue :: int where "defaultQueue = 1024"
definition maxSecretBytes :: nat where "maxSecretBytes = 199"
definition maxSafeReasonBytes :: nat where "maxSafeReasonBytes = 256"

definition forbiddenHeaders :: "string list" where
  "forbiddenHeaders =
     [''Connection'', ''Keep-Alive'', ''Proxy-Authenticate'', ''Proxy-Authorization'',
      ''Te'', ''Trailer'', ''Transfer-Encoding'', ''Upgrade'']"

section \<open>The HTTP client\<close>

text \<open>\<open>refuseRedirect\<close> is the policy \<open>UseLastResponse\<close>.\<close>

definition refuseRedirect :: redirect_policy where
  "refuseRedirect = UseLastResponse"

definition newHTTPClient :: "http_client option \<Rightarrow> duration \<Rightarrow> http_client" where
  "newHTTPClient supplied timeout0 =
     (let timeout = (if timeout0 \<le> 0 then defaultClientTimeout else timeout0)
      in case supplied of
           Some c \<Rightarrow>
             (let copied = c\<lparr>cl_check_redirect := refuseRedirect\<rparr>
              in if cl_timeout copied = 0 then copied\<lparr>cl_timeout := timeout\<rparr> else copied)
         | None \<Rightarrow>
             \<lparr>cl_transport = Some DefaultTransportClone, cl_check_redirect = refuseRedirect,
              cl_jar = None, cl_timeout = timeout\<rparr>)"

lemma newHTTPClient_refuses [simp]: "cl_check_redirect (newHTTPClient c t) = UseLastResponse"
  by (simp add: newHTTPClient_def refuseRedirect_def Let_def split: option.split)

lemma newHTTPClient_keeps:
  "cl_transport (newHTTPClient (Some c) t) = cl_transport c"
  "cl_jar (newHTTPClient (Some c) t) = cl_jar c"
  by (simp_all add: newHTTPClient_def Let_def)

section \<open>Bounded bodies\<close>

text \<open>The error that reading a body can end with is the transport's.\<close>

definition io_error :: error where
  "io_error = AppError ''read error''"

definition readBounded :: "reader \<Rightarrow> int \<Rightarrow> error + bytes" where
  "readBounded body limit =
     (if limit \<le> 0 then Inl (invalidRequest ''body limit must be positive'')
      else case read_all (limit_reader body (wrap64 (limit + 1))) of
             None \<Rightarrow> Inl io_error
           | Some data \<Rightarrow>
               if int (length data) > limit then Inl (invalidRequest ''body exceeds configured limit'')
               else Inr data)"

lemma readBounded_spec:
  assumes "0 < limit" and "limit < 2 ^ 63 - 1"
  shows "readBounded r limit =
    (if int (length (rd_data r)) > limit then Inl (invalidRequest ''body exceeds configured limit'')
     else if rd_err r then Inl io_error else Inr (rd_data r))"
proof -
  have "wrap64 (limit + 1) = limit + 1"
    using assms by (intro wrap64_id) (simp add: in_int64_def)
  with assms show ?thesis
    by (simp add: readBounded_def read_all_def limit_reader_def)
qed

text \<open>With the largest limit, \<open>limit+1\<close> wraps to the smallest integer: nothing is read.\<close>

lemma readBounded_max: "readBounded r (2 ^ 63 - 1) = Inr []"
proof -
  have "wrap64 (2 ^ 63 - 1 + 1) = - (2 ^ 63)" by (simp add: wrap64_def)
  then have "limit_reader r (wrap64 (2 ^ 63 - 1 + 1)) = \<lparr>rd_data = [], rd_err = False\<rparr>"
    by (simp add: limit_reader_def)
  then show ?thesis by (simp add: readBounded_def read_all_def)
qed

lemma readBounded_bound: "readBounded r limit = Inr data \<Longrightarrow> int (length data) \<le> limit"
  by (auto simp: readBounded_def split: if_splits option.splits)

section \<open>Media types\<close>

definition parseMediaType :: "string \<Rightarrow> error + string" where
  "parseMediaType value =
     (if value = [] then Inl (invalidRequest ''Content-Type is required'')
      else case mime_parse_media_type value of
             None \<Rightarrow> Inl (invalidRequest ''Content-Type is malformed'')
           | Some (mediaType, _) \<Rightarrow> Inr (to_lower mediaType))"

definition form_type :: string where
  "form_type = ''application/x-www-form-urlencoded''"

definition validateFormContentType :: "string \<Rightarrow> error option" where
  "validateFormContentType value =
     (case mime_parse_media_type value of
        None \<Rightarrow> Some (invalidRequest ''Content-Type must be application/x-www-form-urlencoded'')
      | Some (mediaType, parameters) \<Rightarrow>
          if \<not> equal_fold mediaType form_type
          then Some (invalidRequest ''Content-Type must be application/x-www-form-urlencoded'')
          else case map_get parameters ''charset'' of
                 Some charset \<Rightarrow>
                   if \<not> equal_fold charset ''utf-8'' then Some (invalidRequest ''unsupported form charset'')
                   else None
               | None \<Rightarrow> None)"

definition validateContentType :: "string \<Rightarrow> error option" where
  "validateContentType value = (case parseMediaType value of Inl e \<Rightarrow> Some e | Inr _ \<Rightarrow> None)"

section \<open>Headers\<close>

fun validate_values :: "string list \<Rightarrow> error option" where
  "validate_values [] = None"
| "validate_values (v # vs) =
     (if contains_any v [CHR 0x0D, CHR 0x0A] then Some (invalidRequest ''unsafe header value'')
      else validate_values vs)"

fun validate_entries :: "header \<Rightarrow> string list \<Rightarrow> error option" where
  "validate_entries [] reserved = None"
| "validate_entries ((name, vs) # h) reserved =
     (let canonical = canonical_key name
      in if canonical = [] then Some (invalidRequest ''invalid header name'')
         else if canonical \<in> set forbiddenHeaders then Some (invalidRequest ''unsafe header'')
         else if canonical \<in> set reserved then Some (invalidRequest ''reserved header'')
         else case validate_values vs of
                Some e \<Rightarrow> Some e
              | None \<Rightarrow> validate_entries h reserved)"

definition validateHeaders :: "header option \<Rightarrow> string list \<Rightarrow> error option" where
  "validateHeaders h reserved = (case h of None \<Rightarrow> None | Some m \<Rightarrow> validate_entries m reserved)"

definition copyHeaders :: "header \<Rightarrow> header option \<Rightarrow> header" where
  "copyHeaders dst src =
     (case src of
        None \<Rightarrow> dst
      | Some m \<Rightarrow> fold (\<lambda>(name, vs) d. fold (\<lambda>v. header_add name v) vs d) m dst)"

text \<open>The specification of a header entry the validation lets through.\<close>

definition safe_entry :: "string list \<Rightarrow> string \<times> string list \<Rightarrow> bool" where
  "safe_entry reserved e \<longleftrightarrow>
     canonical_key (fst e) \<noteq> [] \<and> canonical_key (fst e) \<notin> set forbiddenHeaders
     \<and> canonical_key (fst e) \<notin> set reserved
     \<and> (\<forall>v \<in> set (snd e). CHR 0x0D \<notin> set v \<and> CHR 0x0A \<notin> set v)"

definition headers_of :: "header option \<Rightarrow> header" where
  "headers_of h = (case h of None \<Rightarrow> [] | Some m \<Rightarrow> m)"

lemma validate_values_iff:
  "validate_values vs = None \<longleftrightarrow> (\<forall>v \<in> set vs. CHR 0x0D \<notin> set v \<and> CHR 0x0A \<notin> set v)"
  by (induction vs) (auto simp: contains_any_iff)

lemma validate_entries_iff:
  "validate_entries h reserved = None \<longleftrightarrow> (\<forall>e \<in> set h. safe_entry reserved e)"
proof (induction h reserved rule: validate_entries.induct)
  case (2 name vs h reserved)
  then show ?case
    by (cases "validate_values vs")
      (simp_all add: Let_def safe_entry_def validate_values_iff [symmetric])
qed simp

lemma validateHeaders_iff:
  "validateHeaders h reserved = None \<longleftrightarrow> (\<forall>e \<in> set (headers_of h). safe_entry reserved e)"
  by (cases h) (simp_all add: validateHeaders_def headers_of_def validate_entries_iff)

lemma header_values_add_list:
  "header_values (fold (\<lambda>v. header_add n v) vs d) k =
     header_values d k @ (if canonical_key k = canonical_key n then vs else [])"
  by (induction vs arbitrary: d) (simp_all add: header_values_add)

lemma validateContentType_error:
  "validateContentType v = Some e \<Longrightarrow> errors_is e (Sentinel ErrInvalidRequest)"
  by (auto simp: validateContentType_def parseMediaType_def split: sum.splits if_splits option.splits)

lemma validate_values_error: "validate_values vs = Some e \<Longrightarrow> errors_is e (Sentinel ErrInvalidRequest)"
  by (induction vs) (auto split: if_splits)

lemma validate_entries_error:
  "validate_entries h reserved = Some e \<Longrightarrow> errors_is e (Sentinel ErrInvalidRequest)"
  by (induction h reserved rule: validate_entries.induct)
    (auto simp: Let_def dest: validate_values_error split: if_splits option.splits)

lemma validateHeaders_error:
  "validateHeaders h reserved = Some e \<Longrightarrow> errors_is e (Sentinel ErrInvalidRequest)"
  by (auto simp: validateHeaders_def dest: validate_entries_error split: option.splits)

text \<open>What \<open>copyHeaders\<close> leaves under a key: the old values, then the new ones in the order
  of the iteration.\<close>

lemma header_values_copy:
  "header_values (copyHeaders dst src) k =
     header_values dst k @
     concat (map snd (filter (\<lambda>e. canonical_key (fst e) = canonical_key k) (headers_of src)))"
proof -
  have "header_values (fold (\<lambda>(name, vs) d. fold (\<lambda>v. header_add name v) vs d) m dst) k =
      header_values dst k @ concat (map snd (filter (\<lambda>e. canonical_key (fst e) = canonical_key k) m))" for m
    by (induction m arbitrary: dst) (auto simp: header_values_add_list)
  then show ?thesis by (simp add: copyHeaders_def headers_of_def split: option.split)
qed

lemma copyHeaders_reserved:
  assumes "validateHeaders src reserved = None"
    and "canonical_key k \<in> set reserved \<or> canonical_key k \<in> set forbiddenHeaders"
  shows "header_values (copyHeaders dst src) k = header_values dst k"
proof -
  have "filter (\<lambda>e. canonical_key (fst e) = canonical_key k) (headers_of src) = []"
    using assms by (auto simp: validateHeaders_iff safe_entry_def filter_empty_conv)
  then show ?thesis by (simp add: header_values_copy)
qed

lemma copyHeaders_safe_values:
  assumes "validateHeaders src reserved = None" and "v \<in> set (header_values (copyHeaders dst src) k)"
    and "v \<notin> set (header_values dst k)"
  shows "CHR 0x0D \<notin> set v \<and> CHR 0x0A \<notin> set v"
  using assms by (auto simp: validateHeaders_iff safe_entry_def header_values_copy)

section \<open>Responses\<close>

definition responseSnapshot :: "http_response \<Rightarrow> int \<Rightarrow> string \<Rightarrow> error \<Rightarrow> error + bytes" where
  "responseSnapshot response limit op class =
     (case readBounded (rs_body response) limit of
        Inl e \<Rightarrow>
          Inl (HTTPError op (rs_status response) (cloneHeader (Some (rs_header response))) None
                (Some (errors_join [class, e])))
      | Inr body \<Rightarrow> Inr body)"

definition formAccepted :: "bytes \<Rightarrow> bool" where
  "formAccepted body =
     (case parse_query body of (m, err) \<Rightarrow>
        \<not> err \<and> length (case map_get m ''hub.mode'' of None \<Rightarrow> [] | Some vs \<Rightarrow> vs) = 1
        \<and> values_get m ''hub.mode'' = ''accepted'')"

lemma responseSnapshot_class:
  "responseSnapshot r limit op class = Inl e \<Longrightarrow> errors_is class (Sentinel s) \<Longrightarrow> errors_is e (Sentinel s)"
  by (auto simp: responseSnapshot_def split: sum.splits)

lemma responseSnapshot_bound: "responseSnapshot r limit op class = Inr b \<Longrightarrow> int (length b) \<le> limit"
  by (auto simp: responseSnapshot_def dest: readBounded_bound split: sum.splits)

section \<open>Safe reasons\<close>

text \<open>The width of the UTF-8 sequence at the head of a string, \<open>None\<close> where there is none.\<close>

definition in_range :: "char \<Rightarrow> char \<Rightarrow> char \<Rightarrow> bool" where
  "in_range lo hi c \<longleftrightarrow> lo \<le> c \<and> c \<le> hi"

definition cont :: "char \<Rightarrow> bool" where
  "cont c = in_range (CHR 0x80) (CHR 0xBF) c"

fun utf8_width :: "string \<Rightarrow> nat option" where
  "utf8_width [] = None"
| "utf8_width (a # s) =
     (if a < CHR 0x80 then Some 1
      else if in_range (CHR 0xC2) (CHR 0xDF) a then
        (case s of b # _ \<Rightarrow> if cont b then Some 2 else None | _ \<Rightarrow> None)
      else if in_range (CHR 0xE0) (CHR 0xEF) a then
        (case s of
           b # c # _ \<Rightarrow>
             if in_range (if a = CHR 0xE0 then CHR 0xA0 else CHR 0x80)
                  (if a = CHR 0xED then CHR 0x9F else CHR 0xBF) b \<and> cont c then Some 3 else None
         | _ \<Rightarrow> None)
      else if in_range (CHR 0xF0) (CHR 0xF4) a then
        (case s of
           b # c # d # _ \<Rightarrow>
             if in_range (if a = CHR 0xF0 then CHR 0x90 else CHR 0x80)
                  (if a = CHR 0xF4 then CHR 0x8F else CHR 0xBF) b \<and> cont c \<and> cont d then Some 4 else None
         | _ \<Rightarrow> None)
      else None)"

text \<open>\<open>strings.Map\<close> with the function that drops CR, LF and NUL: every other code point is
  written back, a byte that belongs to none as U+FFFD.\<close>

definition dropped :: "char \<Rightarrow> bool" where
  "dropped c = (c = CHR 0x0D \<or> c = CHR 0x0A \<or> c = CHR 0x00)"

function map_reason :: "string \<Rightarrow> string" where
  "map_reason [] = []"
| "map_reason (c # s) =
     (case utf8_width (c # s) of
        None \<Rightarrow> [CHR 0xEF, CHR 0xBF, CHR 0xBD] @ map_reason s
      | Some w \<Rightarrow>
          (if w = 1 then (if dropped c then [] else [c]) else c # take (w - 1) s)
          @ map_reason (drop (w - 1) s))"
  by pat_completeness auto
termination
  by (relation "measure length") auto

definition safeReason :: "string \<Rightarrow> string" where
  "safeReason why =
     (let mapped = map_reason why
      in if length mapped > maxSafeReasonBytes then take maxSafeReasonBytes mapped else mapped)"

lemma in_range_high: "in_range lo hi c \<Longrightarrow> CHR 0x80 \<le> lo \<Longrightarrow> \<not> dropped c"
  by (auto simp: in_range_def dropped_def less_eq_char_def)

lemma cont_high: "cont c \<Longrightarrow> \<not> dropped c"
  using in_range_high [of "CHR 0x80" "CHR 0xBF" c] by (simp add: cont_def)

lemma utf8_sequence_high:
  assumes "utf8_width (c # s) = Some w" "w \<noteq> 1" "x \<in> set (c # take (w - 1) s)"
  shows "\<not> dropped x"
proof -
  have "\<not> dropped c"
    using assms(1,2) by (auto split: if_splits intro: in_range_high simp: dropped_def)
  moreover have "x \<in> set (take (w - 1) s) \<Longrightarrow> \<not> dropped x"
    using assms(1,2) by (auto split: if_splits list.splits dest: cont_high in_range_high)
  ultimately show ?thesis using assms(3) by auto
qed

lemma map_reason_clean: "x \<in> set (map_reason s) \<Longrightarrow> \<not> dropped x"
proof (induction s rule: map_reason.induct)
  case (2 c s)
  show ?case
  proof (cases "utf8_width (c # s)")
    case None
    with 2 show ?thesis by (auto simp: dropped_def simp del: utf8_width.simps)
  next
    case (Some w)
    with 2 utf8_sequence_high [OF Some] show ?thesis
      by (auto simp del: utf8_width.simps split: if_splits)
  qed
qed simp

lemma safeReason_clean: "x \<in> set (safeReason why) \<Longrightarrow> \<not> dropped x"
  by (auto simp: safeReason_def Let_def map_reason_clean dest: in_set_takeD split: if_splits)

lemma safeReason_length: "length (safeReason why) \<le> 256"
  by (simp add: safeReason_def Let_def maxSafeReasonBytes_def)

lemma map_reason_ascii:
  "(\<And>c. c \<in> set s \<Longrightarrow> c < CHR 0x80 \<and> \<not> dropped c) \<Longrightarrow> map_reason s = s"
  by (induction s) simp_all

lemma safeReason_ascii:
  "(\<And>c. c \<in> set s \<Longrightarrow> c < CHR 0x80 \<and> \<not> dropped c) \<Longrightarrow> length s \<le> 256 \<Longrightarrow> safeReason s = s"
  by (simp add: safeReason_def map_reason_ascii Let_def maxSafeReasonBytes_def)

section \<open>Links\<close>

text \<open>\<open>%q\<close> of a relation name, which is a constant without characters to escape.\<close>

definition encodedLink :: "string \<Rightarrow> string \<Rightarrow> string" where
  "encodedLink target relation =
     ''<'' @ target @ ''>; rel='' @ [CHR 0x22] @ relation @ [CHR 0x22]"

lemma encodedLink_inject: "encodedLink t r = encodedLink t' r \<longleftrightarrow> t = t'"
  by (simp add: encodedLink_def)

lemmas helpers_eval [go_eval] = defaultLease_def defaultRequestBody_def defaultCallbackBody_def
  defaultDeliveryBody_def defaultVerificationTimeout_def defaultClientTimeout_def defaultWorkers_def
  defaultQueue_def maxSecretBytes_def maxSafeReasonBytes_def forbiddenHeaders_def refuseRedirect_def
  newHTTPClient_def io_error_def readBounded_def parseMediaType_def form_type_def
  validateFormContentType_def validateContentType_def validateHeaders_def copyHeaders_def
  responseSnapshot_def formAccepted_def in_range_def cont_def dropped_def safeReason_def
  encodedLink_def

end
