(* ===== verification/HubConfig.thy ===== *)
theory HubConfig
  imports Helpers
begin

text \<open>
  \<open>normalizeConfig\<close> and \<open>NewHandler\<close> of \<open>handler.go\<close>. The handler's fixed part is the record
  \<open>handler\<close>; its job channel, admission lock, wait groups and contexts are the state of
  \<open>Admission\<close> and \<open>Lifecycle\<close>. Lemmas: \<open>normalizeConfig\<close> accepts exactly the
  configurations of \<open>acceptable\<close>, fills every default, and what it returns is a fixed point
  and \<open>well_configured\<close>.
\<close>

definition normalizeConfig :: "config \<Rightarrow> error + config" where
  "normalizeConfig c0 =
     (case validateHTTPURL (HubURL c0) ''HubURL'' True True of
        Inl e \<Rightarrow> Inl e
      | Inr _ \<Rightarrow>
          if DefaultLease c0 < 0 \<or> MaxLease c0 < 0 \<or> VerificationTimeout c0 < 0
            \<or> MaxRequestBody c0 < 0 \<or> MaxCallbackBody c0 < 0 \<or> VerificationWorkers c0 < 0
            \<or> VerificationQueue c0 < 0
          then Inl (invalidRequest ''configuration values must not be negative'')
          else
            let c1 = (if DefaultLease c0 = 0 then c0\<lparr>DefaultLease := defaultLease\<rparr> else c0);
                c2 = (if MaxLease c1 = 0 then c1\<lparr>MaxLease := defaultLease\<rparr> else c1)
            in if DefaultLease c2 < second \<or> MaxLease c2 < second
                 \<or> DefaultLease c2 mod second \<noteq> 0 \<or> MaxLease c2 mod second \<noteq> 0
               then Inl (invalidRequest ''lease configuration must use positive whole seconds'')
               else if DefaultLease c2 > MaxLease c2
               then Inl (invalidRequest ''DefaultLease must not exceed MaxLease'')
               else
                 let c3 = (if MaxRequestBody c2 = 0 then c2\<lparr>MaxRequestBody := defaultRequestBody\<rparr> else c2);
                     c4 = (if MaxCallbackBody c3 = 0 then c3\<lparr>MaxCallbackBody := defaultCallbackBody\<rparr> else c3);
                     c5 = (if VerificationTimeout c4 = 0
                           then c4\<lparr>VerificationTimeout := defaultVerificationTimeout\<rparr> else c4);
                     c6 = (if VerificationWorkers c5 = 0 then c5\<lparr>VerificationWorkers := defaultWorkers\<rparr> else c5);
                     c7 = (if VerificationQueue c6 = 0 then c6\<lparr>VerificationQueue := defaultQueue\<rparr> else c6);
                     c8 = (if \<not> cfg_logger c7 then c7\<lparr>cfg_logger := True\<rparr> else c7)
                 in Inr c8)"

record 's handler =
  h_config :: config
  h_service :: "'s service"
  h_client :: http_client

definition NewHandler :: "config \<Rightarrow> 's service \<Rightarrow> error + 's handler" where
  "NewHandler c service =
     (case normalizeConfig c of
        Inl e \<Rightarrow> Inl e
      | Inr normalized \<Rightarrow>
          if OnSubscriptionVerified service = None
          then Inl (invalidRequest ''OnSubscriptionVerified is required'')
          else if OnUnsubscriptionVerified service = None
          then Inl (invalidRequest ''OnUnsubscriptionVerified is required'')
          else if EnablePublisherExtension normalized
            \<and> (OnRegisterTopic service = None \<or> OnDeregisterTopic service = None
               \<or> OnUpdateMessage service = None)
          then Inl (invalidRequest ''all publisher extension callbacks are required'')
          else Inr \<lparr>h_config = normalized, h_service = service,
                    h_client = newHTTPClient (HTTPClient normalized) (VerificationTimeout normalized)\<rparr>)"

section \<open>The contract\<close>

definition or_default :: "int \<Rightarrow> int \<Rightarrow> int" where
  "or_default d n = (if n = 0 then d else n)"

definition acceptable :: "config \<Rightarrow> bool" where
  "acceptable c \<longleftrightarrow>
     (\<exists>u. parse_url (HubURL c) = Some u \<and> http_url True True u)
     \<and> 0 \<le> DefaultLease c \<and> 0 \<le> MaxLease c \<and> 0 \<le> VerificationTimeout c
     \<and> 0 \<le> MaxRequestBody c \<and> 0 \<le> MaxCallbackBody c \<and> 0 \<le> VerificationWorkers c
     \<and> 0 \<le> VerificationQueue c
     \<and> second dvd DefaultLease c \<and> second dvd MaxLease c
     \<and> or_default defaultLease (DefaultLease c) \<le> or_default defaultLease (MaxLease c)"

definition with_defaults :: "config \<Rightarrow> config" where
  "with_defaults c =
     c\<lparr>DefaultLease := or_default defaultLease (DefaultLease c),
       MaxLease := or_default defaultLease (MaxLease c),
       MaxRequestBody := or_default defaultRequestBody (MaxRequestBody c),
       MaxCallbackBody := or_default defaultCallbackBody (MaxCallbackBody c),
       VerificationTimeout := or_default defaultVerificationTimeout (VerificationTimeout c),
       VerificationWorkers := or_default defaultWorkers (VerificationWorkers c),
       VerificationQueue := or_default defaultQueue (VerificationQueue c),
       cfg_logger := True\<rparr>"

definition well_configured :: "config \<Rightarrow> bool" where
  "well_configured c \<longleftrightarrow>
     acceptable c \<and> second \<le> DefaultLease c \<and> DefaultLease c \<le> MaxLease c
     \<and> 0 < MaxRequestBody c \<and> 0 < MaxCallbackBody c \<and> 0 < VerificationTimeout c
     \<and> 0 < VerificationWorkers c \<and> 0 < VerificationQueue c \<and> cfg_logger c"

lemma lease_default: "0 \<le> n \<Longrightarrow>
    \<not> (or_default defaultLease n < second) \<and> or_default defaultLease n mod second = 0 \<longleftrightarrow> second dvd n"
  by (auto simp: or_default_def defaultLease_def second_def dvd_eq_mod_eq_0)

lemma normalizeConfig_cases:
  assumes "validateHTTPURL (HubURL c) ''HubURL'' True True = Inr u"
    and "\<not> (DefaultLease c < 0 \<or> MaxLease c < 0 \<or> VerificationTimeout c < 0
            \<or> MaxRequestBody c < 0 \<or> MaxCallbackBody c < 0 \<or> VerificationWorkers c < 0
            \<or> VerificationQueue c < 0)"
  shows "normalizeConfig c =
    (if or_default defaultLease (DefaultLease c) < second \<or> or_default defaultLease (MaxLease c) < second
       \<or> or_default defaultLease (DefaultLease c) mod second \<noteq> 0
       \<or> or_default defaultLease (MaxLease c) mod second \<noteq> 0
     then Inl (invalidRequest ''lease configuration must use positive whole seconds'')
     else if or_default defaultLease (DefaultLease c) > or_default defaultLease (MaxLease c)
     then Inl (invalidRequest ''DefaultLease must not exceed MaxLease'')
     else Inr (with_defaults c))"
proof -
  define d where "d = (if DefaultLease c = 0 then c\<lparr>DefaultLease := defaultLease\<rparr> else c)"
  define m where "m = (if MaxLease d = 0 then d\<lparr>MaxLease := defaultLease\<rparr> else d)"
  have m: "m = c\<lparr>DefaultLease := or_default defaultLease (DefaultLease c),
      MaxLease := or_default defaultLease (MaxLease c)\<rparr>"
    by (simp add: m_def d_def or_default_def)
  show ?thesis
    using assms unfolding normalizeConfig_def
    by (simp only: sum.case if_False Let_def d_def [symmetric] m_def [symmetric])
      (simp add: m with_defaults_def or_default_def)
qed

lemma normalizeConfig_ok_iff:
  "normalizeConfig c = Inr c' \<longleftrightarrow> acceptable c \<and> c' = with_defaults c"
proof (cases "validateHTTPURL (HubURL c) ''HubURL'' True True")
  case (Inl e)
  then have "\<nexists>u. parse_url (HubURL c) = Some u \<and> http_url True True u"
    by (metis Inl_Inr_False validateHTTPURL_iff)
  with Inl show ?thesis by (auto simp: normalizeConfig_def acceptable_def)
next
  case (Inr u)
  then have u: "parse_url (HubURL c) = Some u" "http_url True True u"
    by (simp_all add: validateHTTPURL_iff)
  show ?thesis
  proof (cases "DefaultLease c < 0 \<or> MaxLease c < 0 \<or> VerificationTimeout c < 0
      \<or> MaxRequestBody c < 0 \<or> MaxCallbackBody c < 0 \<or> VerificationWorkers c < 0
      \<or> VerificationQueue c < 0")
    case True
    with Inr show ?thesis by (auto simp: normalizeConfig_def acceptable_def)
  next
    case False
    with Inr u lease_default [of "DefaultLease c"] lease_default [of "MaxLease c"] show ?thesis
      by (subst normalizeConfig_cases) (auto simp: acceptable_def)
  qed
qed

lemma with_defaults_idem [simp]: "with_defaults (with_defaults c) = with_defaults c"
  by (simp add: with_defaults_def or_default_def defaultLease_def defaultRequestBody_def
      defaultCallbackBody_def defaultVerificationTimeout_def defaultWorkers_def defaultQueue_def second_def)

lemma well_configured_defaults: "acceptable c \<Longrightarrow> well_configured (with_defaults c)"
  by (auto simp: acceptable_def well_configured_def with_defaults_def or_default_def defaultLease_def
      defaultRequestBody_def defaultCallbackBody_def defaultVerificationTimeout_def defaultWorkers_def
      defaultQueue_def second_def zdvd_imp_le)

text \<open>What holds of every handler that \<open>NewHandler\<close> made.\<close>

definition handler_ok :: "'s handler \<Rightarrow> bool" where
  "handler_ok h \<longleftrightarrow>
     well_configured (h_config h) \<and> OnSubscriptionVerified (h_service h) \<noteq> None
     \<and> OnUnsubscriptionVerified (h_service h) \<noteq> None
     \<and> (EnablePublisherExtension (h_config h) \<longrightarrow>
          OnRegisterTopic (h_service h) \<noteq> None \<and> OnDeregisterTopic (h_service h) \<noteq> None
          \<and> OnUpdateMessage (h_service h) \<noteq> None)
     \<and> cl_check_redirect (h_client h) = UseLastResponse"

lemma with_defaults_kept [simp]:
  "HTTPClient (with_defaults c) = HTTPClient c"
  "EnablePublisherExtension (with_defaults c) = EnablePublisherExtension c"
  by (simp_all add: with_defaults_def)

lemma NewHandler_iff:
  "NewHandler c service = Inr h \<longleftrightarrow>
     acceptable c
     \<and> OnSubscriptionVerified service \<noteq> None \<and> OnUnsubscriptionVerified service \<noteq> None
     \<and> (EnablePublisherExtension c \<longrightarrow>
         OnRegisterTopic service \<noteq> None \<and> OnDeregisterTopic service \<noteq> None \<and> OnUpdateMessage service \<noteq> None)
     \<and> h = \<lparr>h_config = with_defaults c, h_service = service,
              h_client = newHTTPClient (HTTPClient c) (VerificationTimeout (with_defaults c))\<rparr>"
proof (cases "acceptable c")
  case True
  then have "normalizeConfig c = Inr (with_defaults c)" by (simp add: normalizeConfig_ok_iff)
  then show ?thesis using True by (auto simp: NewHandler_def)
next
  case False
  then have "normalizeConfig c \<noteq> Inr c'" for c' by (simp add: normalizeConfig_ok_iff)
  then obtain e where "normalizeConfig c = Inl e" by (cases "normalizeConfig c") auto
  then show ?thesis using False by (simp add: NewHandler_def)
qed

lemma NewHandler_ok: "NewHandler c service = Inr h \<Longrightarrow> handler_ok h"
  by (auto simp: NewHandler_def handler_ok_def normalizeConfig_ok_iff well_configured_defaults
      split: sum.splits if_splits)

lemmas hubconfig_eval [go_eval] = normalizeConfig_def NewHandler_def

end
