(* ===== verification/Requests.thy ===== *)
theory Requests
  imports HubConfig
begin

text \<open>
  The form parsing of \<open>handler.go\<close>: \<open>requiredSingle\<close>, \<open>parseSecret\<close>, \<open>unknownParameters\<close>,
  \<open>parseSubscription\<close>, \<open>parseUnsubscription\<close>, \<open>metadataFromRequest\<close> and
  \<open>readRequestBody\<close>. Lemmas: exactly which forms are accepted and what the message holds.
\<close>

definition requiredSingle :: "url_values \<Rightarrow> string \<Rightarrow> error + string" where
  "requiredSingle form key =
     (case map_get form key of
        Some [item] \<Rightarrow>
          if item = [] then Inl (invalidRequest (key @ '' must occur exactly once and be non-empty''))
          else Inr item
      | _ \<Rightarrow> Inl (invalidRequest (key @ '' must occur exactly once and be non-empty'')))"

lemma requiredSingle_iff: "requiredSingle form key = Inr v \<longleftrightarrow> map_get form key = Some [v] \<and> v \<noteq> []"
  by (auto simp: requiredSingle_def split: option.split list.split)

lemma requiredSingle_error:
  "requiredSingle form key = Inl e \<Longrightarrow>
     e = invalidRequest (key @ '' must occur exactly once and be non-empty'')"
  by (auto simp: requiredSingle_def split: option.splits list.splits if_splits)

definition parseSecret :: "url_values \<Rightarrow> error + string" where
  "parseSecret form =
     (case map_get form ''hub.secret'' of
        None \<Rightarrow> Inr []
      | Some raw \<Rightarrow>
          if length raw \<noteq> 1 then Inl (invalidRequest ''hub.secret must not be duplicated'')
          else
            let secret = hd raw
            in if secret = [] then Inl (invalidRequest ''hub.secret must not be empty'')
               else if length secret > maxSecretBytes
               then Inl (invalidRequest ''hub.secret must be shorter than 200 bytes'')
               else Inr secret)"

lemma parseSecret_iff:
  "parseSecret form = Inr s \<longleftrightarrow>
     (map_get form ''hub.secret'' = None \<and> s = [])
     \<or> (map_get form ''hub.secret'' = Some [s] \<and> s \<noteq> [] \<and> length s < 200)"
  by (auto simp: parseSecret_def Let_def maxSecretBytes_def length_Suc_conv split: option.split)

definition unknownParameters :: "url_values \<Rightarrow> string list \<Rightarrow> url_values" where
  "unknownParameters form reserved =
     fold map_del reserved (case cloneValues (Some form) of None \<Rightarrow> [] | Some m \<Rightarrow> m)"

lemma unknownParameters_get:
  "map_ok form \<Longrightarrow> map_get (unknownParameters form ks) k = (if k \<in> set ks then None else map_get form k)"
  by (simp add: unknownParameters_def gmap.get_del_all)

lemma unknownParameters_ok: "map_ok form \<Longrightarrow> map_ok (unknownParameters form ks)"
  by (simp add: unknownParameters_def gmap.ok_del_all)

lemma unknownParameters_filter:
  assumes "map_ok form"
  shows "unknownParameters form ks = filter (\<lambda>(k, vs). k \<notin> set ks) form"
proof -
  have "fold map_del ks m = filter (\<lambda>(k, vs). k \<notin> set ks) m" for m :: url_values
    by (induction ks arbitrary: m) (auto simp: map_del_def AList.delete_eq intro!: filter_cong)
  then show ?thesis using assms by (simp add: unknownParameters_def)
qed

text \<open>The largest number of seconds that is a \<open>time.Duration\<close>: \<open>math.MaxInt64/int64(time.Second)\<close>.\<close>

definition max_lease_seconds :: int where
  "max_lease_seconds = (2 ^ 63 - 1) div second"

definition parse_lease :: "url_values \<Rightarrow> error + string" where
  "parse_lease form =
     (case map_get form ''hub.lease_seconds'' of
        None \<Rightarrow> Inr []
      | Some raw \<Rightarrow>
          if length raw \<noteq> 1 \<or> hd raw = []
          then Inl (invalidRequest ''hub.lease_seconds must occur once'')
          else case parse_int (hd raw) of (seconds, parseErr) \<Rightarrow>
            if parseErr \<noteq> None \<or> seconds \<le> 0 \<or> seconds > max_lease_seconds
            then Inl (invalidRequest ''hub.lease_seconds must be a positive integer'')
            else Inr (hd raw))"

text \<open>The lease string of an accepted form: absent, or a number of seconds whose duration
  does not overflow.\<close>

definition lease_ok :: "string \<Rightarrow> bool" where
  "lease_ok l \<longleftrightarrow> l = [] \<or> (\<exists>n. parse_int l = (n, None) \<and> 0 < n \<and> n \<le> 9223372036)"

lemma parse_lease_iff:
  "parse_lease form = Inr l \<longleftrightarrow>
     (map_get form ''hub.lease_seconds'' = None \<and> l = [])
     \<or> (map_get form ''hub.lease_seconds'' = Some [l] \<and> l \<noteq> [] \<and> lease_ok l)"
  by (auto simp: parse_lease_def lease_ok_def max_lease_seconds_def second_def length_Suc_conv
      split: option.split prod.split)

definition hub_keys :: "string list" where
  "hub_keys = [''hub.mode'', ''hub.topic'', ''hub.callback'', ''hub.lease_seconds'', ''hub.secret'']"

definition parseSubscription :: "'s handler \<Rightarrow> url_values \<Rightarrow> error + subscription" where
  "parseSubscription h form =
     (case requiredSingle form ''hub.topic'' of
        Inl e \<Rightarrow> Inl e
      | Inr topic0 \<Rightarrow>
     (case requiredSingle form ''hub.callback'' of
        Inl e \<Rightarrow> Inl e
      | Inr callback0 \<Rightarrow>
     (case normalizeHTTPURL topic0 ''hub.topic'' False False of
        Inl e \<Rightarrow> Inl e
      | Inr topic \<Rightarrow>
     (case normalizeHTTPURL callback0 ''hub.callback'' True True of
        Inl e \<Rightarrow> Inl e
      | Inr callback \<Rightarrow>
     (case parse_lease form of
        Inl e \<Rightarrow> Inl e
      | Inr leaseSeconds \<Rightarrow>
     (case parseSecret form of
        Inl e \<Rightarrow> Inl e
      | Inr secret \<Rightarrow>
          Inr \<lparr>sub_hub = HubURL (h_config h), sub_mode = ModeSubscribe, sub_callback = callback,
               sub_topic = topic, sub_lease_seconds = leaseSeconds, sub_secret = secret,
               sub_parameters = Some (unknownParameters form hub_keys)\<rparr>))))))"

definition parseUnsubscription :: "'s handler \<Rightarrow> url_values \<Rightarrow> error + unsubscription" where
  "parseUnsubscription h form =
     (case requiredSingle form ''hub.topic'' of
        Inl e \<Rightarrow> Inl e
      | Inr topic0 \<Rightarrow>
     (case requiredSingle form ''hub.callback'' of
        Inl e \<Rightarrow> Inl e
      | Inr callback0 \<Rightarrow>
     (case normalizeHTTPURL topic0 ''hub.topic'' False False of
        Inl e \<Rightarrow> Inl e
      | Inr topic \<Rightarrow>
     (case normalizeHTTPURL callback0 ''hub.callback'' True True of
        Inl e \<Rightarrow> Inl e
      | Inr callback \<Rightarrow>
     (case parseSecret form of
        Inl e \<Rightarrow> Inl e
      | Inr secret \<Rightarrow>
          Inr \<lparr>unsub_mode = ModeUnsubscribe, unsub_callback = callback, unsub_topic = topic,
               unsub_secret = secret,
               unsub_parameters = Some (unknownParameters form hub_keys)\<rparr>)))))"

text \<open>A single URL field of a form, normalised.\<close>

definition url_field :: "url_values \<Rightarrow> string \<Rightarrow> bool \<Rightarrow> string \<Rightarrow> bool" where
  "url_field form key strict v \<longleftrightarrow>
     (\<exists>raw u. map_get form key = Some [raw] \<and> raw \<noteq> [] \<and> parse_url raw = Some u
        \<and> http_url strict strict u \<and> v = decode_unreserved raw)"

lemma parseSubscription_iff:
  "parseSubscription h form = Inr m \<longleftrightarrow>
     url_field form ''hub.topic'' False (sub_topic m)
     \<and> url_field form ''hub.callback'' True (sub_callback m)
     \<and> parse_lease form = Inr (sub_lease_seconds m)
     \<and> parseSecret form = Inr (sub_secret m)
     \<and> sub_hub m = HubURL (h_config h) \<and> sub_mode m = ModeSubscribe
     \<and> sub_parameters m = Some (unknownParameters form hub_keys)"
  (is "_ \<longleftrightarrow> ?rhs")
proof
  assume "parseSubscription h form = Inr m"
  then show ?rhs
    by (auto simp: parseSubscription_def url_field_def requiredSingle_iff normalizeHTTPURL_iff
        split: sum.splits)
next
  assume ?rhs
  then obtain t c where t: "requiredSingle form ''hub.topic'' = Inr t"
      "normalizeHTTPURL t ''hub.topic'' False False = Inr (sub_topic m)"
    and c: "requiredSingle form ''hub.callback'' = Inr c"
      "normalizeHTTPURL c ''hub.callback'' True True = Inr (sub_callback m)"
    by (auto simp: url_field_def requiredSingle_iff normalizeHTTPURL_iff)
  with \<open>?rhs\<close> show "parseSubscription h form = Inr m"
    by (simp add: parseSubscription_def)
qed

lemma url_field_exact:
  "url_field form key False v \<longleftrightarrow>
     (\<exists>raw u. map_get form key = Some [raw] \<and> parse_url raw = Some u
        \<and> u_scheme u \<in> {''http'', ''https''} \<and> u_host u \<noteq> [] \<and> v = decode_unreserved raw)"
  "url_field form key True v \<longleftrightarrow>
     (\<exists>raw u. map_get form key = Some [raw] \<and> parse_url raw = Some u
        \<and> u_scheme u \<in> {''http'', ''https''} \<and> u_host u \<noteq> [] \<and> u_user u = None \<and> u_fragment u = []
        \<and> v = decode_unreserved raw)"
proof -
  have "case parse_url [] of None \<Rightarrow> True | Some u \<Rightarrow> u_host u = []" by code_simp
  then have empty: "raw \<noteq> []" if "parse_url raw = Some u" "u_host u \<noteq> []" for raw u using that by auto
  show "url_field form key False v \<longleftrightarrow>
     (\<exists>raw u. map_get form key = Some [raw] \<and> parse_url raw = Some u
        \<and> u_scheme u \<in> {''http'', ''https''} \<and> u_host u \<noteq> [] \<and> v = decode_unreserved raw)"
    and "url_field form key True v \<longleftrightarrow>
     (\<exists>raw u. map_get form key = Some [raw] \<and> parse_url raw = Some u
        \<and> u_scheme u \<in> {''http'', ''https''} \<and> u_host u \<noteq> [] \<and> u_user u = None \<and> u_fragment u = []
        \<and> v = decode_unreserved raw)"
    unfolding url_field_def http_url_def simp_thms using empty by metis+
qed

lemma parse_lease_exact:
  "parse_lease form = Inr l \<longleftrightarrow>
     (map_get form ''hub.lease_seconds'' = None \<and> l = []
      \<or> map_get form ''hub.lease_seconds'' = Some [l] \<and> (\<exists>n. parse_int l = (n, None) \<and> 0 < n \<and> n \<le> 9223372036))"
proof -
  have "parse_int [] = (0, Some ErrSyntax)" by code_simp
  then show ?thesis by (auto simp: parse_lease_iff lease_ok_def)
qed

text \<open>The form that is a subscription request, with every limit of the protocol spelled out.\<close>

lemma parseSubscription_exact:
  assumes "map_ok form"
  shows "parseSubscription h form = Inr m \<longleftrightarrow>
     (\<exists>raw u. map_get form ''hub.topic'' = Some [raw] \<and> parse_url raw = Some u
        \<and> u_scheme u \<in> {''http'', ''https''} \<and> u_host u \<noteq> [] \<and> sub_topic m = decode_unreserved raw)
     \<and> (\<exists>raw u. map_get form ''hub.callback'' = Some [raw] \<and> parse_url raw = Some u
          \<and> u_scheme u \<in> {''http'', ''https''} \<and> u_host u \<noteq> [] \<and> u_user u = None \<and> u_fragment u = []
          \<and> sub_callback m = decode_unreserved raw)
     \<and> (map_get form ''hub.lease_seconds'' = None \<and> sub_lease_seconds m = []
        \<or> map_get form ''hub.lease_seconds'' = Some [sub_lease_seconds m]
          \<and> (\<exists>n. parse_int (sub_lease_seconds m) = (n, None) \<and> 0 < n \<and> n \<le> 9223372036))
     \<and> (map_get form ''hub.secret'' = None \<and> sub_secret m = []
        \<or> map_get form ''hub.secret'' = Some [sub_secret m] \<and> 0 < length (sub_secret m) \<and> length (sub_secret m) < 200)
     \<and> sub_hub m = HubURL (h_config h) \<and> sub_mode m = ModeSubscribe
     \<and> sub_parameters m = Some (filter (\<lambda>(key, values). key \<notin>
          {''hub.mode'', ''hub.topic'', ''hub.callback'', ''hub.lease_seconds'', ''hub.secret''}) form)"
  unfolding parseSubscription_iff url_field_exact parse_lease_exact parseSecret_iff
    unknownParameters_filter [OF assms] hub_keys_def list.set length_greater_0_conv ..

lemma parseUnsubscription_iff:
  "parseUnsubscription h form = Inr m \<longleftrightarrow>
     url_field form ''hub.topic'' False (unsub_topic m)
     \<and> url_field form ''hub.callback'' True (unsub_callback m)
     \<and> parseSecret form = Inr (unsub_secret m)
     \<and> unsub_mode m = ModeUnsubscribe
     \<and> unsub_parameters m = Some (unknownParameters form hub_keys)"
  (is "_ \<longleftrightarrow> ?rhs")
proof
  assume "parseUnsubscription h form = Inr m"
  then show ?rhs
    by (auto simp: parseUnsubscription_def url_field_def requiredSingle_iff normalizeHTTPURL_iff
        split: sum.splits)
next
  assume ?rhs
  then obtain t c where t: "requiredSingle form ''hub.topic'' = Inr t"
      "normalizeHTTPURL t ''hub.topic'' False False = Inr (unsub_topic m)"
    and c: "requiredSingle form ''hub.callback'' = Inr c"
      "normalizeHTTPURL c ''hub.callback'' True True = Inr (unsub_callback m)"
    by (auto simp: url_field_def requiredSingle_iff normalizeHTTPURL_iff)
  with \<open>?rhs\<close> show "parseUnsubscription h form = Inr m"
    by (simp add: parseUnsubscription_def)
qed

lemma parseSubscription_lease_ok: "parseSubscription h form = Inr m \<Longrightarrow> lease_ok (sub_lease_seconds m)"
  unfolding parseSubscription_iff parse_lease_iff by (auto simp: lease_ok_def)

lemma parseSubscription_detached:
  "map_ok form \<Longrightarrow> parseSubscription h form = Inr m \<Longrightarrow> cloneSubscription m = m"
  by (simp add: parseSubscription_iff cloneSubscription_def unknownParameters_ok)

lemma parseUnsubscription_detached:
  "map_ok form \<Longrightarrow> parseUnsubscription h form = Inr m \<Longrightarrow> cloneUnsubscription m = m"
  by (simp add: parseUnsubscription_iff cloneUnsubscription_def unknownParameters_ok)

section \<open>Metadata and body\<close>

definition metadataFromRequest :: "request \<Rightarrow> request_metadata" where
  "metadataFromRequest request =
     \<lparr>md_header = cloneHeader (Some (rq_header request)), md_remote_addr = rq_remote_addr request\<rparr>"

definition readRequestBody :: "'s handler \<Rightarrow> request \<Rightarrow> error + bytes" where
  "readRequestBody h request =
     (case read_all (max_bytes_reader (rq_body request) (MaxRequestBody (h_config h))) of
        None \<Rightarrow> Inl io_error
      | Some body \<Rightarrow> Inr body)"

lemma readRequestBody_iff:
  "readRequestBody h r = Inr b \<longleftrightarrow>
     b = rd_data (rq_body r) \<and> \<not> rd_err (rq_body r)
     \<and> int (length b) \<le> MaxRequestBody (h_config h)"
  by (auto simp: readRequestBody_def read_all_def max_bytes_reader_def)

lemmas requests_eval [go_eval] = requiredSingle_def parseSecret_def unknownParameters_def
  max_lease_seconds_def parse_lease_def hub_keys_def parseSubscription_def parseUnsubscription_def
  metadataFromRequest_def readRequestBody_def

end
