(* ===== verification/Responses.thy ===== *)
theory Responses
  imports Requests
begin

text \<open>
  The response side of \<open>handler.go\<close>: \<open>writeSafeError\<close>, \<open>writeResult\<close>, \<open>validateResult\<close>,
  \<open>validateAdmissionResult\<close>, \<open>handleInitialError\<close> and \<open>writeExtensionDenied\<close>. A function
  that dereferences a pointer which an application error can make nil returns an \<open>outcome\<close>,
  with \<open>Panicked\<close> for the nil dereference. Lemmas: each commits the response exactly once,
  with which status, header and body.
\<close>

definition writeSafeError :: "response_writer \<Rightarrow> int \<Rightarrow> response_writer" where
  "writeSafeError response status = http_error (status_text status) status response"

definition writeResult ::
    "response_writer \<Rightarrow> result \<Rightarrow> int \<Rightarrow> bytes option \<Rightarrow> response_writer" where
  "writeResult response res defaultStatus defaultBody =
     (let status = (if res_status res = 0 then defaultStatus else res_status res);
          body0 = res_body res;
          body = (if body0 = None then defaultBody else body0);
          bs = (case body of None \<Rightarrow> [] | Some b \<Rightarrow> b);
          w1 = response\<lparr>rw_header := copyHeaders (rw_header response) (res_header res)\<rparr>;
          contentType = (if res_content_type res = [] \<and> length bs > 0 then form_type
                         else res_content_type res);
          w2 = (if contentType \<noteq> [] then rw_set ''Content-Type'' contentType w1 else w1);
          w3 = write_header status w2
      in if length bs > 0 then write_body bs w3 else w3)"

definition validateResult :: "result \<Rightarrow> error option" where
  "validateResult res =
     (if res_status res \<noteq> 0 \<and> (res_status res < 200 \<or> res_status res > 599)
      then Some (invalidRequest ''invalid result status'')
      else
        let reserved0 = [''Content-Length'', ''Transfer-Encoding''];
            reserved = (if res_content_type res \<noteq> [] then ''Content-Type'' # reserved0 else reserved0)
        in case validateHeaders (res_header res) reserved of
             Some e \<Rightarrow> Some e
           | None \<Rightarrow>
               if res_content_type res \<noteq> [] then validateContentType (res_content_type res) else None)"

definition validateAdmissionResult :: "result \<Rightarrow> error + bool" where
  "validateAdmissionResult res =
     (case validateResult res of
        Some e \<Rightarrow> Inl e
      | None \<Rightarrow>
          if res_status res = 0 \<or> res_status res = 202 then Inr True
          else if res_status res \<ge> 400 \<and> res_status res \<le> 599 then Inr False
          else Inl (invalidRequest ''subscription success status must be 202''))"

text \<open>Whether the response was written, and the response.\<close>

definition handleInitialError ::
    "response_writer \<Rightarrow> error option \<Rightarrow> bool \<Rightarrow> (bool \<times> response_writer) outcome" where
  "handleInitialError response err redirectAllowed =
     (case err of
        None \<Rightarrow> Returned (False, response)
      | Some e \<Rightarrow>
          (case errors_as_redirect e of
             Some redirect \<Rightarrow>
               if \<not> redirectAllowed then Returned (True, writeSafeError response 500)
               else (case redirect of
                  None \<Rightarrow> Panicked
                | Some (status, loc) \<Rightarrow>
                    if status \<noteq> 307 \<and> status \<noteq> 308 then Returned (True, writeSafeError response 500)
                    else (case validateHTTPURL loc ''redirect location'' True True of
                            Inl _ \<Rightarrow> Returned (True, writeSafeError response 500)
                          | Inr _ \<Rightarrow> Returned (True, write_header status (rw_set ''Location'' loc response))))
           | None \<Rightarrow>
               if errors_is e (Sentinel ErrDenied) then Returned (True, writeSafeError response 400)
               else Returned (True, writeSafeError response 500)))"

definition denied_form :: "string \<Rightarrow> url_values" where
  "denied_form why = [(''hub.mode'', [''denied'']), (''hub.reason'', [why])]"

definition writeExtensionDenied :: "response_writer \<Rightarrow> error \<Rightarrow> response_writer outcome" where
  "writeExtensionDenied response err =
     (case errors_as_denied err of
        Some None \<Rightarrow> Panicked
      | denied \<Rightarrow>
          let why = (case denied of
                       Some (Some r) \<Rightarrow> if r \<noteq> [] then safeReason r else ''operation denied''
                     | _ \<Rightarrow> ''operation denied'');
              res = \<lparr>res_status = 400, res_header = None, res_content_type = form_type,
                     res_body = Some (encode_values (denied_form why))\<rparr>
          in Returned (writeResult response res 400 None))"

section \<open>What is sent\<close>

lemma committed_writeSafeError [simp]:
  "fresh_writer w \<Longrightarrow> committed_once (writeSafeError w status) status"
  by (simp add: writeSafeError_def committed_http_error)

lemma fresh_header_update [simp]: "fresh_writer (w\<lparr>rw_header := h\<rparr>) = fresh_writer w"
  by (simp add: fresh_writer_def)

lemma committed_writeResult:
  "fresh_writer w \<Longrightarrow>
     committed_once (writeResult w res st b) (if res_status res = 0 then st else res_status res)"
  by (simp add: writeResult_def Let_def committed_write_header committed_write_body)

text \<open>The body a result is answered with.\<close>

definition result_body :: "result \<Rightarrow> bytes option \<Rightarrow> bytes" where
  "result_body res defaultBody =
     (case res_body res of
        Some b \<Rightarrow> b
      | None \<Rightarrow> (case defaultBody of None \<Rightarrow> [] | Some b \<Rightarrow> b))"

lemma writeResult_body:
  assumes "fresh_writer w" and "body_allowed (if res_status res = 0 then st else res_status res)"
  shows "rw_body (writeResult w res st b) = result_body res b"
  using assms
  by (auto simp: writeResult_def Let_def result_body_def fresh_writer_def write_header_def
      write_body_def rw_set_def split: option.splits)

definition rw_sent_header :: "response_writer \<Rightarrow> header" where
  "rw_sent_header w = (case rw_sent w of None \<Rightarrow> [] | Some (_, h) \<Rightarrow> h)"

lemma rw_sent_header_write_body:
  "rw_sent w \<noteq> None \<Longrightarrow> rw_sent_header (write_body b w) = rw_sent_header w"
  by (auto simp: rw_sent_header_def write_body_def Let_def split: prod.split)

lemma writeResult_header:
  assumes "fresh_writer w"
  shows "header_values (rw_sent_header (writeResult w res st b)) k =
    (let ct = (if res_content_type res = [] \<and> result_body res b \<noteq> [] then form_type else res_content_type res)
     in if canonical_key k = canonical_key ''Content-Type'' \<and> ct \<noteq> [] then [ct]
        else header_values (copyHeaders (rw_header w) (res_header res)) k)"
proof -
  define h where "h = copyHeaders (rw_header w) (res_header res)"
  define ct where "ct = (if res_content_type res = [] \<and> result_body res b \<noteq> [] then form_type else res_content_type res)"
  have "rw_sent_header (writeResult w res st b) = (if ct \<noteq> [] then header_set ''Content-Type'' ct h else h)"
    using assms
    by (auto simp: writeResult_def Let_def result_body_def fresh_writer_def write_header_def
        write_body_def rw_set_def rw_sent_header_def h_def ct_def split: option.splits)
  then show ?thesis
    by (simp add: Let_def header_values_set h_def ct_def)
qed

lemma validateResult_status:
  "validateResult res = None \<Longrightarrow> res_status res = 0 \<or> (200 \<le> res_status res \<and> res_status res \<le> 599)"
  by (auto simp: validateResult_def split: if_splits)

lemma validateAdmissionResult_iff:
  "validateAdmissionResult res = Inr ok \<longleftrightarrow>
     validateResult res = None
     \<and> (if ok then res_status res \<in> {0, 202} else 400 \<le> res_status res \<and> res_status res \<le> 599)"
  by (auto simp: validateAdmissionResult_def split: option.splits)

lemma validateResult_header_safe:
  "validateResult res = None \<Longrightarrow> validateHeaders (res_header res) [''Content-Length'', ''Transfer-Encoding''] = None"
  by (auto simp: validateResult_def Let_def validateHeaders_iff safe_entry_def split: if_splits option.splits)

lemma validate_cloneResult [simp]:
  "map_ok (headers_of (res_header res)) \<Longrightarrow> cloneResult res = res\<lparr>res_body := cloneBytes (res_body res)\<rparr>"
  by (cases "res_header res") (simp_all add: cloneResult_def headers_of_def)

text \<open>An error returned by an admission callback always answers the request, unless it
  carries a nil redirect pointer.\<close>

definition error_status :: "error \<Rightarrow> int" where
  "error_status e =
     (case errors_as_redirect e of
        Some (Some (status, loc)) \<Rightarrow>
          if status \<in> {307, 308} \<and> (\<exists>u. parse_url loc = Some u \<and> http_url True True u) then status else 500
      | _ \<Rightarrow> if errors_is e (Sentinel ErrDenied) then 400 else 500)"

lemma handleInitialError_None [simp]: "handleInitialError w None ok = Returned (False, w)"
  by (simp add: handleInitialError_def)

lemma handleInitialError_redirect:
  assumes "fresh_writer w" and "errors_as_redirect e = Some (Some (status, loc))"
  shows "\<exists>w'. handleInitialError w (Some e) True = Returned (True, w') \<and> committed_once w' (error_status e)"
proof (cases "validateHTTPURL loc ''redirect location'' True True")
  case (Inl x)
  from validateHTTPURL_Inl [OF this] have st: "error_status e = 500"
    by (auto simp: error_status_def assms(2))
  from Inl have "handleInitialError w (Some e) True = Returned (True, writeSafeError w 500)"
    by (simp add: handleInitialError_def assms(2))
  with assms(1) st show ?thesis by simp
next
  case (Inr u)
  from validateHTTPURL_Inr [OF this] have st: "error_status e = (if status \<in> {307, 308} then status else 500)"
    by (simp add: error_status_def assms(2))
  from Inr have "handleInitialError w (Some e) True = Returned (True,
      if status \<in> {307, 308} then write_header status (rw_set ''Location'' loc w) else writeSafeError w 500)"
    by (simp add: handleInitialError_def assms(2))
  with assms(1) st show ?thesis by (simp add: committed_write_header)
qed

lemma handleInitialError_other:
  assumes "fresh_writer w" and "errors_as_redirect e = None"
  shows "\<exists>w'. handleInitialError w (Some e) True = Returned (True, w') \<and> committed_once w' (error_status e)"
  using assms by (simp add: handleInitialError_def error_status_def)

lemma handleInitialError_nil:
  "errors_as_redirect e = Some None \<Longrightarrow> handleInitialError w (Some e) True = Panicked"
  by (simp add: handleInitialError_def)

lemma handleInitialError_Some:
  "fresh_writer w \<Longrightarrow> errors_as_redirect e \<noteq> Some None \<Longrightarrow>
     \<exists>w'. handleInitialError w (Some e) True = Returned (True, w') \<and> committed_once w' (error_status e)"
  using handleInitialError_redirect handleInitialError_other
  by (cases "errors_as_redirect e") auto

lemma writeExtensionDenied_status:
  assumes "fresh_writer w" and "errors_as_denied e \<noteq> Some None"
  shows "\<exists>w'. writeExtensionDenied w e = Returned w' \<and> committed_once w' 400"
proof -
  have "committed_once (writeResult w res 400 None) 400" if "res_status res = 400" for res
    using committed_writeResult [OF assms(1), of res 400 None] that by simp
  with assms(2) show ?thesis
    by (cases "errors_as_denied e") (auto simp: writeExtensionDenied_def Let_def)
qed

lemmas responses_eval [go_eval] = writeSafeError_def writeResult_def validateResult_def
  validateAdmissionResult_def handleInitialError_def denied_form_def writeExtensionDenied_def

end
