(* ===== verification/Dispatch.thy ===== *)
theory Dispatch
  imports Responses
begin

text \<open>
  The request side of \<open>handler.go\<close>: \<open>ServeHTTP\<close>, \<open>serveSubscription\<close>,
  \<open>serveUnsubscription\<close>, \<open>serveRegistration\<close>, \<open>serveEvent\<close>, \<open>servePublisherContent\<close>,
  \<open>serveUpdate\<close>, and \<open>admit\<close> and \<open>isClosed\<close> on the admission state (closed flag, job
  channel, job wait group).

  A request is served by one goroutine among others. What the others do to the admission
  state between its two critical sections (\<open>isClosed\<close> and \<open>admit\<close>) is the argument
  \<open>interfere\<close>, over which every lemma is universal. Serving gives the application state, the
  admission state, the response (or \<open>Panicked\<close>, where \<open>net/http\<close> drops the connection) and
  the trace of what other goroutines or the client can see, in order: the job put in the
  channel, the response committed, the job's start gate opened.
\<close>

section \<open>Admission\<close>

record verification_job =
  job_mode :: mode
  job_sub :: subscription
  job_unsub :: unsubscription
  job_metadata :: request_metadata
  job_verified :: bool

definition zero_subscription :: subscription where
  "zero_subscription = \<lparr>sub_hub = [], sub_mode = [], sub_callback = [], sub_topic = [],
     sub_lease_seconds = [], sub_secret = [], sub_parameters = None\<rparr>"

definition zero_unsubscription :: unsubscription where
  "zero_unsubscription = \<lparr>unsub_mode = [], unsub_callback = [], unsub_topic = [],
     unsub_secret = [], unsub_parameters = None\<rparr>"

text \<open>What the admission lock protects. The jobs in the channel are a parameter \<open>'j\<close>:
  here \<open>verification_job\<close>, in \<open>Lifecycle\<close> a job with the identity of its start gate.\<close>

record 'j admission_state =
  ad_closed :: bool
  ad_jobs :: "'j list"
  ad_capacity :: nat
  ad_wg :: int

type_synonym admission = "verification_job admission_state"

definition new_admission :: "'s handler \<Rightarrow> 'j admission_state" where
  "new_admission h =
     \<lparr>ad_closed = False, ad_jobs = [], ad_capacity = nat (VerificationQueue (h_config h)), ad_wg = 0\<rparr>"

definition isClosed :: "'j admission_state \<Rightarrow> bool" where
  "isClosed ad = ad_closed ad"

definition admit :: "'j \<Rightarrow> 'j admission_state \<Rightarrow> bool \<times> 'j admission_state" where
  "admit job ad =
     (if ad_closed ad then (False, ad)
      else
        let ad1 = ad\<lparr>ad_wg := ad_wg ad + 1\<rparr>
        in if length (ad_jobs ad1) < ad_capacity ad1
           then (True, ad1\<lparr>ad_jobs := ad_jobs ad1 @ [job]\<rparr>)
           else (False, ad1\<lparr>ad_wg := ad_wg ad1 - 1\<rparr>))"

lemma admit_iff: "fst (admit job ad) \<longleftrightarrow> \<not> ad_closed ad \<and> length (ad_jobs ad) < ad_capacity ad"
  by (simp add: admit_def Let_def)

lemma admit_refused: "\<not> fst (admit job ad) \<Longrightarrow> snd (admit job ad) = ad"
  by (auto simp: admit_def Let_def split: if_splits)

lemma admit_accepted:
  "fst (admit job ad) \<Longrightarrow>
     snd (admit job ad) = ad\<lparr>ad_jobs := ad_jobs ad @ [job], ad_wg := ad_wg ad + 1\<rparr>"
  by (auto simp: admit_def Let_def split: if_splits)

section \<open>Serving\<close>

datatype event = Admitted verification_job | Committed response_writer | GateOpened

record 's served =
  sv_state :: 's
  sv_admission :: admission
  sv_response :: "response_writer outcome"
  sv_trace :: "event list"

definition respond :: "'s \<Rightarrow> admission \<Rightarrow> response_writer \<Rightarrow> 's served" where
  "respond s ad w =
     \<lparr>sv_state = s, sv_admission = ad, sv_response = Returned w, sv_trace = [Committed w]\<rparr>"

definition respond_or_panic :: "'s \<Rightarrow> admission \<Rightarrow> response_writer outcome \<Rightarrow> 's served" where
  "respond_or_panic s ad out =
     (case out of
        Returned w \<Rightarrow> respond s ad w
      | Panicked \<Rightarrow> \<lparr>sv_state = s, sv_admission = ad, sv_response = Panicked, sv_trace = []\<rparr>)"

text \<open>The end of both admission handlers: from the result on.\<close>

definition finish_admission ::
    "(admission \<Rightarrow> admission) \<Rightarrow> verification_job \<Rightarrow> result \<Rightarrow> error option \<Rightarrow> response_writer
     \<Rightarrow> 's \<Rightarrow> admission \<Rightarrow> 's served" where
  "finish_admission interfere job res0 err w s ad =
     (case handleInitialError w err True of
        Panicked \<Rightarrow> respond_or_panic s ad Panicked
      | Returned (True, w') \<Rightarrow> respond s ad w'
      | Returned (False, _) \<Rightarrow>
          let res = cloneResult res0
          in case validateAdmissionResult res of
               Inl _ \<Rightarrow> respond s ad (writeSafeError w 500)
             | Inr accepted \<Rightarrow>
                 if \<not> accepted then respond s ad (writeResult w res 400 None)
                 else
                   let res' = res\<lparr>res_status := 0\<rparr>
                   in case admit job (interfere ad) of (admitted, ad') \<Rightarrow>
                        if \<not> admitted then respond s ad' (writeSafeError w 503)
                        else
                          let w' = writeResult w res' 202 None
                          in \<lparr>sv_state = s, sv_admission = ad', sv_response = Returned w',
                              sv_trace = [Admitted job, Committed w', GateOpened]\<rparr>)"

definition serveSubscription ::
    "'s handler \<Rightarrow> (admission \<Rightarrow> admission) \<Rightarrow> response_writer \<Rightarrow> request \<Rightarrow> url_values
     \<Rightarrow> 's \<Rightarrow> admission \<Rightarrow> 's served" where
  "serveSubscription h interfere w request form s ad =
     (case parseSubscription h form of
        Inl _ \<Rightarrow> respond s ad (writeSafeError w 400)
      | Inr message \<Rightarrow>
          let metadata = metadataFromRequest request;
              controller = \<lparr>ct_allowed = AllowExternalVerification (h_config h), ct_marked = False\<rparr>;
              called = (case OnSubscription (h_service h) of
                          None \<Rightarrow> (s, 0, zero_result, None)
                        | Some callback \<Rightarrow>
                            (case callback s (cloneSubscription message) (cloneMetadata metadata)
                                    (ct_allowed controller) of
                               (s', marks, out) \<Rightarrow> (s', marks, recover_result out)))
          in case called of (s', marks, res, err) \<Rightarrow>
               finish_admission interfere
                 \<lparr>job_mode = ModeSubscribe, job_sub = cloneSubscription message,
                  job_unsub = zero_unsubscription, job_metadata = cloneMetadata metadata,
                  job_verified = isMarked (fst (mark_calls marks (Some controller)))\<rparr>
                 res err w s' ad)"

definition serveUnsubscription ::
    "'s handler \<Rightarrow> (admission \<Rightarrow> admission) \<Rightarrow> response_writer \<Rightarrow> request \<Rightarrow> url_values
     \<Rightarrow> 's \<Rightarrow> admission \<Rightarrow> 's served" where
  "serveUnsubscription h interfere w request form s ad =
     (case parseUnsubscription h form of
        Inl _ \<Rightarrow> respond s ad (writeSafeError w 400)
      | Inr message \<Rightarrow>
          let metadata = metadataFromRequest request;
              controller = \<lparr>ct_allowed = AllowExternalVerification (h_config h), ct_marked = False\<rparr>;
              called = (case OnUnsubscription (h_service h) of
                          None \<Rightarrow> (s, 0, zero_result, None)
                        | Some callback \<Rightarrow>
                            (case callback s (cloneUnsubscription message) (cloneMetadata metadata)
                                    (ct_allowed controller) of
                               (s', marks, out) \<Rightarrow> (s', marks, recover_result out)))
          in case called of (s', marks, res, err) \<Rightarrow>
               finish_admission interfere
                 \<lparr>job_mode = ModeUnsubscribe, job_sub = zero_subscription,
                  job_unsub = cloneUnsubscription message, job_metadata = cloneMetadata metadata,
                  job_verified = isMarked (fst (mark_calls marks (Some controller)))\<rparr>
                 res err w s' ad)"

text \<open>\<open>callRegister\<close>, \<open>callDeregister\<close>, \<open>callUpdate\<close>: calling a nil function is a panic that
  \<open>recoverCallback\<close> turns into an error.\<close>

definition call_extension ::
    "('s \<Rightarrow> 'm \<Rightarrow> request_metadata \<Rightarrow> 's \<times> (result \<times> error option) outcome) option
     \<Rightarrow> 's \<Rightarrow> 'm \<Rightarrow> request_metadata \<Rightarrow> 's \<times> result \<times> error option" where
  "call_extension callback s message metadata =
     (case callback of
        None \<Rightarrow> (s, recover_result Panicked)
      | Some f \<Rightarrow> (case f s message metadata of (s', out) \<Rightarrow> (s', recover_result out)))"

definition accepted_form :: url_values where
  "accepted_form = [(''hub.mode'', [''accepted''])]"

text \<open>The end of the three extension handlers.\<close>

definition finish_extension ::
    "int \<Rightarrow> result \<Rightarrow> error option \<Rightarrow> response_writer \<Rightarrow> 's \<Rightarrow> admission \<Rightarrow> 's served" where
  "finish_extension defaultStatus res0 err w s ad =
     (case err of
        Some e \<Rightarrow> respond_or_panic s ad (writeExtensionDenied w e)
      | None \<Rightarrow>
          let res = cloneResult res0
          in if validateResult res \<noteq> None then respond s ad (writeSafeError w 500)
             else respond s ad (writeResult w res defaultStatus (Some (encode_values accepted_form))))"

definition registration_content_type :: "url_values \<Rightarrow> bool \<Rightarrow> string option" where
  "registration_content_type form deregister =
     (case map_get form ''hub.content_type'' of
        None \<Rightarrow> Some []
      | Some contentTypes \<Rightarrow>
          if deregister then None
          else if length contentTypes \<noteq> 1 \<or> hd contentTypes = []
            \<or> validateContentType (hd contentTypes) \<noteq> None then None
          else Some (hd contentTypes))"

definition serveRegistration ::
    "'s handler \<Rightarrow> response_writer \<Rightarrow> request \<Rightarrow> url_values \<Rightarrow> bool \<Rightarrow> 's \<Rightarrow> admission \<Rightarrow> 's served" where
  "serveRegistration h w request form deregister s ad =
     (if \<not> EnablePublisherExtension (h_config h) then respond s ad (writeSafeError w 400)
      else case requiredSingle form ''hub.topic'' of
        Inl _ \<Rightarrow> respond s ad (writeSafeError w 400)
      | Inr topic0 \<Rightarrow>
     (case normalizeHTTPURL topic0 ''hub.topic'' False False of
        Inl _ \<Rightarrow> respond s ad (writeSafeError w 400)
      | Inr topic \<Rightarrow>
     (case registration_content_type form deregister of
        None \<Rightarrow> respond s ad (writeSafeError w 400)
      | Some contentType \<Rightarrow>
          let metadata = metadataFromRequest request;
              called =
                (if deregister
                 then call_extension (OnDeregisterTopic (h_service h)) s
                        \<lparr>dereg_mode = ModeDeregister, dereg_topic = topic\<rparr> (cloneMetadata metadata)
                 else call_extension (OnRegisterTopic (h_service h)) s
                        \<lparr>reg_mode = ModeRegister, reg_topic = topic, reg_content_type = contentType\<rparr>
                        (cloneMetadata metadata))
          in case called of (s', res, err) \<Rightarrow> finish_extension 200 res err w s' ad)))"

definition serveUpdate ::
    "'s handler \<Rightarrow> response_writer \<Rightarrow> request \<Rightarrow> update_message \<Rightarrow> 's \<Rightarrow> admission \<Rightarrow> 's served" where
  "serveUpdate h w request message s ad =
     (case call_extension (OnUpdateMessage (h_service h)) s (cloneUpdate message)
             (metadataFromRequest request) of
        (s', res, err) \<Rightarrow> finish_extension 202 res err w s' ad)"

definition serveEvent ::
    "'s handler \<Rightarrow> response_writer \<Rightarrow> request \<Rightarrow> url_values \<Rightarrow> string \<Rightarrow> 's \<Rightarrow> admission \<Rightarrow> 's served" where
  "serveEvent h w request form contentType s ad =
     (case requiredSingle form ''hub.topic'' of
        Inl _ \<Rightarrow> respond s ad (writeSafeError w 400)
      | Inr topic0 \<Rightarrow>
     (case normalizeHTTPURL topic0 ''hub.topic'' False False of
        Inl _ \<Rightarrow> respond s ad (writeSafeError w 400)
      | Inr topic \<Rightarrow>
          serveUpdate h w request
            \<lparr>upd_kind = UpdateEvent, upd_topic = topic, upd_content_type = contentType,
             upd_body = None, upd_header = cloneHeader (Some (rq_header request))\<rparr> s ad))"

definition servePublisherContent ::
    "'s handler \<Rightarrow> response_writer \<Rightarrow> request \<Rightarrow> string \<Rightarrow> string \<Rightarrow> 's \<Rightarrow> admission
     \<Rightarrow> error + 's served" where
  "servePublisherContent h w request contentType publisherMode s ad =
     (if \<not> EnablePublisherExtension (h_config h)
      then Inl (invalidRequest ''publisher extension is disabled'')
      else if publisherMode \<noteq> [] \<and> publisherMode \<noteq> ''publish''
      then Inl (invalidRequest ''invalid publisher header'')
      else
        let query = fst (parse_query (rq_raw_query request))
        in case requiredSingle query ''hub.mode'' of
             Inl _ \<Rightarrow> Inl (invalidRequest ''invalid publish mode'')
           | Inr mode \<Rightarrow>
               if mode \<noteq> ModePublish then Inl (invalidRequest ''invalid publish mode'')
               else (case requiredSingle query ''hub.topic'' of
                  Inl e \<Rightarrow> Inl e
                | Inr topic0 \<Rightarrow>
               (case normalizeHTTPURL topic0 ''hub.topic'' False False of
                  Inl e \<Rightarrow> Inl e
                | Inr topic \<Rightarrow>
               (case readRequestBody h request of
                  Inl e \<Rightarrow> Inl e
                | Inr body \<Rightarrow>
                    Inr (serveUpdate h w request
                      \<lparr>upd_kind = UpdateContent, upd_topic = topic, upd_content_type = contentType,
                       upd_body = cloneBytes (Some body),
                       upd_header = cloneHeader (Some (rq_header request))\<rparr> s ad)))))"

definition publisherHeader :: string where
  "publisherHeader = ''X-Go-Publisher''"

text \<open>The part of \<open>ServeHTTP\<close> after the checks of method, closed flag, content type and
  publisher header.\<close>

definition serve_event_form ::
    "'s handler \<Rightarrow> response_writer \<Rightarrow> request \<Rightarrow> string \<Rightarrow> string \<Rightarrow> 's \<Rightarrow> admission \<Rightarrow> 's served" where
  "serve_event_form h w request contentType mediaType s ad =
     (if \<not> EnablePublisherExtension (h_config h) \<or> mediaType \<noteq> form_type
      then respond s ad (writeSafeError w 400)
      else case readRequestBody h request of
        Inl _ \<Rightarrow> respond s ad (writeSafeError w 400)
      | Inr body \<Rightarrow>
     (case parse_query body of (form, parseErr) \<Rightarrow>
        if parseErr \<or> values_get form ''hub.mode'' \<noteq> ModePublish
          \<or> length (case map_get form ''hub.mode'' of None \<Rightarrow> [] | Some vs \<Rightarrow> vs) \<noteq> 1
        then respond s ad (writeSafeError w 400)
        else serveEvent h w request form contentType s ad))"

definition serve_form ::
    "'s handler \<Rightarrow> (admission \<Rightarrow> admission) \<Rightarrow> response_writer \<Rightarrow> request \<Rightarrow> 's \<Rightarrow> admission \<Rightarrow> 's served" where
  "serve_form h interfere w request s ad =
     (case readRequestBody h request of
        Inl _ \<Rightarrow> respond s ad (writeSafeError w 400)
      | Inr body \<Rightarrow>
     (case parse_query body of (form, parseErr) \<Rightarrow>
        if parseErr then respond s ad (writeSafeError w 400)
        else case requiredSingle form ''hub.mode'' of
          Inl _ \<Rightarrow> respond s ad (writeSafeError w 400)
        | Inr mode \<Rightarrow>
            if mode = ModeSubscribe then serveSubscription h interfere w request form s ad
            else if mode = ModeUnsubscribe then serveUnsubscription h interfere w request form s ad
            else if mode = ModeRegister then serveRegistration h w request form False s ad
            else if mode = ModeDeregister then serveRegistration h w request form True s ad
            else if mode = ModePublish then respond s ad (writeSafeError w 400)
            else respond s ad (writeSafeError w 400)))"

definition ServeHTTP ::
    "'s handler \<Rightarrow> (admission \<Rightarrow> admission) \<Rightarrow> response_writer \<Rightarrow> request \<Rightarrow> 's \<Rightarrow> admission \<Rightarrow> 's served" where
  "ServeHTTP h interfere w request s ad =
     (if rq_method request \<noteq> ''POST''
      then respond s ad (http_error ''method not allowed'' 405 (rw_set ''Allow'' ''POST'' w))
      else if isClosed ad then respond s ad (http_error (error_text (Sentinel ErrClosed)) 503 w)
      else
        let contentType = header_get (rq_header request) ''Content-Type''
        in case parseMediaType contentType of
             Inl _ \<Rightarrow> respond s ad (writeSafeError w 400)
           | Inr mediaType \<Rightarrow>
               if mediaType = form_type \<and> validateFormContentType contentType \<noteq> None
               then respond s ad (writeSafeError w 400)
               else
                 let publisherValues = header_values (rq_header request) publisherHeader
                 in if length publisherValues > 1 then respond s ad (writeSafeError w 400)
                    else
                      let publisherMode =
                            (case publisherValues of [v] \<Rightarrow> to_lower (trim_space v) | _ \<Rightarrow> [])
                      in if publisherMode = ''event''
                         then serve_event_form h w request contentType mediaType s ad
                         else if publisherMode \<noteq> [] \<or> mediaType \<noteq> form_type
                         then (case servePublisherContent h w request contentType publisherMode s ad of
                                 Inl _ \<Rightarrow> respond s ad (writeSafeError w 400)
                               | Inr served \<Rightarrow> served)
                         else serve_form h interfere w request s ad)"

lemmas dispatch_eval [go_eval] = zero_subscription_def zero_unsubscription_def new_admission_def
  isClosed_def admit_def respond_def respond_or_panic_def finish_admission_def serveSubscription_def
  serveUnsubscription_def call_extension_def accepted_form_def finish_extension_def
  registration_content_type_def serveRegistration_def serveUpdate_def serveEvent_def
  servePublisherContent_def publisherHeader_def serve_event_form_def serve_form_def ServeHTTP_def

end
