(* ===== verification/ServeProps.thy ===== *)
theory ServeProps
  imports Dispatch
begin

text \<open>
  What every call of \<open>ServeHTTP\<close> comes to (\<open>Dispatch\<close>): the response is committed exactly
  once, in the order the trace shows; a job is admitted with status 202 only, holds what the
  request's form says, and is marked verified only where the configuration allows it; a
  closed handler answers 503 and touches nothing.
\<close>

section \<open>One response, in order\<close>

definition served_well :: "(admission \<Rightarrow> admission) \<Rightarrow> admission \<Rightarrow> 's served \<Rightarrow> bool" where
  "served_well interfere ad v \<longleftrightarrow>
     (case sv_response v of
        Panicked \<Rightarrow> sv_trace v = [] \<and> sv_admission v = ad
      | Returned w \<Rightarrow>
          (\<exists>st. committed_once w st)
          \<and> ((sv_trace v = [Committed w] \<and> sv_admission v \<in> {ad, interfere ad})
             \<or> (\<exists>job. sv_trace v = [Admitted job, Committed w, GateOpened] \<and> rw_status w = Some 202
                  \<and> fst (admit job (interfere ad)) \<and> sv_admission v = snd (admit job (interfere ad)))))"

lemma served_well_respond:
  "committed_once w st \<Longrightarrow> ad' \<in> {ad, interfere ad} \<Longrightarrow> served_well interfere ad (respond s ad' w)"
  by (auto simp: served_well_def respond_def)

lemma served_well_error [simp]:
  "fresh_writer w \<Longrightarrow> served_well interfere ad (respond s ad (writeSafeError w st))"
  by (rule served_well_respond [OF committed_writeSafeError]) auto

lemma served_well_panic [simp]: "served_well interfere ad (respond_or_panic s ad Panicked)"
  by (simp add: served_well_def respond_or_panic_def)

lemma served_well_admitted:
  assumes "fresh_writer w" and "admit job (interfere ad) = (True, ad')" and "res_status res = 0"
  shows "served_well interfere ad
    \<lparr>sv_state = s, sv_admission = ad', sv_response = Returned (writeResult w res 202 None),
     sv_trace = [Admitted job, Committed (writeResult w res 202 None), GateOpened]\<rparr>"
proof -
  have "committed_once (writeResult w res 202 None) 202"
    using committed_writeResult [OF assms(1), of res 202 None] assms(3) by simp
  moreover from this have "rw_status (writeResult w res 202 None) = Some 202"
    by (simp add: committed_once_def)
  ultimately show ?thesis using assms(2) by (auto simp: served_well_def)
qed

lemma handleInitialError_returns:
  assumes "fresh_writer w" and "handleInitialError w err True = Returned (True, w')"
  shows "\<exists>st. committed_once w' st"
proof (cases err)
  case (Some e)
  show ?thesis
  proof (cases "errors_as_redirect e = Some None")
    case True
    with assms(2) Some show ?thesis by (simp add: handleInitialError_nil)
  next
    case False
    with assms Some handleInitialError_Some [OF assms(1), of e] show ?thesis by auto
  qed
qed (use assms in simp)

lemma served_well_finish_admission:
  assumes "fresh_writer w"
  shows "served_well interfere ad (finish_admission interfere job res err w s ad)"
proof (cases "handleInitialError w err True")
  case Panicked
  then show ?thesis by (simp add: finish_admission_def)
next
  case (Returned p)
  obtain handled w' where p: "p = (handled, w')" by fastforce
  show ?thesis
  proof (cases handled)
    case True
    with Returned p assms handleInitialError_returns [of w err w'] show ?thesis
      by (auto simp: finish_admission_def intro: served_well_respond)
  next
    case False
    obtain ok ad' where adm: "admit job (interfere ad) = (ok, ad')" by fastforce
    then have refused: "\<not> ok \<Longrightarrow> ad' = interfere ad"
      using admit_refused [of job "interfere ad"] by simp
    have "committed_once (writeResult w (cloneResult res) 400 None)
        (if res_status (cloneResult res) = 0 then 400 else res_status (cloneResult res))"
      using assms by (rule committed_writeResult)
    then have rejected: "served_well interfere ad (respond s ad (writeResult w (cloneResult res) 400 None))"
      by (rule served_well_respond) simp
    show ?thesis
      using False Returned p adm refused rejected assms
        served_well_admitted [OF assms, of job interfere ad ad' "cloneResult res\<lparr>res_status := 0\<rparr>"]
      by (cases "validateAdmissionResult (cloneResult res)"; cases ok)
        (auto simp: finish_admission_def Let_def intro: served_well_respond [OF committed_writeSafeError])
  qed
qed

lemma served_well_finish_extension:
  assumes "fresh_writer w"
  shows "served_well interfere ad (finish_extension st res err w s ad)"
proof (cases err)
  case None
  show ?thesis
    using assms
    by (auto simp: finish_extension_def Let_def None
        intro: served_well_respond [OF committed_writeResult [OF assms]])
next
  case (Some e)
  show ?thesis
  proof (cases "errors_as_denied e = Some None")
    case True
    then show ?thesis by (simp add: finish_extension_def Some writeExtensionDenied_def)
  next
    case False
    obtain w' where w': "writeExtensionDenied w e = Returned w'" "committed_once w' 400"
      using writeExtensionDenied_status [OF assms False] by blast
    from served_well_respond [OF w'(2), of ad ad interfere s]
    show ?thesis by (simp add: finish_extension_def Some w'(1) respond_or_panic_def)
  qed
qed

lemmas served_well_intros = served_well_error served_well_finish_admission served_well_finish_extension

lemma served_well_serveSubscription:
  "fresh_writer w \<Longrightarrow> served_well interfere ad (serveSubscription h interfere w request form s ad)"
  by (auto simp: serveSubscription_def Let_def intro: served_well_intros split: sum.split prod.split)

lemma served_well_serveUnsubscription:
  "fresh_writer w \<Longrightarrow> served_well interfere ad (serveUnsubscription h interfere w request form s ad)"
  by (auto simp: serveUnsubscription_def Let_def intro: served_well_intros split: sum.split prod.split)

lemma served_well_serveRegistration:
  "fresh_writer w \<Longrightarrow> served_well interfere ad (serveRegistration h w request form d s ad)"
  by (auto simp: serveRegistration_def Let_def intro: served_well_intros split: sum.split prod.split option.split)

lemma served_well_serveUpdate:
  "fresh_writer w \<Longrightarrow> served_well interfere ad (serveUpdate h w request m s ad)"
  by (auto simp: serveUpdate_def intro: served_well_intros split: prod.split)

lemma served_well_serve_event_form:
  "fresh_writer w \<Longrightarrow> served_well interfere ad (serve_event_form h w request ct mt s ad)"
  by (auto simp: serve_event_form_def serveEvent_def intro: served_well_intros served_well_serveUpdate
      split: sum.split prod.split)

lemma served_well_content:
  "fresh_writer w \<Longrightarrow> servePublisherContent h w request ct pm s ad = Inr v \<Longrightarrow> served_well interfere ad v"
  by (auto simp: servePublisherContent_def Let_def intro: served_well_serveUpdate split: sum.splits if_splits)

lemma served_well_serve_form:
  "fresh_writer w \<Longrightarrow> served_well interfere ad (serve_form h interfere w request s ad)"
  by (auto simp: serve_form_def intro: served_well_intros served_well_serveSubscription
      served_well_serveUnsubscription served_well_serveRegistration split: sum.split prod.split)

lemma served_well_ServeHTTP:
  assumes "fresh_writer w"
  shows "served_well interfere ad (ServeHTTP h interfere w request s ad)"
proof -
  have "served_well interfere ad (respond s ad (http_error m st w'))" if "fresh_writer w'" for m st w'
    using committed_http_error [OF that] by (rule served_well_respond) simp
  then show ?thesis
    using assms unfolding ServeHTTP_def
    by (auto simp: Let_def intro: served_well_serve_event_form served_well_content
        served_well_serve_form split: sum.split)
qed

section \<open>What an admitted job holds\<close>

lemma trace_respond [simp]: "Admitted job \<notin> set (sv_trace (respond s ad w))"
  by (simp add: respond_def)

lemma trace_respond_or_panic [simp]: "Admitted job \<notin> set (sv_trace (respond_or_panic s ad out))"
  by (simp add: respond_or_panic_def split: outcome.split)

lemma trace_finish_admission:
  "Admitted job \<in> set (sv_trace (finish_admission interfere job' res err w s ad)) \<Longrightarrow> job = job'"
  by (auto simp: finish_admission_def Let_def split: outcome.splits prod.splits bool.splits sum.splits if_splits)

lemma trace_finish_extension [simp]: "Admitted job \<notin> set (sv_trace (finish_extension st res err w s ad))"
  by (simp add: finish_extension_def Let_def split: option.split)

text \<open>The job that a form and the request it came in stand for.\<close>

definition job_of_form :: "'s handler \<Rightarrow> request \<Rightarrow> url_values \<Rightarrow> verification_job \<Rightarrow> bool" where
  "job_of_form h request form job \<longleftrightarrow>
     (job_mode job = ModeSubscribe \<and> parseSubscription h form = Inr (job_sub job)
      \<or> job_mode job = ModeUnsubscribe \<and> parseUnsubscription h form = Inr (job_unsub job))
     \<and> requiredSingle form ''hub.mode'' = Inr (job_mode job)
     \<and> job_metadata job = metadataFromRequest request
     \<and> (job_verified job \<longrightarrow> AllowExternalVerification (h_config h))"

lemma cloneMetadata_request [simp]: "cloneMetadata (metadataFromRequest r) = metadataFromRequest r"
  by (simp add: cloneMetadata_def metadataFromRequest_def)

lemma marked_allowed: "isMarked (fst (mark_calls n (Some \<lparr>ct_allowed = a, ct_marked = False\<rparr>))) \<Longrightarrow> a"
  by (simp add: isMarked_mark_calls)

lemma trace_serveSubscription:
  assumes "Admitted job \<in> set (sv_trace (serveSubscription h interfere w request form s ad))"
    and "map_ok form"
  shows "parseSubscription h form = Inr (job_sub job) \<and> job_mode job = ModeSubscribe
    \<and> job_metadata job = metadataFromRequest request
    \<and> (job_verified job \<longrightarrow> AllowExternalVerification (h_config h))"
  using assms parseSubscription_detached [OF assms(2), of h]
  by (auto simp: serveSubscription_def Let_def split: sum.splits prod.splits
      dest!: trace_finish_admission dest: marked_allowed)

lemma trace_serveUnsubscription:
  assumes "Admitted job \<in> set (sv_trace (serveUnsubscription h interfere w request form s ad))"
    and "map_ok form"
  shows "parseUnsubscription h form = Inr (job_unsub job) \<and> job_mode job = ModeUnsubscribe
    \<and> job_metadata job = metadataFromRequest request
    \<and> (job_verified job \<longrightarrow> AllowExternalVerification (h_config h))"
  using assms parseUnsubscription_detached [OF assms(2), of h]
  by (auto simp: serveUnsubscription_def Let_def split: sum.splits prod.splits
      dest!: trace_finish_admission dest: marked_allowed)

lemma trace_serveRegistration [simp]:
  "Admitted job \<notin> set (sv_trace (serveRegistration h w request form d s ad))"
  by (simp add: serveRegistration_def Let_def split: sum.split option.split prod.split)

lemma trace_serveUpdate [simp]: "Admitted job \<notin> set (sv_trace (serveUpdate h w request m s ad))"
  by (simp add: serveUpdate_def split: prod.split)

lemma trace_serve_event_form [simp]:
  "Admitted job \<notin> set (sv_trace (serve_event_form h w request ct mt s ad))"
  by (simp add: serve_event_form_def serveEvent_def split: sum.split prod.split)

lemma trace_content [simp]:
  "servePublisherContent h w request ct pm s ad = Inr v \<Longrightarrow> Admitted job \<notin> set (sv_trace v)"
  by (auto simp: servePublisherContent_def Let_def split: sum.splits if_splits)

lemma trace_serve_form:
  assumes "Admitted job \<in> set (sv_trace (serve_form h interfere w request s ad))"
  shows "\<exists>body form. readRequestBody h request = Inr body \<and> parse_query body = (form, False)
    \<and> job_of_form h request form job"
proof -
  obtain body where body: "readRequestBody h request = Inr body"
    using assms by (auto simp: serve_form_def split: sum.splits)
  obtain form err where form: "parse_query body = (form, err)" by fastforce
  with parse_query_ok [of body] have ok: "map_ok form" by simp
  have "\<not> err" and mode: "requiredSingle form ''hub.mode'' = Inr (job_mode job)
      \<and> (job_mode job = ModeSubscribe \<and> Admitted job \<in> set (sv_trace (serveSubscription h interfere w request form s ad))
        \<or> job_mode job = ModeUnsubscribe \<and> Admitted job \<in> set (sv_trace (serveUnsubscription h interfere w request form s ad)))"
    using assms body form trace_serveSubscription [OF _ ok, of job h interfere w request s ad]
      trace_serveUnsubscription [OF _ ok, of job h interfere w request s ad]
    by (auto simp: serve_form_def split: sum.splits if_splits)
  then have "job_of_form h request form job"
    using trace_serveSubscription [OF _ ok, of job h interfere w request s ad]
      trace_serveUnsubscription [OF _ ok, of job h interfere w request s ad]
    by (auto simp: job_of_form_def)
  with body form \<open>\<not> err\<close> show ?thesis by auto
qed

lemma trace_ServeHTTP:
  assumes "Admitted job \<in> set (sv_trace (ServeHTTP h interfere w request s ad))"
  shows "rq_method request = ''POST'' \<and> \<not> ad_closed ad
    \<and> (\<exists>body form. readRequestBody h request = Inr body \<and> parse_query body = (form, False)
         \<and> job_of_form h request form job)"
  using assms trace_serve_form [of job h interfere w request s ad]
  by (auto simp: ServeHTTP_def Let_def isClosed_def split: if_splits sum.splits)

section \<open>Refusals\<close>

lemma ServeHTTP_closed:
  assumes "fresh_writer w" and "rq_method request = ''POST''" and "ad_closed ad"
  shows "\<exists>w'. ServeHTTP h interfere w request s ad = respond s ad w'
    \<and> committed_once w' 503 \<and> rw_body w' = ''websubhub: closed'' @ [CHR 0x0A]"
  using assms committed_http_error [OF assms(1), of "''websubhub: closed''" 503]
    rw_body_http_error [OF assms(1), of 503 "''websubhub: closed''"]
  by (auto simp: ServeHTTP_def isClosed_def body_allowed_def)

lemma ServeHTTP_method:
  assumes "fresh_writer w" and "rq_method request \<noteq> ''POST''"
  shows "\<exists>w'. ServeHTTP h interfere w request s ad = respond s ad w' \<and> committed_once w' 405
    \<and> header_values (rw_sent_header w') ''Allow'' = [''POST'']"
proof -
  have k: "canonical_key ''Allow'' = ''Allow''" "canonical_key ''Content-Type'' = ''Content-Type''"
      "canonical_key ''X-Content-Type-Options'' = ''X-Content-Type-Options''"
      "canonical_key ''Content-Length'' = ''Content-Length''"
    by code_simp+
  have "fresh_writer (rw_set ''Allow'' ''POST'' w)" using assms(1) by simp
  moreover have "header_values (rw_sent_header (http_error m 405 (rw_set ''Allow'' ''POST'' w))) ''Allow'' = [''POST'']" for m
    using assms(1)
    by (simp add: http_error_def Let_def rw_sent_header_write_body write_header_def rw_set_def fresh_writer_def)
      (simp add: rw_sent_header_def header_values_set header_values_del k)
  ultimately show ?thesis
    using assms(2) committed_http_error by (auto simp: ServeHTTP_def)
qed

text \<open>With the extension disabled, serving does not depend on the publisher callbacks: they
  are never called.\<close>

lemma parse_service [simp]:
  "parseSubscription (h\<lparr>h_service := sv\<rparr>) form = parseSubscription h form"
  "parseUnsubscription (h\<lparr>h_service := sv\<rparr>) form = parseUnsubscription h form"
  "readRequestBody (h\<lparr>h_service := sv\<rparr>) request = readRequestBody h request"
  by (simp_all add: parseSubscription_def parseUnsubscription_def readRequestBody_def
      cong: sum.case_cong)

lemma ServeHTTP_extension_disabled:
  assumes "\<not> EnablePublisherExtension (h_config h)"
  shows "ServeHTTP (h\<lparr>h_service := (h_service h)\<lparr>OnRegisterTopic := r, OnDeregisterTopic := d, OnUpdateMessage := u\<rparr>\<rparr>)
      interfere w request s ad = ServeHTTP h interfere w request s ad"
proof -
  let ?h = "h\<lparr>h_service := (h_service h)\<lparr>OnRegisterTopic := r, OnDeregisterTopic := d, OnUpdateMessage := u\<rparr>\<rparr>"
  have sub: "serveSubscription ?h interfere w request form s ad = serveSubscription h interfere w request form s ad"
    "serveUnsubscription ?h interfere w request form s ad = serveUnsubscription h interfere w request form s ad" for form
    by (simp_all add: serveSubscription_def serveUnsubscription_def Let_def cong: sum.case_cong)
  have ext: "serveRegistration ?h w request form dr s ad = respond s ad (writeSafeError w 400)"
    "serveRegistration h w request form dr s ad = respond s ad (writeSafeError w 400)" for form dr
    using assms by (simp_all add: serveRegistration_def)
  have event: "serve_event_form ?h w request ct mt s ad = respond s ad (writeSafeError w 400)"
    "serve_event_form h w request ct mt s ad = respond s ad (writeSafeError w 400)" for ct mt
    using assms by (simp_all add: serve_event_form_def)
  have content: "servePublisherContent ?h w request ct pm s ad = servePublisherContent h w request ct pm s ad" for ct pm
    using assms by (simp add: servePublisherContent_def)
  have form: "serve_form ?h interfere w request s ad = serve_form h interfere w request s ad"
    unfolding serve_form_def parse_service sub ext ..
  show ?thesis unfolding ServeHTTP_def event content form ..
qed

section \<open>Acceptance\<close>

lemma form_media_type: "parseMediaType form_type = Inr form_type" "validateFormContentType form_type = None"
  by code_simp+

text \<open>A plain form post: form content type, no publisher header, a well-formed body within
  the limit.\<close>

definition form_post :: "'s handler \<Rightarrow> request \<Rightarrow> url_values \<Rightarrow> bool" where
  "form_post h request form \<longleftrightarrow>
     rq_method request = ''POST'' \<and> header_get (rq_header request) ''Content-Type'' = form_type
     \<and> header_values (rq_header request) publisherHeader = []
     \<and> readRequestBody h request = Inr (rd_data (rq_body request))
     \<and> parse_query (rd_data (rq_body request)) = (form, False)"

lemma ServeHTTP_form_post:
  assumes "form_post h request form" and "\<not> ad_closed ad"
  shows "ServeHTTP h interfere w request s ad = serve_form h interfere w request s ad"
  using assms by (simp add: ServeHTTP_def form_post_def isClosed_def form_media_type)

lemma validate_zero_result: "validateAdmissionResult (cloneResult zero_result) = Inr True"
  by (simp add: zero_result_def cloneResult_def cloneBytes_def validateAdmissionResult_def
      validateResult_def validateHeaders_def)

lemma ServeHTTP_subscribe:
  assumes "form_post h request form" and "\<not> ad_closed ad"
    and "requiredSingle form ''hub.mode'' = Inr ModeSubscribe"
    and "parseSubscription h form = Inr m" and "OnSubscription (h_service h) = None"
  shows "ServeHTTP h interfere w request s ad =
    finish_admission interfere
      \<lparr>job_mode = ModeSubscribe, job_sub = m, job_unsub = zero_unsubscription,
       job_metadata = metadataFromRequest request, job_verified = False\<rparr>
      zero_result None w s ad"
proof -
  have "map_ok form"
    using assms(1) parse_query_ok [of "rd_data (rq_body request)"] by (simp add: form_post_def)
  with assms show ?thesis
    by (simp add: ServeHTTP_form_post [OF assms(1,2)] serve_form_def form_post_def serveSubscription_def
        parseSubscription_detached isMarked_def)
qed

lemma finish_admission_default:
  assumes "admit job (interfere ad) = (ok, ad')"
  shows "finish_admission interfere job zero_result None w s ad =
    (if ok then
       \<lparr>sv_state = s, sv_admission = ad', sv_response = Returned (write_header 202 w),
        sv_trace = [Admitted job, Committed (write_header 202 w), GateOpened]\<rparr>
     else respond s ad' (writeSafeError w 503))"
proof -
  have "writeResult w (cloneResult zero_result\<lparr>res_status := 0\<rparr>) 202 None = write_header 202 w"
    by (simp add: writeResult_def zero_result_def cloneResult_def cloneBytes_def copyHeaders_def)
  with assms show ?thesis
    by (simp add: finish_admission_def validate_zero_result Let_def)
qed

end
