(* ===== verification/Challenge.thy ===== *)
theory Challenge
  imports Helpers
begin

text \<open>
  \<open>challenge.go\<close>: a challenge is 32 random bytes in unpadded URL-safe base64
  (\<open>encoding/base64\<close>'s \<open>RawURLEncoding\<close>). The random source is a parameter: what
  \<open>rand.Read\<close> filled the 32-byte array with, or \<open>None\<close> for its error. Lemmas: the encoding
  is injective, a challenge has 43 characters, all URL-safe, so it is never the empty string
  that \<open>sendCallback\<close> takes to mean that no answer is expected.
\<close>

definition base64_char :: "nat \<Rightarrow> char" where
  "base64_char n =
     (if n < 26 then char_of (65 + n)
      else if n < 52 then char_of (71 + n)
      else if n < 62 then char_of (n - 4)
      else if n = 62 then CHR ''-'' else CHR ''_'')"

fun sextets :: "nat list \<Rightarrow> nat list" where
  "sextets [] = []"
| "sextets [a] = [a div 4, a mod 4 * 16]"
| "sextets [a, b] = [a div 4, a mod 4 * 16 + b div 16, b mod 16 * 4]"
| "sextets (a # b # c # r) =
     [a div 4, a mod 4 * 16 + b div 16, b mod 16 * 4 + c div 64, c mod 64] @ sextets r"

definition base64_raw_url :: "bytes \<Rightarrow> string" where
  "base64_raw_url s = map base64_char (sextets (map of_char s))"

definition newChallenge :: "bytes option \<Rightarrow> error + string" where
  "newChallenge random =
     (case random of
        None \<Rightarrow> Inl io_error
      | Some bs \<Rightarrow> Inr (base64_raw_url bs))"

lemma sextets_bound: "(\<And>b. b \<in> set bs \<Longrightarrow> b < 256) \<Longrightarrow> n \<in> set (sextets bs) \<Longrightarrow> n < 64"
proof (induction bs rule: sextets.induct)
  case (4 a b c r)
  have "a < 256" "b < 256" "c < 256" using "4.prems"(1) by simp_all
  moreover have "a mod 4 < 4" "b mod 16 < 16" by simp_all
  ultimately have "a div 4 < 64" "a mod 4 * 16 + b div 16 < 64" "b mod 16 * 4 + c div 64 < 64"
    by linarith+
  with 4 show ?case by (auto simp: less_Suc_eq_le)
next
  case (3 a b)
  have "a < 256" "b < 256" using "3.prems"(1) by simp_all
  moreover have "a mod 4 < 4" "b mod 16 < 16" by simp_all
  ultimately have "a div 4 < 64" "a mod 4 * 16 + b div 16 < 64" "b mod 16 * 4 < 64"
    by linarith+
  with 3 show ?case by auto
next
  case (2 a)
  have "a < 256" using "2.prems"(1) by simp
  moreover have "a mod 4 < 4" by simp
  ultimately have "a div 4 < 64" "a mod 4 * 16 < 64" by linarith+
  with 2 show ?case by auto
qed simp

lemma length_sextets: "length (sextets bs) = (4 * length bs + 2) div 3"
  by (induction bs rule: sextets.induct) simp_all

text \<open>The inverse of the split into sextets.\<close>

fun octets :: "nat list \<Rightarrow> nat list" where
  "octets (p # q # r # s # xs) =
     [p * 4 + q div 16, q mod 16 * 16 + r div 4, r mod 4 * 64 + s] @ octets xs"
| "octets [p, q, r] = [p * 4 + q div 16, q mod 16 * 16 + r div 4]"
| "octets [p, q] = [p * 4 + q div 16]"
| "octets xs = []"

lemma octets_sextets: "(\<And>b. b \<in> set bs \<Longrightarrow> b < 256) \<Longrightarrow> octets (sextets bs) = bs"
proof (induction bs rule: sextets.induct)
  case (4 a b c r)
  have "b < 256" "c < 256" using "4.prems" by simp_all
  then have "b div 16 < 16" "c div 64 < 4" by linarith+
  with 4 show ?case by (simp add: add.commute)
next
  case (3 a b)
  then have "b < 256" by simp
  then have "b div 16 < 16" by linarith
  then show ?case by (simp add: add.commute)
qed simp_all

lemma of_char_base64:
  "n < 64 \<Longrightarrow> (of_char (base64_char n) :: nat) =
     (if n < 26 then 65 + n else if n < 52 then 71 + n else if n < 62 then n - 4
      else if n = 62 then 45 else 95)"
  by (simp add: base64_char_def)

lemma base64_char_inj: "m < 64 \<Longrightarrow> n < 64 \<Longrightarrow> base64_char m = base64_char n \<Longrightarrow> m = n"
proof -
  assume "m < 64" "n < 64" and eq: "base64_char m = base64_char n"
  have "(if m < 26 then 65 + m else if m < 52 then 71 + m else if m < 62 then m - 4
      else if m = 62 then 45 else 95) =
    (if n < 26 then 65 + n else if n < 52 then 71 + n else if n < 62 then n - 4
      else if n = 62 then 45 else 95)"
    by (fold of_char_base64 [OF \<open>m < 64\<close>] of_char_base64 [OF \<open>n < 64\<close>]) (simp only: eq)
  with \<open>m < 64\<close> \<open>n < 64\<close> show "m = n" by (simp split: if_splits)
qed

lemma base64_raw_url_inj: "base64_raw_url s = base64_raw_url t \<longleftrightarrow> s = t"
proof
  let ?f = "\<lambda>s. sextets (map of_char s)"
  have bound: "n \<in> set (?f s) \<Longrightarrow> n < 64" for n and s :: bytes
    by (rule sextets_bound [of "map of_char s"]) (auto simp: of_char_lt_256)
  assume "base64_raw_url s = base64_raw_url t"
  then have "?f s = ?f t"
    unfolding base64_raw_url_def
    by (rule map_inj_on) (auto intro!: inj_onI base64_char_inj bound)
  moreover have "octets (?f s) = map of_char s" for s :: bytes
    by (rule octets_sextets) (auto simp: of_char_lt_256)
  ultimately have "map (of_char :: char \<Rightarrow> nat) s = map of_char t" by metis
  then show "s = t"
    by (rule map_inj_on) (auto intro: inj_onI)
qed simp

lemma base64_char_plain: "n < 64 \<Longrightarrow> is_alnum (base64_char n) \<or> base64_char n \<in> set ''-_''"
  by (auto simp: base64_char_def is_alnum_def is_upper_def is_lower_def is_digit_def less_eq_char_def)

lemma challenge_length: "newChallenge (Some bs) = Inr c \<Longrightarrow> length bs = 32 \<Longrightarrow> length c = 43"
  by (auto simp: newChallenge_def base64_raw_url_def length_sextets)

lemma challenge_nonempty: "newChallenge (Some bs) = Inr c \<Longrightarrow> bs \<noteq> [] \<Longrightarrow> c \<noteq> []"
  by (cases "map of_char bs :: nat list" rule: sextets.cases)
    (auto simp: newChallenge_def base64_raw_url_def)

lemma challenge_plain:
  assumes "newChallenge (Some bs) = Inr c" and "x \<in> set c"
  shows "is_alnum x \<or> x \<in> set ''-_''"
proof -
  obtain n where "n \<in> set (sextets (map of_char bs))" and x: "x = base64_char n"
    using assms by (auto simp: newChallenge_def base64_raw_url_def)
  then have "n < 64"
    using sextets_bound [of "map of_char bs" n] of_char_lt_256 by force
  with x show ?thesis using base64_char_plain by blast
qed

lemmas challenge_eval [go_eval] = base64_char_def base64_raw_url_def newChallenge_def

end
