(* ===== verification/Verification.thy ===== *)
theory Verification
  imports Dispatch Challenge
begin

text \<open>
  \<open>subscription.go\<close> and \<open>runJob\<close>: the asynchronous work on an admitted job (validation,
  effective lease, intent verification, the verified callback, status notifications).

  The world outside the library is a parameter \<open>env\<close> over a state \<open>'s\<close> that the application
  callbacks share: the round trip of the HTTP client, the random source and the clock. A
  context that ends (\<open>VerificationTimeout\<close>, shutdown) shows as a round trip that answers
  \<open>None\<close>. A run gives the new state, the calls it made on the outside, in order, and whether
  it panicked (in a worker goroutine, with no recover: the process ends).
\<close>

record 's env =
  env_rt :: "'s round_trip"
  env_rand :: "'s \<Rightarrow> 's \<times> bytes option"
  env_now :: "'s \<Rightarrow> 's \<times> time"

datatype call =
    ValidateSub subscription
  | ValidateUnsub unsubscription
  | Get http_request "http_response option"
  | VerifiedSub verified_subscription
  | VerifiedUnsub verified_unsubscription

section \<open>Requests to the callback\<close>

definition append_query :: "url \<Rightarrow> string \<Rightarrow> url" where
  "append_query target encodedParameters =
     (if u_raw_query target = [] then target\<lparr>u_raw_query := encodedParameters\<rparr>
      else target\<lparr>u_raw_query := u_raw_query target @ ''&'' @ encodedParameters\<rparr>)"

definition sendCallback ::
    "'s handler \<Rightarrow> 's env \<Rightarrow> 's \<Rightarrow> string \<Rightarrow> url_values \<Rightarrow> string \<Rightarrow> 's \<times> call list \<times> error option" where
  "sendCallback h env s callback parameters expectedBody =
     (case parse_url callback of
        None \<Rightarrow> (s, [], Some (Wrapped (Sentinel ErrVerificationFailed) ''callback URL''))
      | Some target0 \<Rightarrow>
          let target = append_query target0 (encode_values parameters)
          in case new_request ''GET'' (url_string target) [] of
               None \<Rightarrow> (s, [], Some (Wrapped (Sentinel ErrVerificationFailed) ''request creation''))
             | Some request \<Rightarrow>
                 (case client_do (h_client h) (env_rt env) s request of
                    (s', None) \<Rightarrow>
                      (s', [Get request None],
                       Some (Wrapped (Sentinel ErrVerificationFailed) ''callback request''))
                  | (s', Some response) \<Rightarrow>
                      (s', [Get request (Some response)],
                       (case responseSnapshot response (MaxCallbackBody (h_config h))
                               ''intent verification'' (Sentinel ErrVerificationFailed) of
                          Inl readErr \<Rightarrow> Some readErr
                        | Inr body \<Rightarrow>
                            if expectedBody = [] then None
                            else if rs_status response < 200 \<or> rs_status response \<ge> 300
                            then Some (HTTPError ''intent verification'' (rs_status response)
                                   (cloneHeader (Some (rs_header response))) (cloneBytes (Some body))
                                   (Some (Sentinel ErrVerificationFailed)))
                            else if body \<noteq> expectedBody
                            then Some (Wrapped (Sentinel ErrVerificationFailed) ''challenge mismatch'')
                            else None))))"

definition verifyIntent ::
    "'s handler \<Rightarrow> 's env \<Rightarrow> 's \<Rightarrow> string \<Rightarrow> url_values \<Rightarrow> string \<Rightarrow> 's \<times> call list \<times> error option" where
  "verifyIntent h env s callback parameters challenge =
     sendCallback h env s callback parameters challenge"

definition sendStatusNotification ::
    "'s handler \<Rightarrow> 's env \<Rightarrow> 's \<Rightarrow> string \<Rightarrow> string \<Rightarrow> string \<Rightarrow> string \<Rightarrow> 's \<times> call list" where
  "sendStatusNotification h env s callback mode topic why =
     (let parameters0 = [(''hub.mode'', [mode]), (''hub.topic'', [topic])];
          parameters = (if why \<noteq> [] then values_set ''hub.reason'' (safeReason why) parameters0
                        else parameters0)
      in case sendCallback h env s callback parameters [] of (s', calls, _) \<Rightarrow> (s', calls))"

section \<open>Runs\<close>

record 's run =
  run_state :: 's
  run_calls :: "call list"
  run_panicked :: bool

definition run_end :: "'s \<Rightarrow> call list \<Rightarrow> 's run" where
  "run_end s calls = \<lparr>run_state = s, run_calls = calls, run_panicked = False\<rparr>"

definition handleValidationFailure ::
    "'s handler \<Rightarrow> 's env \<Rightarrow> 's \<Rightarrow> string \<Rightarrow> string \<Rightarrow> error \<Rightarrow> 's run" where
  "handleValidationFailure h env s callback topic err =
     (case errors_as_denied err of
        Some None \<Rightarrow> \<lparr>run_state = s, run_calls = [], run_panicked = True\<rparr>
      | Some (Some why) \<Rightarrow>
          (case sendStatusNotification h env s callback ''denied'' topic (safeReason why) of
             (s', calls) \<Rightarrow> run_end s' calls)
      | None \<Rightarrow>
          if EnableHubErrorCallback (h_config h)
          then (case sendStatusNotification h env s callback ''hub-error'' topic ''validation failed'' of
                  (s', calls) \<Rightarrow> run_end s' calls)
          else run_end s [])"

definition add_calls :: "call list \<Rightarrow> 's run \<Rightarrow> 's run" where
  "add_calls calls r = r\<lparr>run_calls := calls @ run_calls r\<rparr>"

text \<open>Go's integer division truncates.\<close>

definition go_div :: "int \<Rightarrow> int \<Rightarrow> int" where
  "go_div a b = (if a \<ge> 0 then a div b else - ((- a) div b))"

definition effective_lease :: "config \<Rightarrow> string \<Rightarrow> string" where
  "effective_lease c leaseSeconds =
     (let lease0 = DefaultLease c;
          lease1 = (if leaseSeconds \<noteq> [] then wrap64 (fst (parse_int leaseSeconds) * second) else lease0);
          lease = (if lease1 > MaxLease c then MaxLease c else lease1)
      in format_int (go_div lease second))"

text \<open>The error of a verified callback.\<close>

definition after_verified ::
    "'s handler \<Rightarrow> 's env \<Rightarrow> 's \<Rightarrow> string \<Rightarrow> string \<Rightarrow> error option \<Rightarrow> 's run" where
  "after_verified h env s callback topic err =
     (if err \<noteq> None \<and> EnableHubErrorCallback (h_config h)
      then (case sendStatusNotification h env s callback ''hub-error'' topic ''verified callback failed'' of
              (s', calls) \<Rightarrow> run_end s' calls)
      else run_end s [])"

text \<open>\<open>callSubscriptionVerified\<close> and its three siblings: the application gets a copy, a panic
  (a nil function included) becomes an error.\<close>

definition call_validated ::
    "('s \<Rightarrow> 'm \<Rightarrow> request_metadata \<Rightarrow> 's \<times> error option outcome) \<Rightarrow> 's \<Rightarrow> 'm \<Rightarrow> request_metadata
     \<Rightarrow> 's \<times> error option" where
  "call_validated f s message metadata =
     (case f s message metadata of (s', out) \<Rightarrow> (s', recover_error out))"

definition call_verified ::
    "('s \<Rightarrow> 'm \<Rightarrow> request_metadata \<Rightarrow> 's \<times> error option outcome) option \<Rightarrow> 's \<Rightarrow> 'm
     \<Rightarrow> request_metadata \<Rightarrow> 's \<times> error option" where
  "call_verified callback s message metadata =
     (case callback of
        None \<Rightarrow> (s, recover_error Panicked)
      | Some f \<Rightarrow> call_validated f s message metadata)"

text \<open>The end of \<open>runSubscription\<close>: the verified callback.\<close>

definition finish_subscription ::
    "'s handler \<Rightarrow> 's env \<Rightarrow> verification_job \<Rightarrow> subscription \<Rightarrow> string \<Rightarrow> time \<Rightarrow> 's \<Rightarrow> 's run" where
  "finish_subscription h env job message lease started s =
     (let verified = \<lparr>vs_subscription = cloneSubscription message, vs_effective_lease = lease,
                      vs_lease_started = started\<rparr>
      in case call_verified (OnSubscriptionVerified (h_service h)) s
                (cloneVerifiedSubscription verified) (cloneMetadata (job_metadata job)) of
           (s', err) \<Rightarrow>
             add_calls [VerifiedSub verified]
               (after_verified h env s' (sub_callback message) (sub_topic message) err))"

definition subscribe_form :: "subscription \<Rightarrow> string \<Rightarrow> string \<Rightarrow> url_values" where
  "subscribe_form message challenge lease =
     [(''hub.mode'', [ModeSubscribe]), (''hub.topic'', [sub_topic message]),
      (''hub.challenge'', [challenge]), (''hub.lease_seconds'', [lease])]"

definition run_intent_subscribe ::
    "'s handler \<Rightarrow> 's env \<Rightarrow> verification_job \<Rightarrow> subscription \<Rightarrow> 's \<Rightarrow> 's run" where
  "run_intent_subscribe h env job message s =
     (let lease = effective_lease (h_config h) (sub_lease_seconds message)
      in case env_now env s of (s1, started) \<Rightarrow>
           if job_verified job then finish_subscription h env job message lease started s1
           else (case env_rand env s1 of (s2, random) \<Rightarrow>
             (case newChallenge random of
                Inl _ \<Rightarrow> run_end s2 []
              | Inr challenge \<Rightarrow>
                  (case verifyIntent h env s2 (sub_callback message)
                          (subscribe_form message challenge lease) challenge of
                     (s3, calls, Some _) \<Rightarrow> run_end s3 calls
                   | (s3, calls, None) \<Rightarrow>
                       add_calls calls (finish_subscription h env job message lease started s3)))))"

definition runSubscription :: "'s handler \<Rightarrow> 's env \<Rightarrow> verification_job \<Rightarrow> 's \<Rightarrow> 's run" where
  "runSubscription h env job s =
     (let message = cloneSubscription (job_sub job)
      in case OnSubscriptionValidation (h_service h) of
           None \<Rightarrow> run_intent_subscribe h env job message s
         | Some callback \<Rightarrow>
             (case call_validated callback s (cloneSubscription message)
                     (cloneMetadata (job_metadata job)) of
                (s', Some err) \<Rightarrow>
                  add_calls [ValidateSub message]
                    (handleValidationFailure h env s' (sub_callback message) (sub_topic message) err)
              | (s', None) \<Rightarrow>
                  add_calls [ValidateSub message] (run_intent_subscribe h env job message s')))"

definition finish_unsubscription ::
    "'s handler \<Rightarrow> 's env \<Rightarrow> verification_job \<Rightarrow> unsubscription \<Rightarrow> 's \<Rightarrow> 's run" where
  "finish_unsubscription h env job message s =
     (let verified = \<lparr>vu_unsubscription = cloneUnsubscription message\<rparr>
      in case call_verified (OnUnsubscriptionVerified (h_service h)) s
                (cloneVerifiedUnsubscription verified) (cloneMetadata (job_metadata job)) of
           (s', err) \<Rightarrow>
             add_calls [VerifiedUnsub verified]
               (after_verified h env s' (unsub_callback message) (unsub_topic message) err))"

definition unsubscribe_form :: "unsubscription \<Rightarrow> string \<Rightarrow> url_values" where
  "unsubscribe_form message challenge =
     [(''hub.mode'', [ModeUnsubscribe]), (''hub.topic'', [unsub_topic message]),
      (''hub.challenge'', [challenge])]"

definition run_intent_unsubscribe ::
    "'s handler \<Rightarrow> 's env \<Rightarrow> verification_job \<Rightarrow> unsubscription \<Rightarrow> 's \<Rightarrow> 's run" where
  "run_intent_unsubscribe h env job message s =
     (if job_verified job then finish_unsubscription h env job message s
      else (case env_rand env s of (s2, random) \<Rightarrow>
        (case newChallenge random of
           Inl _ \<Rightarrow> run_end s2 []
         | Inr challenge \<Rightarrow>
             (case verifyIntent h env s2 (unsub_callback message)
                     (unsubscribe_form message challenge) challenge of
                (s3, calls, Some _) \<Rightarrow> run_end s3 calls
              | (s3, calls, None) \<Rightarrow>
                  add_calls calls (finish_unsubscription h env job message s3)))))"

definition runUnsubscription :: "'s handler \<Rightarrow> 's env \<Rightarrow> verification_job \<Rightarrow> 's \<Rightarrow> 's run" where
  "runUnsubscription h env job s =
     (let message = cloneUnsubscription (job_unsub job)
      in case OnUnsubscriptionValidation (h_service h) of
           None \<Rightarrow> run_intent_unsubscribe h env job message s
         | Some callback \<Rightarrow>
             (case call_validated callback s (cloneUnsubscription message)
                     (cloneMetadata (job_metadata job)) of
                (s', Some err) \<Rightarrow>
                  add_calls [ValidateUnsub message]
                    (handleValidationFailure h env s' (unsub_callback message) (unsub_topic message) err)
              | (s', None) \<Rightarrow>
                  add_calls [ValidateUnsub message] (run_intent_unsubscribe h env job message s')))"

text \<open>\<open>runJob\<close> once the start gate is open.\<close>

definition runJob :: "'s handler \<Rightarrow> 's env \<Rightarrow> verification_job \<Rightarrow> 's \<Rightarrow> 's run" where
  "runJob h env job s =
     (if job_mode job = ModeSubscribe then runSubscription h env job s
      else if job_mode job = ModeUnsubscribe then runUnsubscription h env job s
      else run_end s [])"

lemmas verification_eval [go_eval] = append_query_def sendCallback_def verifyIntent_def
  sendStatusNotification_def run_end_def handleValidationFailure_def add_calls_def go_div_def
  effective_lease_def after_verified_def call_validated_def call_verified_def
  finish_subscription_def subscribe_form_def run_intent_subscribe_def runSubscription_def
  finish_unsubscription_def unsubscribe_form_def run_intent_unsubscribe_def runUnsubscription_def
  runJob_def

end
