(* ===== verification/VerifyProps.thy ===== *)
theory VerifyProps
  imports Verification
begin

text \<open>
  What the asynchronous work does (\<open>Verification\<close>): the effective lease is the requested
  or the default one capped by \<open>MaxLease\<close>, without overflow; the verified callback runs only
  for a marked job or right after the callback URL answered 2xx with the challenge and
  nothing else; a failed validation ends the job with at most one status notification.
\<close>

section \<open>The effective lease\<close>

lemma wrap64_lease: "0 < n \<Longrightarrow> n \<le> 9223372036 \<Longrightarrow> wrap64 (n * second) = n * second"
  by (rule wrap64_id) (simp add: in_int64_def second_def)

lemma effective_lease_spec:
  assumes "well_configured c" and "lease_ok ls"
  shows "effective_lease c ls =
    format_int (min (if ls = [] then DefaultLease c div second else fst (parse_int ls)) (MaxLease c div second))"
proof -
  have sec: "0 < second" by (simp add: second_def)
  obtain d k where d: "DefaultLease c = second * d" and k: "MaxLease c = second * k"
    using assms(1) by (auto simp: well_configured_def acceptable_def elim!: dvdE)
  have le: "0 < DefaultLease c" "DefaultLease c \<le> MaxLease c"
    using assms(1) sec by (auto simp: well_configured_def)
  have cap: "go_div (if second * n > MaxLease c then MaxLease c else second * n) second = min n (MaxLease c div second)"
    if "0 < n" for n
    using that le sec k by (auto simp: go_div_def)
  show ?thesis
  proof (cases "ls = []")
    case True
    have "0 < d" using d le(1) sec by (simp add: zero_less_mult_iff)
    with True cap [of d] d sec show ?thesis by (simp add: effective_lease_def Let_def)
  next
    case False
    then obtain n where n: "parse_int ls = (n, None)" "0 < n" "n \<le> 9223372036"
      using assms(2) by (auto simp: lease_ok_def)
    then have "wrap64 (fst (parse_int ls) * second) = second * n"
      using wrap64_lease [of n] by (simp add: mult.commute)
    with False n cap [of n] show ?thesis by (simp add: effective_lease_def Let_def)
  qed
qed

text \<open>As a number: a positive number of whole seconds within the cap, which the decimal
  string gives back.\<close>

lemma effective_lease_bounds:
  assumes "well_configured c" and "lease_ok ls" and "in_int64 (MaxLease c)"
  shows "\<exists>n. parse_int (effective_lease c ls) = (n, None) \<and> 0 < n \<and> n * second \<le> MaxLease c"
proof -
  have sec: "0 < second" by (simp add: second_def)
  define n where "n = min (if ls = [] then DefaultLease c div second else fst (parse_int ls)) (MaxLease c div second)"
  obtain d k where d: "DefaultLease c = second * d" and k: "MaxLease c = second * k"
    using assms(1) by (auto simp: well_configured_def acceptable_def elim!: dvdE)
  have le: "0 < second * d" "second * d \<le> second * k"
    using assms(1) sec d k by (auto simp: well_configured_def)
  then have "0 < d" "d \<le> k" using sec by (simp_all add: zero_less_mult_iff)
  then have pos: "0 < n" "n \<le> k"
    using assms(2) d k sec by (auto simp: n_def lease_ok_def min_def)
  have "n * second \<le> k * second" using pos sec by simp
  then have max: "n * second \<le> MaxLease c" by (simp add: k mult.commute)
  have "n \<le> n * second" using pos by (simp add: second_def)
  with max assms(3) pos have "in_int64 n" unfolding in_int64_def by linarith
  then show ?thesis
    using max pos effective_lease_spec [OF assms(1,2)] parse_format_int [of n]
    by (auto simp: n_def [symmetric])
qed

section \<open>The challenge answered\<close>

definition callback_request :: "string \<Rightarrow> url_values \<Rightarrow> http_request \<Rightarrow> bool" where
  "callback_request callback form q \<longleftrightarrow>
     (\<exists>target. parse_url callback = Some target \<and> hr_method q = ''GET'' \<and> hr_body q = []
        \<and> hr_header q = [] \<and> hr_url q = url_string (append_query target (encode_values form)))"

text \<open>The one request of an intent verification and its answer, when it succeeds.\<close>

definition challenged :: "string \<Rightarrow> url_values \<Rightarrow> string \<Rightarrow> http_request \<Rightarrow> http_response \<Rightarrow> bool" where
  "challenged callback form challenge q r \<longleftrightarrow>
     callback_request callback form q \<and> 200 \<le> rs_status r \<and> rs_status r < 300
     \<and> rd_data (rs_body r) = challenge"

lemma new_request_iff:
  "new_request m u b = Some q \<longleftrightarrow>
     (\<exists>p. parse_url u = Some p) \<and> q = \<lparr>hr_method = m, hr_url = u, hr_header = [], hr_body = b\<rparr>"
  by (auto simp: new_request_def split: option.split)

lemma responseSnapshot_body:
  assumes "responseSnapshot r limit op class = Inr body" and "body \<noteq> []" and "in_int64 limit"
  shows "rd_data (rs_body r) = body"
proof -
  have rb: "readBounded (rs_body r) limit = Inr body"
    using assms(1) by (auto simp: responseSnapshot_def split: sum.splits)
  then have "0 < limit" by (auto simp: readBounded_def split: if_splits)
  moreover have "limit \<noteq> 2 ^ 63 - 1"
    using rb assms(2) readBounded_max [of "rs_body r"] by auto
  ultimately show ?thesis
    using rb assms(3) readBounded_spec [of limit "rs_body r"]
    by (auto simp: in_int64_def split: if_splits)
qed

lemma sendCallback_calls:
  assumes "sendCallback h env s callback form expected = (s', calls, err)"
    and "cl_check_redirect (h_client h) = UseLastResponse"
  shows "calls = [] \<and> err \<noteq> None \<or> (\<exists>q r. calls = [Get q r] \<and> callback_request callback form q)"
  using assms
  by (auto simp: sendCallback_def Let_def client_do_refuse new_request_iff callback_request_def
      split: option.splits prod.splits)

lemma sendCallback_ok:
  assumes "sendCallback h env s callback form expected = (s', calls, None)"
    and "cl_check_redirect (h_client h) = UseLastResponse"
    and "in_int64 (MaxCallbackBody (h_config h))" and "expected \<noteq> []"
  shows "\<exists>q r. calls = [Get q (Some r)] \<and> challenged callback form expected q r"
proof -
  obtain target q r body where "parse_url callback = Some target"
    and q: "new_request ''GET'' (url_string (append_query target (encode_values form))) [] = Some q"
    and calls: "calls = [Get q (Some r)]"
    and body: "responseSnapshot r (MaxCallbackBody (h_config h)) ''intent verification''
      (Sentinel ErrVerificationFailed) = Inr body"
    and "200 \<le> rs_status r" "rs_status r < 300" "body = expected"
    using assms
    by (auto simp: sendCallback_def Let_def client_do_refuse
        split: option.splits prod.splits sum.splits if_splits)
  moreover from this assms(3,4) have "rd_data (rs_body r) = expected"
    using responseSnapshot_body by blast
  ultimately show ?thesis
    by (auto simp: challenged_def callback_request_def new_request_iff)
qed

section \<open>Runs\<close>

lemma add_calls_simps [simp]:
  "run_calls (add_calls cs r) = cs @ run_calls r" "run_state (add_calls cs r) = run_state r"
  "run_panicked (add_calls cs r) = run_panicked r"
  by (simp_all add: add_calls_def)

lemma run_end_simps [simp]:
  "run_calls (run_end s cs) = cs" "run_state (run_end s cs) = s" "\<not> run_panicked (run_end s cs)"
  by (simp_all add: run_end_def)

definition only_gets :: "call list \<Rightarrow> bool" where
  "only_gets cs \<longleftrightarrow> (\<forall>c \<in> set cs. \<exists>q r. c = Get q r) \<and> length cs \<le> 1"

lemma sendStatusNotification_gets:
  assumes "cl_check_redirect (h_client h) = UseLastResponse"
  shows "only_gets (snd (sendStatusNotification h env s callback m topic why))"
  using assms sendCallback_calls
  by (fastforce simp: sendStatusNotification_def Let_def only_gets_def split: prod.splits)

lemma after_verified_gets:
  "cl_check_redirect (h_client h) = UseLastResponse \<Longrightarrow>
     only_gets (run_calls (after_verified h env s callback topic err))
     \<and> \<not> run_panicked (after_verified h env s callback topic err)"
  using sendStatusNotification_gets [of h env s callback "''hub-error''" topic "''verified callback failed''"]
  by (auto simp: after_verified_def only_gets_def split: prod.splits)

lemma handleValidationFailure_gets:
  "cl_check_redirect (h_client h) = UseLastResponse \<Longrightarrow>
     only_gets (run_calls (handleValidationFailure h env s callback topic err))"
  using sendStatusNotification_gets [of h env s callback]
  by (auto simp: handleValidationFailure_def only_gets_def split: prod.splits option.splits)
    (metis snd_conv)+

lemma handleValidationFailure_panics:
  "run_panicked (handleValidationFailure h env s callback topic err) \<longleftrightarrow> errors_as_denied err = Some None"
  by (simp add: handleValidationFailure_def split: option.split prod.split)

lemma only_gets_no_verified:
  "only_gets cs \<Longrightarrow> VerifiedSub v \<notin> set cs" "only_gets cs \<Longrightarrow> VerifiedUnsub u \<notin> set cs"
  by (auto simp: only_gets_def)

text \<open>The random source fills the array: 32 bytes.\<close>

definition fills_array :: "'s env \<Rightarrow> bool" where
  "fills_array env \<longleftrightarrow> (\<forall>s s' bs. env_rand env s = (s', Some bs) \<longrightarrow> length bs = 32)"

definition shows_intent ::
    "call list \<Rightarrow> call \<Rightarrow> string \<Rightarrow> (string \<Rightarrow> url_values) \<Rightarrow> bool" where
  "shows_intent calls verified callback form \<longleftrightarrow>
     (\<exists>pre post q r challenge. calls = pre @ [Get q (Some r), verified] @ post
        \<and> length challenge = 43 \<and> challenged callback (form challenge) challenge q r)"

lemma newChallenge_43: "newChallenge random = Inr c \<Longrightarrow> (\<And>bs. random = Some bs \<Longrightarrow> length bs = 32) \<Longrightarrow> length c = 43"
  by (cases random) (auto intro: challenge_length simp: newChallenge_def)

lemma finish_subscription_calls:
  assumes "cl_check_redirect (h_client h) = UseLastResponse"
  shows "\<exists>post. run_calls (finish_subscription h env job m lease started s) =
      VerifiedSub \<lparr>vs_subscription = cloneSubscription m, vs_effective_lease = lease, vs_lease_started = started\<rparr> # post
    \<and> only_gets post"
  using after_verified_gets [OF assms]
  by (auto simp: finish_subscription_def Let_def split: prod.split)

lemma finish_unsubscription_calls:
  assumes "cl_check_redirect (h_client h) = UseLastResponse"
  shows "\<exists>post. run_calls (finish_unsubscription h env job m s) =
      VerifiedUnsub \<lparr>vu_unsubscription = cloneUnsubscription m\<rparr> # post \<and> only_gets post"
  using after_verified_gets [OF assms]
  by (auto simp: finish_unsubscription_def Let_def split: prod.split)

text \<open>The middle of both runs: what follows a successful verification is reached only
  through it.\<close>

lemma intent_run:
  assumes refuse: "cl_check_redirect (h_client h) = UseLastResponse"
    and limit: "in_int64 (MaxCallbackBody (h_config h))"
    and len: "\<And>bs. random = Some bs \<Longrightarrow> length bs = 32"
    and fin: "\<And>s. \<exists>post. run_calls (fin s) = verified # post \<and> only_gets post"
    and run: "run = (case newChallenge random of
         Inl _ \<Rightarrow> run_end s []
       | Inr challenge \<Rightarrow>
           (case verifyIntent h env s callback (form challenge) challenge of
              (s', calls, Some _) \<Rightarrow> run_end s' calls
            | (s', calls, None) \<Rightarrow> add_calls calls (fin s')))"
    and x: "x \<in> set (run_calls run)" "\<not> only_gets [x]"
  shows "x = verified \<and> shows_intent (run_calls run) verified callback form"
proof -
  obtain challenge where ch: "newChallenge random = Inr challenge"
    using run x by (cases "newChallenge random") auto
  then have l43: "length challenge = 43" using newChallenge_43 len by blast
  obtain s' calls err where sc: "sendCallback h env s callback (form challenge) challenge = (s', calls, err)"
    using prod_cases3 by blast
  have calls: "run_calls run = (if err = None then calls @ run_calls (fin s') else calls)"
    using run ch sc by (auto simp: verifyIntent_def split: option.split)
  have "y \<in> set calls \<Longrightarrow> only_gets [y]" for y
    using sendCallback_calls [OF sc refuse] by (auto simp: only_gets_def)
  with calls x have none: "err = None" by (auto split: if_splits)
  then obtain q r where qr: "calls = [Get q (Some r)]" "challenged callback (form challenge) challenge q r"
    using sendCallback_ok [of h env s callback "form challenge" challenge s' calls] sc refuse limit l43 by fastforce
  obtain post where post: "run_calls (fin s') = verified # post" "only_gets post"
    using fin by blast
  have all: "run_calls run = [] @ [Get q (Some r), verified] @ post"
    using calls none qr(1) post(1) by simp
  moreover have "x = verified"
    using all x post(2) by (auto simp: only_gets_def)
  ultimately show ?thesis
    using qr(2) l43 unfolding shows_intent_def by blast
qed

lemma verified_not_get: "\<not> only_gets [VerifiedSub v]" "\<not> only_gets [VerifiedUnsub u]"
  by (simp_all add: only_gets_def)

lemma run_intent_subscribe_verified:
  assumes "handler_ok h" and "in_int64 (MaxCallbackBody (h_config h))" and "fills_array env"
    and v: "VerifiedSub v \<in> set (run_calls (run_intent_subscribe h env job m s))"
  shows "vs_subscription v = cloneSubscription m
    \<and> vs_effective_lease v = effective_lease (h_config h) (sub_lease_seconds m)
    \<and> (job_verified job
       \<or> shows_intent (run_calls (run_intent_subscribe h env job m s)) (VerifiedSub v) (sub_callback m)
           (\<lambda>challenge. subscribe_form m challenge (vs_effective_lease v)))"
proof -
  define lease where "lease = effective_lease (h_config h) (sub_lease_seconds m)"
  have refuse: "cl_check_redirect (h_client h) = UseLastResponse"
    using assms(1) by (simp add: handler_ok_def)
  obtain s1 started where now: "env_now env s = (s1, started)" by fastforce
  define vv where "vv = \<lparr>vs_subscription = cloneSubscription m, vs_effective_lease = lease, vs_lease_started = started\<rparr>"
  have fin: "\<exists>post. run_calls (finish_subscription h env job m lease started s) = VerifiedSub vv # post \<and> only_gets post" for s
    using finish_subscription_calls [OF refuse] by (simp add: vv_def)
  show ?thesis
  proof (cases "job_verified job")
    case True
    then have "run_calls (run_intent_subscribe h env job m s) = run_calls (finish_subscription h env job m lease started s1)"
      by (simp add: run_intent_subscribe_def Let_def now lease_def)
    with fin [of s1] v True show ?thesis
      by (auto dest: only_gets_no_verified simp: vv_def lease_def)
  next
    case False
    obtain s2 random where rand: "env_rand env s1 = (s2, random)" by fastforce
    with assms(3) have len: "random = Some bs \<Longrightarrow> length bs = 32" for bs
      by (auto simp: fills_array_def)
    have "VerifiedSub v = VerifiedSub vv
        \<and> shows_intent (run_calls (run_intent_subscribe h env job m s)) (VerifiedSub vv) (sub_callback m)
            (\<lambda>challenge. subscribe_form m challenge lease)"
      by (rule intent_run [where random = random and fin = "finish_subscription h env job m lease started"
            and s = s2 and env = env and h = h, OF refuse assms(2) len fin _ v verified_not_get(1)])
        (simp_all add: run_intent_subscribe_def Let_def now rand False lease_def [symmetric])
    then show ?thesis by (auto simp: vv_def lease_def)
  qed
qed

lemma run_intent_unsubscribe_verified:
  assumes "handler_ok h" and "in_int64 (MaxCallbackBody (h_config h))" and "fills_array env"
    and v: "VerifiedUnsub v \<in> set (run_calls (run_intent_unsubscribe h env job m s))"
  shows "vu_unsubscription v = cloneUnsubscription m
    \<and> (job_verified job
       \<or> shows_intent (run_calls (run_intent_unsubscribe h env job m s)) (VerifiedUnsub v) (unsub_callback m)
           (unsubscribe_form m))"
proof -
  have refuse: "cl_check_redirect (h_client h) = UseLastResponse"
    using assms(1) by (simp add: handler_ok_def)
  define vv where "vv = \<lparr>vu_unsubscription = cloneUnsubscription m\<rparr>"
  have fin: "\<exists>post. run_calls (finish_unsubscription h env job m s) = VerifiedUnsub vv # post \<and> only_gets post" for s
    using finish_unsubscription_calls [OF refuse] by (simp add: vv_def)
  show ?thesis
  proof (cases "job_verified job")
    case True
    with fin [of s] v show ?thesis
      by (auto dest: only_gets_no_verified simp: vv_def run_intent_unsubscribe_def)
  next
    case False
    obtain s2 random where rand: "env_rand env s = (s2, random)" by fastforce
    with assms(3) have len: "random = Some bs \<Longrightarrow> length bs = 32" for bs
      by (auto simp: fills_array_def)
    have "VerifiedUnsub v = VerifiedUnsub vv
        \<and> shows_intent (run_calls (run_intent_unsubscribe h env job m s)) (VerifiedUnsub vv)
            (unsub_callback m) (unsubscribe_form m)"
      by (rule intent_run [where random = random and fin = "finish_unsubscription h env job m"
            and s = s2 and env = env and h = h, OF refuse assms(2) len fin _ v verified_not_get(2)])
        (simp_all add: run_intent_unsubscribe_def rand False)
    then show ?thesis by (auto simp: vv_def)
  qed
qed

lemma shows_intent_Cons: "shows_intent calls v cb form \<Longrightarrow> shows_intent (c # calls) v cb form"
  unfolding shows_intent_def by (metis append_Cons)

text \<open>The three ways a run begins.\<close>

lemma runSubscription_begin:
  "runSubscription h env job s =
     (case OnSubscriptionValidation (h_service h) of
        None \<Rightarrow> run_intent_subscribe h env job (cloneSubscription (job_sub job)) s
      | Some f \<Rightarrow>
          (case call_validated f s (cloneSubscription (job_sub job)) (cloneMetadata (job_metadata job)) of
             (s', Some err) \<Rightarrow>
               add_calls [ValidateSub (cloneSubscription (job_sub job))]
                 (handleValidationFailure h env s' (sub_callback (job_sub job)) (sub_topic (job_sub job)) err)
           | (s', None) \<Rightarrow>
               add_calls [ValidateSub (cloneSubscription (job_sub job))]
                 (run_intent_subscribe h env job (cloneSubscription (job_sub job)) s')))"
  unfolding runSubscription_def Let_def clone_idem cloneSubscription_fields ..

lemma runUnsubscription_begin:
  "runUnsubscription h env job s =
     (case OnUnsubscriptionValidation (h_service h) of
        None \<Rightarrow> run_intent_unsubscribe h env job (cloneUnsubscription (job_unsub job)) s
      | Some f \<Rightarrow>
          (case call_validated f s (cloneUnsubscription (job_unsub job)) (cloneMetadata (job_metadata job)) of
             (s', Some err) \<Rightarrow>
               add_calls [ValidateUnsub (cloneUnsubscription (job_unsub job))]
                 (handleValidationFailure h env s' (unsub_callback (job_unsub job)) (unsub_topic (job_unsub job)) err)
           | (s', None) \<Rightarrow>
               add_calls [ValidateUnsub (cloneUnsubscription (job_unsub job))]
                 (run_intent_unsubscribe h env job (cloneUnsubscription (job_unsub job)) s')))"
  unfolding runUnsubscription_def Let_def clone_idem cloneUnsubscription_fields ..

lemma verified_run_cases:
  assumes "x \<in> set (run_calls run)" and "\<not> only_gets [x]" and "x \<noteq> c"
    and "cl_check_redirect (h_client h) = UseLastResponse"
    and "run = (case called of
             (s', Some err) \<Rightarrow> add_calls [c] (handleValidationFailure h env s' cb topic err)
           | (s', None) \<Rightarrow> add_calls [c] (rest s'))"
  obtains s' where "x \<in> set (run_calls (rest s'))" and "run_calls run = c # run_calls (rest s')"
proof -
  obtain s' err where called: "called = (s', err)" by fastforce
  have "err = None"
  proof (rule ccontr)
    assume "err \<noteq> None"
    then obtain e where "run = add_calls [c] (handleValidationFailure h env s' cb topic e)"
      using assms(5) called by auto
    then have "x \<in> set (run_calls (handleValidationFailure h env s' cb topic e))"
      using assms(1,3) by simp
    with handleValidationFailure_gets [OF assms(4)] assms(2) show False
      by (fastforce simp: only_gets_def)
  qed
  then have "run = add_calls [c] (rest s')" using assms(5) called by simp
  with assms(1,3) that show ?thesis by simp
qed

lemma runSubscription_verified:
  assumes "handler_ok h" and "in_int64 (MaxCallbackBody (h_config h))" and "fills_array env"
    and v: "VerifiedSub v \<in> set (run_calls (runSubscription h env job s))"
  shows "vs_subscription v = cloneSubscription (job_sub job)
    \<and> vs_effective_lease v = effective_lease (h_config h) (sub_lease_seconds (job_sub job))
    \<and> (job_verified job
       \<or> shows_intent (run_calls (runSubscription h env job s)) (VerifiedSub v) (sub_callback (job_sub job))
           (\<lambda>challenge. subscribe_form (job_sub job) challenge (vs_effective_lease v)))"
proof -
  let ?m = "cloneSubscription (job_sub job)"
  have refuse: "cl_check_redirect (h_client h) = UseLastResponse"
    using assms(1) by (simp add: handler_ok_def)
  have form: "subscribe_form ?m = subscribe_form (job_sub job)"
    by (simp add: subscribe_form_def fun_eq_iff)
  obtain s' where s': "VerifiedSub v \<in> set (run_calls (run_intent_subscribe h env job ?m s'))"
    and calls: "run_calls (runSubscription h env job s) = run_calls (run_intent_subscribe h env job ?m s')
      \<or> run_calls (runSubscription h env job s) = ValidateSub ?m # run_calls (run_intent_subscribe h env job ?m s')"
  proof (cases "OnSubscriptionValidation (h_service h)")
    case None
    with v that show ?thesis by (simp add: runSubscription_begin)
  next
    case (Some f)
    have eq: "runSubscription h env job s =
        (case call_validated f s ?m (cloneMetadata (job_metadata job)) of
           (s', Some err) \<Rightarrow> add_calls [ValidateSub ?m]
             (handleValidationFailure h env s' (sub_callback (job_sub job)) (sub_topic (job_sub job)) err)
         | (s', None) \<Rightarrow> add_calls [ValidateSub ?m] (run_intent_subscribe h env job ?m s'))"
      by (simp add: runSubscription_begin Some)
    show ?thesis
      by (rule verified_run_cases [OF v verified_not_get(1) _ refuse eq]) (use that in auto)
  qed
  from run_intent_subscribe_verified [OF assms(1-3) s'] calls show ?thesis
    unfolding form by (elim disjE) (simp_all add: shows_intent_Cons, (auto intro: shows_intent_Cons)?)
qed

lemma runUnsubscription_verified:
  assumes "handler_ok h" and "in_int64 (MaxCallbackBody (h_config h))" and "fills_array env"
    and v: "VerifiedUnsub v \<in> set (run_calls (runUnsubscription h env job s))"
  shows "vu_unsubscription v = cloneUnsubscription (job_unsub job)
    \<and> (job_verified job
       \<or> shows_intent (run_calls (runUnsubscription h env job s)) (VerifiedUnsub v)
           (unsub_callback (job_unsub job)) (unsubscribe_form (job_unsub job)))"
proof -
  let ?m = "cloneUnsubscription (job_unsub job)"
  have refuse: "cl_check_redirect (h_client h) = UseLastResponse"
    using assms(1) by (simp add: handler_ok_def)
  have form: "unsubscribe_form ?m = unsubscribe_form (job_unsub job)"
    by (simp add: unsubscribe_form_def fun_eq_iff)
  obtain s' where s': "VerifiedUnsub v \<in> set (run_calls (run_intent_unsubscribe h env job ?m s'))"
    and calls: "run_calls (runUnsubscription h env job s) = run_calls (run_intent_unsubscribe h env job ?m s')
      \<or> run_calls (runUnsubscription h env job s) = ValidateUnsub ?m # run_calls (run_intent_unsubscribe h env job ?m s')"
  proof (cases "OnUnsubscriptionValidation (h_service h)")
    case None
    with v that show ?thesis by (simp add: runUnsubscription_begin)
  next
    case (Some f)
    have eq: "runUnsubscription h env job s =
        (case call_validated f s ?m (cloneMetadata (job_metadata job)) of
           (s', Some err) \<Rightarrow> add_calls [ValidateUnsub ?m]
             (handleValidationFailure h env s' (unsub_callback (job_unsub job)) (unsub_topic (job_unsub job)) err)
         | (s', None) \<Rightarrow> add_calls [ValidateUnsub ?m] (run_intent_unsubscribe h env job ?m s'))"
      by (simp add: runUnsubscription_begin Some)
    show ?thesis
      by (rule verified_run_cases [OF v verified_not_get(2) _ refuse eq]) (use that in auto)
  qed
  from run_intent_unsubscribe_verified [OF assms(1-3) s'] calls show ?thesis
    unfolding form by (elim disjE) (simp_all, (auto intro: shows_intent_Cons)?)
qed

text \<open>A worker panics for one reason only: a validation callback returned a nil
  \<open>*DeniedError\<close>.\<close>

lemma finish_subscription_no_panic:
  "cl_check_redirect (h_client h) = UseLastResponse \<Longrightarrow>
     \<not> run_panicked (finish_subscription h env job m lease started s)"
  using after_verified_gets [of h] by (simp add: finish_subscription_def Let_def split: prod.split)

lemma run_intent_subscribe_no_panic:
  "cl_check_redirect (h_client h) = UseLastResponse \<Longrightarrow> \<not> run_panicked (run_intent_subscribe h env job m s)"
  by (simp add: run_intent_subscribe_def Let_def finish_subscription_no_panic
      split: prod.split sum.split option.split)

lemma runSubscription_panics:
  assumes "cl_check_redirect (h_client h) = UseLastResponse"
  shows "run_panicked (runSubscription h env job s) \<longleftrightarrow>
    (\<exists>f err. OnSubscriptionValidation (h_service h) = Some f
       \<and> snd (call_validated f s (cloneSubscription (job_sub job)) (cloneMetadata (job_metadata job))) = Some err
       \<and> errors_as_denied err = Some None)"
  using run_intent_subscribe_no_panic [OF assms]
  by (simp add: runSubscription_begin handleValidationFailure_panics split: option.split prod.split)

end
