(* ===== verification/CallbackQuery.thy ===== *)
theory CallbackQuery
  imports VerifyProps
begin

text \<open>
  What the subscriber reads in the query of a callback request: the query of the callback
  URL it gave, followed by the hub's parameters. The lemmas are about the two string
  functions in between, printing the URL with the extended query (\<open>url_string\<close>) and parsing
  it again, and about reading a query made of two parts.
\<close>

section \<open>Where the query is in a printed URL\<close>

lemma escape_byte_cases:
  "c \<in> set (escape_byte mode x) \<Longrightarrow> c = CHR ''+'' \<or> c = CHR ''%'' \<or> is_hex c \<or> c = x \<and> \<not> should_escape c mode"
  using is_hex_upper_hex [of x] by (auto simp: escape_byte_def split: if_splits)

lemma is_hex_safe: "is_hex c \<Longrightarrow> c \<noteq> CHR ''?'' \<and> c \<noteq> CHR ''#''"
  by (auto simp: is_hex_def is_digit_def)

lemma escape_no_special:
  assumes "mode \<in> {EncodePath, EncodeHost, EncodeQueryComponent}" and "c \<in> set (escape s mode)"
  shows "c \<noteq> CHR ''?'' \<and> c \<noteq> CHR ''#''"
proof -
  obtain x where "c \<in> set (escape_byte mode x)" using assms(2) by (auto simp: escape_def)
  then have "c = CHR ''+'' \<or> c = CHR ''%'' \<or> is_hex c \<or> \<not> should_escape c mode"
    using escape_byte_cases by blast
  moreover have "should_escape (CHR ''?'') mode" "should_escape (CHR ''#'') mode"
    using assms(1) by (auto simp: should_escape_def is_alnum_def is_upper_def is_lower_def is_digit_def)
  ultimately show ?thesis using is_hex_safe by auto
qed

lemma valid_encoded_no_special:
  assumes "valid_encoded raw EncodePath" and "c \<in> set raw"
  shows "c \<noteq> CHR ''?'' \<and> c \<noteq> CHR ''#''"
proof -
  have "c \<in> set (''!$&()*+,;=:@[]%'' @ [CHR 0x27]) \<or> \<not> should_escape c EncodePath"
    using assms unfolding valid_encoded_def list_all_iff by blast
  moreover have "should_escape (CHR ''?'') EncodePath" "should_escape (CHR ''#'') EncodePath"
    by code_simp+
  ultimately show ?thesis by auto
qed

lemma escaped_path_no_special:
  "CHR ''?'' \<notin> set (escaped_path u)" "CHR ''#'' \<notin> set (escaped_path u)"
  using valid_encoded_no_special [of "u_raw_path u"] escape_no_special [of EncodePath _ "u_path u"]
  by (auto simp: escaped_path_def escaped_component_def)

text \<open>The printed URL up to its query.\<close>

definition url_front :: "url \<Rightarrow> string" where
  "url_front u = url_string (u\<lparr>u_raw_query := [], u_force_query := False, u_fragment := []\<rparr>)"

lemma url_string_front:
  assumes "u_fragment u = []" and "u_raw_query u \<noteq> []"
  shows "url_string u = url_front u @ CHR ''?'' # u_raw_query u"
proof -
  have "escaped_path (u\<lparr>u_raw_query := [], u_force_query := False, u_fragment := []\<rparr>) = escaped_path u"
    "authority_string (u\<lparr>u_raw_query := [], u_force_query := False, u_fragment := []\<rparr>) = authority_string u"
    by (simp_all add: escaped_path_def authority_string_def)
  with assms show ?thesis by (simp add: url_front_def url_string_def Let_def)
qed

lemma url_front_no_special:
  assumes "http_url True rf u" and "u_opaque u = []"
  shows "CHR ''?'' \<notin> set (url_front u)" "CHR ''#'' \<notin> set (url_front u)"
  using assms escaped_path_no_special [of "u\<lparr>u_raw_query := [], u_force_query := False, u_fragment := []\<rparr>"]
    escape_no_special [of EncodeHost _ "u_host u"]
  by (auto simp: url_front_def url_string_def http_url_def authority_string_def Let_def)

section \<open>Parsing it again\<close>

lemma scheme_loop_split:
  assumes "scheme_loop raw acc s = Some (sch, rest)" and "raw = acc @ s" and "CHR ''?'' \<notin> set acc"
  shows "\<exists>pre. raw = pre @ rest \<and> CHR ''?'' \<notin> set pre"
  using assms
proof (induction raw acc s rule: scheme_loop.induct)
  case (2 raw acc c s)
  show ?case
  proof (cases "is_lower c \<or> is_upper c \<or> (is_digit c \<or> c \<in> set ''+-.'') \<and> acc \<noteq> []")
    case True
    then have "c \<noteq> CHR ''?''" by (auto simp: is_lower_def is_upper_def is_digit_def)
    with True 2 show ?thesis by (auto split: if_splits)
  next
    case False
    then show ?thesis using 2 by (auto split: if_splits intro: exI [of _ "[]"])
  qed
qed auto

lemma get_scheme_split: "get_scheme raw = Some (sch, rest) \<Longrightarrow> \<exists>pre. raw = pre @ rest \<and> CHR ''?'' \<notin> set pre"
  unfolding get_scheme_def by (erule scheme_loop_split) auto

lemma finish_path_query: "finish_path u rest = Some u' \<Longrightarrow> u_raw_query u' = u_raw_query u"
  by (auto simp: finish_path_def split: option.splits)

lemma parse_no_fragment_query:
  assumes "parse_no_fragment raw = Some u" and "raw \<noteq> ''*''"
  shows "\<exists>pre rest force front. raw = pre @ rest \<and> CHR ''?'' \<notin> set pre
    \<and> split_query rest = (force, front, u_raw_query u)"
proof -
  obtain sch rest where sch: "get_scheme raw = Some (sch, rest)"
    using assms by (auto simp: parse_no_fragment_def split: if_splits option.splits)
  obtain force front query where sq: "split_query rest = (force, front, query)"
    using prod_cases3 by blast
  have "u_raw_query u = query"
    using assms sch sq
    by (auto simp: parse_no_fragment_def Let_def dest!: finish_path_query
        split: if_splits option.splits prod.splits)
  with get_scheme_split [OF sch] sq show ?thesis by blast
qed

lemma split_query_front:
  assumes "CHR ''?'' \<notin> set front" and "query \<noteq> []"
  shows "split_query (front @ CHR ''?'' # query) = (False, front, query)"
proof -
  have "\<not> (last (front @ CHR ''?'' # query) = CHR ''?''
      \<and> length (filter (\<lambda>c. c = CHR ''?'') (front @ CHR ''?'' # query)) = 1)"
  proof
    assume *: "last (front @ CHR ''?'' # query) = CHR ''?''
      \<and> length (filter (\<lambda>c. c = CHR ''?'') (front @ CHR ''?'' # query)) = 1"
    then have "CHR ''?'' \<in> set query" using assms(2) last_in_set [of query] by simp
    moreover have "filter (\<lambda>c. c = CHR ''?'') query = []" using * by simp
    ultimately show False by (auto simp: filter_empty_conv)
  qed
  with assms(1) show ?thesis by (simp add: split_query_def)
qed

lemma parse_printed_query:
  assumes "parse_no_fragment (front @ CHR ''?'' # query) = Some u"
    and "CHR ''?'' \<notin> set front" and "query \<noteq> []"
  shows "u_raw_query u = query"
proof -
  have "front @ CHR ''?'' # query \<noteq> ''*''" by (cases front) auto
  then obtain pre rest force f where pre: "front @ CHR ''?'' # query = pre @ rest" "CHR ''?'' \<notin> set pre"
    and sq: "split_query rest = (force, f, u_raw_query u)"
    using parse_no_fragment_query [OF assms(1)] by blast
  obtain front' where "rest = front' @ CHR ''?'' # query" "CHR ''?'' \<notin> set front'"
  proof -
    have "length pre \<le> length front"
    proof (rule ccontr)
      assume "\<not> length pre \<le> length front"
      then have "(front @ CHR ''?'' # query) ! length front \<in> set pre"
        using pre(1) by (metis linorder_not_le nth_append nth_mem)
      with pre(2) show False by simp
    qed
    then have "rest = drop (length pre) front @ CHR ''?'' # query"
      using arg_cong [OF pre(1), of "drop (length pre)"] by simp
    with assms(2) that show ?thesis by (metis in_set_dropD)
  qed
  with sq assms(3) show ?thesis by (simp add: split_query_front)
qed

lemma parse_url_query_no_hash: "parse_url raw = Some u \<Longrightarrow> CHR ''#'' \<notin> set (u_raw_query u)"
proof -
  assume p: "parse_url raw = Some u"
  obtain front frag f where cut: "str_cut (CHR ''#'') raw = (front, frag, f)" using prod_cases3 by blast
  then have no: "CHR ''#'' \<notin> set front" by (rule str_cut_before)
  obtain u0 where u0: "parse_no_fragment front = Some u0" "u_raw_query u = u_raw_query u0"
    using p cut by (auto simp: parse_url_def split: option.splits if_splits)
  show ?thesis
  proof (cases "front = ''*''")
    case True
    moreover have "parse_no_fragment ''*'' = Some (empty_url\<lparr>u_path := ''*''\<rparr>)" by code_simp
    ultimately show ?thesis using u0 by (auto simp: empty_url_def)
  next
    case False
    obtain pre rest force fr where "front = pre @ rest" "split_query rest = (force, fr, u_raw_query u0)"
      using parse_no_fragment_query [OF u0(1) False] by blast
    then have "u_raw_query u0 = [] \<or> str_cut (CHR ''?'') rest = (fr, u_raw_query u0, True)"
      using str_cut_not_found [of "CHR ''?''" rest]
      by (auto simp: split_query_def split: if_splits prod.splits)
    then have "set (u_raw_query u0) \<subseteq> set rest"
      using str_cut_found [of "CHR ''?''" rest] by auto
    with \<open>front = pre @ rest\<close> have "set (u_raw_query u0) \<subseteq> set front" by auto
    with no u0(2) show ?thesis by auto
  qed
qed

lemma parse_url_opaque:
  "parse_url raw = Some u \<Longrightarrow> u_host u \<noteq> [] \<Longrightarrow> u_opaque u = []"
  by (auto simp: parse_url_def parse_no_fragment_def finish_path_def empty_url_def Let_def
      split: prod.splits option.splits if_splits)

section \<open>A query in two parts\<close>

lemma str_cut_append_found: "str_cut c q = (a, b, True) \<Longrightarrow> str_cut c (q @ r) = (a, b @ r, True)"
  by (induction q arbitrary: a) (auto split: if_splits prod.splits)

lemma parse_query_loop_append:
  "parse_query_loop (q @ CHR ''&'' # r) m err =
     (case parse_query_loop q m err of (m', err') \<Rightarrow> parse_query_loop r m' err')"
proof (induction "length q" arbitrary: q m err rule: less_induct)
  case less
  show ?case
  proof (cases "CHR ''&'' \<in> set q")
    case False
    then have "str_cut (CHR ''&'') (q @ CHR ''&'' # r) = (q, r, True)" "str_cut (CHR ''&'') q = (q, [], False)"
      by simp_all
    then show ?thesis
      by (cases "q = []"; subst (1 2) parse_query_loop.simps)
        (auto simp: parse_query_loop.simps [of "[]"] contains_byte_def split: prod.split option.split)
  next
    case True
    obtain key rest f where cut: "str_cut (CHR ''&'') q = (key, rest, f)" using prod_cases3 by blast
    then have f by (metis True str_cut_not_found)
    with cut have cut': "str_cut (CHR ''&'') (q @ CHR ''&'' # r) = (key, rest @ CHR ''&'' # r, True)"
      using str_cut_append_found [of "CHR ''&''" q key rest "CHR ''&'' # r"] by simp
    have q: "q \<noteq> []" using True by auto
    have IH: "parse_query_loop (rest @ CHR ''&'' # r) m' e = (case parse_query_loop rest m' e of (m', err') \<Rightarrow> parse_query_loop r m' err')" for m' e
      using less.hyps [of rest m' e] str_cut_shorter [OF cut q] by blast
    show ?thesis
      by (subst (1 2) parse_query_loop.simps)
        (simp add: cut cut' q IH split: prod.split option.split)
  qed
qed

text \<open>The values a query gives a key.\<close>

definition values_of :: "url_values \<Rightarrow> string \<Rightarrow> string list" where
  "values_of m k = (case map_get m k of None \<Rightarrow> [] | Some vs \<Rightarrow> vs)"

definition query_values :: "string \<Rightarrow> string \<Rightarrow> string list" where
  "query_values q k = values_of (fst (parse_query q)) k"

lemma values_of_append_all:
  "values_of (fold (\<lambda>(k, v). map_append k v) ps m) k = values_of m k @ map snd (filter (\<lambda>p. fst p = k) ps)"
proof -
  have "k \<notin> fst ` set ps \<Longrightarrow> filter (\<lambda>p. fst p = k) ps = []"
    by (auto simp: filter_empty_conv)
  then show ?thesis by (simp add: values_of_def map_get_append_all)
qed

lemma query_values_encode:
  assumes "map_ok form"
  shows "query_values (encode_values form) k = values_of form k"
  using sorted_pairs_of_key [OF assms, of k]
  by (simp add: query_values_def parse_query_def encode_values_def parse_query_loop_pairs
      values_of_append_all) (simp add: values_of_def)

lemma query_values_append:
  assumes "map_ok form"
  shows "query_values (q @ CHR ''&'' # encode_values form) k = query_values q k @ values_of form k"
proof -
  obtain m err where m: "parse_query_loop q [] False = (m, err)" by fastforce
  show ?thesis
    using sorted_pairs_of_key [OF assms, of k]
    by (simp add: query_values_def parse_query_def parse_query_loop_append m encode_values_def
        parse_query_loop_pairs values_of_append_all) (simp add: values_of_def)
qed

section \<open>The request a callback gets\<close>

lemma encode_values_no_hash: "CHR ''#'' \<notin> set (encode_values form)"
proof -
  have "CHR ''#'' \<notin> set (encode_pair p)" for p
    using escape_no_special [of EncodeQueryComponent "CHR ''#''"]
    by (auto simp: encode_pair_def query_escape_def)
  then have "CHR ''#'' \<notin> set (encode_pairs ps)" for ps
    by (induction ps rule: encode_pairs.induct) auto
  then show ?thesis by (simp add: encode_values_def)
qed

lemma encode_values_nonempty:
  assumes "map_get form k = Some (v # vs)"
  shows "encode_values form \<noteq> []"
proof -
  have "k \<in> fst ` set (sorted_pairs form)" using assms by (simp add: sorted_pairs_key)
  then have "sorted_pairs form \<noteq> []" by auto
  then show ?thesis by (cases "sorted_pairs form" rule: encode_pairs.cases) (simp_all add: encode_values_def)
qed

text \<open>A printed URL, where it parses again, has the query that was printed.\<close>

lemma printed_query:
  assumes "http_url True True t" "u_opaque t = []" "u_fragment t = []"
    and ne: "u_raw_query t \<noteq> []" and hash: "CHR ''#'' \<notin> set (u_raw_query t)"
    and sent: "parse_url (url_string t) = Some u"
  shows "u_raw_query u = u_raw_query t"
proof -
  have url: "url_string t = url_front t @ CHR ''?'' # u_raw_query t"
    using url_string_front [OF assms(3) ne] .
  note front = url_front_no_special [OF assms(1,2)]
  have "str_cut (CHR ''#'') (url_string t) = (url_string t, [], False)"
    using hash front(2) by (simp add: url)
  with sent have "parse_no_fragment (url_string t) = Some u"
    by (simp add: parse_url_def split: option.splits)
  then show ?thesis
    using parse_printed_query front(1) ne by (simp add: url)
qed

text \<open>The values the subscriber reads under any key: those of its own query, then the hub's.\<close>

lemma callback_request_values:
  assumes q: "callback_request callback form q"
    and target: "parse_url callback = Some target" "http_url True True target"
    and sent: "parse_url (hr_url q) = Some u"
    and form: "map_ok form" "map_get form k0 = Some (v0 # vs0)"
  shows "query_values (u_raw_query u) k = query_values (u_raw_query target) k @ values_of form k"
proof -
  let ?t = "append_query target (encode_values form)"
  have opaque: "u_opaque target = []"
    using parse_url_opaque [OF target(1)] target(2) by (simp add: http_url_def)
  have t: "http_url True True ?t" "u_opaque ?t = []" "u_fragment ?t = []"
    using target(2) opaque by (simp_all add: append_query_def http_url_def)
  have ne: "u_raw_query ?t \<noteq> []"
    using encode_values_nonempty [OF form(2)] by (simp add: append_query_def)
  have "CHR ''#'' \<notin> set (u_raw_query ?t)"
    using parse_url_query_no_hash [OF target(1)] encode_values_no_hash by (auto simp: append_query_def)
  moreover have "hr_url q = url_string ?t"
    using q target(1) by (simp add: callback_request_def)
  ultimately have "u_raw_query u = u_raw_query ?t"
    using printed_query [OF t ne] sent by simp
  then show ?thesis
    using query_values_append [OF form(1)] query_values_encode [OF form(1)]
    by (simp add: append_query_def) (simp add: query_values_def values_of_def parse_query_def parse_query_loop.simps)
qed

end
