(* ===== verification/Instances.thy ===== *)
theory Instances
  imports ServeProps CallbackQuery
begin

text \<open>
  A concrete handler, application and outside world, on which the properties are
  instantiated: an application that counts the callbacks it gets, a subscriber that echoes
  the challenge, a random source that fills its array.
\<close>

definition sample_config :: config where
  "sample_config =
     \<lparr>HubURL = ''http://hub/'', DefaultLease = 0, MaxLease = 0, MaxRequestBody = 0,
      MaxCallbackBody = 0, VerificationTimeout = 0, VerificationWorkers = 0, VerificationQueue = 0,
      HTTPClient = None, cfg_logger = False, AllowExternalVerification = False,
      EnablePublisherExtension = True, EnableHubErrorCallback = False\<rparr>"

definition counting_service :: "nat service" where
  "counting_service =
     \<lparr>OnRegisterTopic = Some (\<lambda>n _ _. (Suc n, Returned (zero_result, None))),
      OnDeregisterTopic = Some (\<lambda>n _ _. (Suc n, Returned (zero_result, None))),
      OnUpdateMessage = Some (\<lambda>n _ _. (Suc n, Returned (zero_result, None))),
      OnSubscription = None, OnSubscriptionValidation = None,
      OnSubscriptionVerified = Some (\<lambda>n _ _. (Suc n, Returned None)),
      OnUnsubscription = None, OnUnsubscriptionValidation = None,
      OnUnsubscriptionVerified = Some (\<lambda>n _ _. (Suc n, Returned None))\<rparr>"

definition sample_handler :: "nat handler" where
  "sample_handler =
     \<lparr>h_config = with_defaults sample_config, h_service = counting_service,
      h_client = newHTTPClient None (VerificationTimeout (with_defaults sample_config))\<rparr>"

lemma normalize_sample: "normalizeConfig sample_config = Inr (with_defaults sample_config)"
  by code_simp

lemma NewHandler_sample: "NewHandler sample_config counting_service = Inr sample_handler"
  unfolding NewHandler_def normalize_sample
  by (simp add: sample_handler_def counting_service_def with_defaults_def sample_config_def)

lemma handler_ok_sample: "handler_ok sample_handler"
  using NewHandler_sample by (rule NewHandler_ok)

definition echo_env :: "nat env" where
  "echo_env =
     \<lparr>env_rt = (\<lambda>n q. (n, case parse_url (hr_url q) of
        None \<Rightarrow> None
      | Some u \<Rightarrow> Some \<lparr>rs_status = 200, rs_header = [],
          rs_body = \<lparr>rd_data = concat (query_values (u_raw_query u) ''hub.challenge''), rd_err = False\<rparr>\<rparr>)),
      env_rand = (\<lambda>n. (n, Some (replicate 32 (CHR ''A'')))),
      env_now = (\<lambda>n. (n, 7))\<rparr>"

lemma fills_array_echo: "fills_array echo_env"
  by (auto simp: fills_array_def echo_env_def)

definition sample_body :: string where
  "sample_body = ''hub.mode=subscribe&hub.topic=http://t/a&hub.callback=http://c/%257Ex?y=1&hub.secret=s&z=2''"

definition form_request :: "string \<Rightarrow> request" where
  "form_request body =
     \<lparr>rq_method = ''POST'', rq_header = [(''Content-Type'', [form_type])], rq_raw_query = [],
      rq_body = \<lparr>rd_data = body, rd_err = False\<rparr>, rq_remote_addr = ''1.2.3.4:5''\<rparr>"

definition sample_subscription :: subscription where
  "sample_subscription =
     \<lparr>sub_hub = ''http://hub/'', sub_mode = ModeSubscribe, sub_callback = ''http://c/~x?y=1'',
      sub_topic = ''http://t/a'', sub_lease_seconds = ''60'', sub_secret = ''s'',
      sub_parameters = Some [(''z'', [''2''])]\<rparr>"

definition sample_job :: verification_job where
  "sample_job =
     \<lparr>job_mode = ModeSubscribe, job_sub = sample_subscription, job_unsub = zero_unsubscription,
      job_metadata = \<lparr>md_header = None, md_remote_addr = []\<rparr>, job_verified = False\<rparr>"

definition sample_unsubscription :: unsubscription where
  "sample_unsubscription =
     \<lparr>unsub_mode = ModeUnsubscribe, unsub_callback = ''http://c/~x?y=1'', unsub_topic = ''http://t/a'',
      unsub_secret = [], unsub_parameters = None\<rparr>"

definition sample_unsub_job :: verification_job where
  "sample_unsub_job =
     \<lparr>job_mode = ModeUnsubscribe, job_sub = zero_subscription, job_unsub = sample_unsubscription,
      job_metadata = \<lparr>md_header = None, md_remote_addr = []\<rparr>, job_verified = False\<rparr>"

text \<open>Reading one event of a trace, one call of a run.\<close>

lemma admitted_in_trace:
  assumes "list_ex (\<lambda>e. case e of Admitted job \<Rightarrow> P job | _ \<Rightarrow> False) es"
  shows "\<exists>job. Admitted job \<in> set es \<and> P job"
proof -
  obtain e where *: "e \<in> set es" "case e of Admitted job \<Rightarrow> P job | _ \<Rightarrow> False"
    using assms by (auto simp: list_ex_iff)
  show ?thesis by (cases e) (use * in auto)
qed

lemma verified_in_calls:
  assumes "list_ex (\<lambda>c. case c of VerifiedSub v \<Rightarrow> P v | _ \<Rightarrow> False) cs"
  shows "\<exists>v. VerifiedSub v \<in> set cs \<and> P v"
proof -
  obtain c where *: "c \<in> set cs" "case c of VerifiedSub v \<Rightarrow> P v | _ \<Rightarrow> False"
    using assms by (auto simp: list_ex_iff)
  show ?thesis by (cases c) (use * in auto)
qed

lemma unverified_in_calls:
  assumes "list_ex (\<lambda>c. case c of VerifiedUnsub v \<Rightarrow> P v | _ \<Rightarrow> False) cs"
  shows "\<exists>v. VerifiedUnsub v \<in> set cs \<and> P v"
proof -
  obtain c where *: "c \<in> set cs" "case c of VerifiedUnsub v \<Rightarrow> P v | _ \<Rightarrow> False"
    using assms by (auto simp: list_ex_iff)
  show ?thesis by (cases c) (use * in auto)
qed

end
