(* ===== verification/Discovery.thy ===== *)
theory Discovery
  imports Helpers
begin

text \<open>
  \<open>discovery.go\<close>: \<open>AddDiscoveryLinks\<close> appends the self link and the hub links to the
  caller's header, or leaves it alone and returns an error. The header is a Go map that the
  function writes to: the result is the error and the map afterwards.
\<close>

fun validate_hubs :: "string list \<Rightarrow> error option" where
  "validate_hubs [] = None"
| "validate_hubs (hub # hubs) =
     (case validateHTTPURL hub ''hub URL'' True True of
        Inl e \<Rightarrow> Some e
      | Inr _ \<Rightarrow> validate_hubs hubs)"

definition AddDiscoveryLinks ::
    "header option \<Rightarrow> string \<Rightarrow> string list \<Rightarrow> error option \<times> header option" where
  "AddDiscoveryLinks header self hubs =
     (case header of
        None \<Rightarrow> (Some (invalidRequest ''header must not be nil''), None)
      | Some h \<Rightarrow>
          (case validateHTTPURL self ''self URL'' False False of
             Inl e \<Rightarrow> (Some e, Some h)
           | Inr _ \<Rightarrow>
               if hubs = [] then (Some (invalidRequest ''at least one hub URL is required''), Some h)
               else case validate_hubs hubs of
                      Some e \<Rightarrow> (Some e, Some h)
                    | None \<Rightarrow>
                        (None, Some (fold (\<lambda>hub. header_add ''Link'' (encodedLink hub ''hub'')) hubs
                           (header_add ''Link'' (encodedLink self ''self'') h)))))"

lemma validate_hubs_iff:
  "validate_hubs hubs = None \<longleftrightarrow> (\<forall>hub \<in> set hubs. \<exists>u. validateHTTPURL hub ''hub URL'' True True = Inr u)"
  by (induction hubs) (auto split: sum.splits)

text \<open>Success: the old \<open>Link\<close> values, the self link, the hubs in order; other names untouched.\<close>

lemma header_values_links:
  "header_values (fold (\<lambda>hub. header_add ''Link'' (encodedLink hub ''hub'')) hubs h) k =
     header_values h k @ (if canonical_key k = canonical_key ''Link''
       then map (\<lambda>hub. encodedLink hub ''hub'') hubs else [])"
  by (induction hubs arbitrary: h) (simp_all add: header_values_add)

lemma AddDiscoveryLinks_ok:
  assumes "AddDiscoveryLinks (Some h) self hubs = (None, h')"
  shows "\<exists>m. h' = Some m \<and> (\<forall>k. header_values m k =
    (if canonical_key k = canonical_key ''Link''
     then header_values h k @ encodedLink self ''self'' # map (\<lambda>hub. encodedLink hub ''hub'') hubs
     else header_values h k))"
  using assms
  by (auto simp: AddDiscoveryLinks_def header_values_links header_values_add
      split: sum.splits if_splits option.splits)

lemma AddDiscoveryLinks_error: "AddDiscoveryLinks h self hubs = (Some e, h') \<Longrightarrow> h' = h"
  by (auto simp: AddDiscoveryLinks_def split: option.splits sum.splits if_splits)

lemma AddDiscoveryLinks_accepts_iff:
  "fst (AddDiscoveryLinks (Some h) self hubs) = None \<longleftrightarrow>
     (\<exists>u. validateHTTPURL self ''self URL'' False False = Inr u) \<and> hubs \<noteq> []
     \<and> (\<forall>hub \<in> set hubs. \<exists>u. validateHTTPURL hub ''hub URL'' True True = Inr u)"
  using validate_hubs_iff [of hubs]
  by (auto simp: AddDiscoveryLinks_def split: option.splits sum.splits)

lemmas discovery_eval [go_eval] = AddDiscoveryLinks_def

end
