(* ===== verification/Lifecycle.thy ===== *)
theory Lifecycle
  imports Dispatch
begin

text \<open>
  The concurrent life of a handler: admission, the start gates, the workers, and \<open>Close\<close>
  with its background goroutine (\<open>admit\<close>, \<open>worker\<close>, \<open>runJob\<close>, \<open>Close\<close> and the end of
  \<open>serveSubscription\<close> of \<open>handler.go\<close>), as a transition system. \<open>exec a s\<close> is one action of
  one goroutine, \<open>None\<close> where it is blocked; \<open>reachable\<close> are the states of all interleavings.

  A job is a pair of the identity of its start gate and its content. A request goroutine
  goes through \<open>Admit\<close>, \<open>Answer\<close> and \<open>OpenGate\<close>, in the order of the trace of \<open>ServeHTTP\<close>.
  Running a job is any time between \<open>JobStart\<close> and \<open>JobEnd\<close>. A \<open>Close\<close> call whose context
  ends does \<open>CloseExpire\<close>, cancels the root context and drains the queue. \<open>rootCancel\<close> after
  \<open>jobsWG.Wait\<close>, and \<open>close(closeDone)\<close> after \<open>workersWG.Wait\<close>, are one action with the wait
  they follow. \<open>lc_started\<close> records the order in which jobs were started.
\<close>

datatype gate = Unanswered | Answered | Opened

datatype 'j worker =
  Selecting | Holding nat 'j | Running nat 'j | Releasing nat 'j | Exited

datatype closer = NotStarted | WaitJobs | WaitWorkers | Finished

datatype close_call = NotCalled | Waiting | Draining | ReturnedNil | ReturnedErr

record 'j lifecycle =
  lc_adm :: "(nat \<times> 'j) admission_state"
  lc_gates :: "gate list"
  lc_started :: "nat list"
  lc_workers :: "'j worker list"
  lc_workers_wg :: int
  lc_cancelled :: bool
  lc_closer :: closer
  lc_done :: bool
  lc_closes :: "close_call list"

datatype 'j action =
    Admit 'j | Answer nat | OpenGate nat
  | WorkerExit nat | WorkerTake nat | JobStart nat | JobSkip nat | JobEnd nat | WorkerRelease nat
  | CloseCall nat | CloserJobs | CloserWorkers
  | CloseReturn nat | CloseExpire nat | Drain nat | DrainEnd nat

definition worker_is :: "'j lifecycle \<Rightarrow> nat \<Rightarrow> 'j worker \<Rightarrow> bool" where
  "worker_is s w x \<longleftrightarrow> w < length (lc_workers s) \<and> lc_workers s ! w = x"

definition close_is :: "'j lifecycle \<Rightarrow> nat \<Rightarrow> close_call \<Rightarrow> bool" where
  "close_is s c x \<longleftrightarrow> c < length (lc_closes s) \<and> lc_closes s ! c = x"

definition gate_is :: "'j lifecycle \<Rightarrow> nat \<Rightarrow> gate \<Rightarrow> bool" where
  "gate_is s g x \<longleftrightarrow> g < length (lc_gates s) \<and> lc_gates s ! g = x"

definition put_worker :: "nat \<Rightarrow> 'j worker \<Rightarrow> 'j lifecycle \<Rightarrow> 'j lifecycle" where
  "put_worker w x s = s\<lparr>lc_workers := (lc_workers s)[w := x]\<rparr>"

definition put_close :: "nat \<Rightarrow> close_call \<Rightarrow> 'j lifecycle \<Rightarrow> 'j lifecycle" where
  "put_close c x s = s\<lparr>lc_closes := (lc_closes s)[c := x]\<rparr>"

definition jobs_done :: "'j lifecycle \<Rightarrow> 'j lifecycle" where
  "jobs_done s = s\<lparr>lc_adm := (lc_adm s)\<lparr>ad_wg := ad_wg (lc_adm s) - 1\<rparr>\<rparr>"

definition put_jobs :: "(nat \<times> 'j) list \<Rightarrow> 'j lifecycle \<Rightarrow> 'j lifecycle" where
  "put_jobs js s = s\<lparr>lc_adm := (lc_adm s)\<lparr>ad_jobs := js\<rparr>\<rparr>"

text \<open>A request goroutine.\<close>

definition exec_admit :: "'j \<Rightarrow> 'j lifecycle \<Rightarrow> 'j lifecycle option" where
  "exec_admit j s =
     (case admit (length (lc_gates s), j) (lc_adm s) of
        (admitted, adm) \<Rightarrow>
          if admitted then Some (s\<lparr>lc_adm := adm, lc_gates := lc_gates s @ [Unanswered]\<rparr>) else None)"

definition exec_gate :: "nat \<Rightarrow> gate \<Rightarrow> gate \<Rightarrow> 'j lifecycle \<Rightarrow> 'j lifecycle option" where
  "exec_gate g from_gate to_gate s =
     (if gate_is s g from_gate then Some (s\<lparr>lc_gates := (lc_gates s)[g := to_gate]\<rparr>) else None)"

text \<open>The loop of \<open>worker\<close> with the first \<open>select\<close> of \<open>runJob\<close>.\<close>

definition exec_exit :: "nat \<Rightarrow> 'j lifecycle \<Rightarrow> 'j lifecycle option" where
  "exec_exit w s =
     (if worker_is s w Selecting \<and> lc_cancelled s
      then Some (put_worker w Exited (s\<lparr>lc_workers_wg := lc_workers_wg s - 1\<rparr>)) else None)"

definition exec_take :: "nat \<Rightarrow> 'j lifecycle \<Rightarrow> 'j lifecycle option" where
  "exec_take w s =
     (case ad_jobs (lc_adm s) of
        (g, j) # js \<Rightarrow>
          if worker_is s w Selecting then Some (put_worker w (Holding g j) (put_jobs js s)) else None
      | [] \<Rightarrow> None)"

definition exec_start :: "nat \<Rightarrow> 'j lifecycle \<Rightarrow> 'j lifecycle option" where
  "exec_start w s =
     (if w < length (lc_workers s) then
        (case lc_workers s ! w of
           Holding g j \<Rightarrow>
             if gate_is s g Opened
             then Some (put_worker w (Running g j) (s\<lparr>lc_started := lc_started s @ [g]\<rparr>)) else None
         | _ \<Rightarrow> None)
      else None)"

definition exec_skip :: "nat \<Rightarrow> 'j lifecycle \<Rightarrow> 'j lifecycle option" where
  "exec_skip w s =
     (if w < length (lc_workers s) then
        (case lc_workers s ! w of
           Holding g j \<Rightarrow> if lc_cancelled s then Some (put_worker w (Releasing g j) s) else None
         | _ \<Rightarrow> None)
      else None)"

definition exec_end :: "nat \<Rightarrow> 'j lifecycle \<Rightarrow> 'j lifecycle option" where
  "exec_end w s =
     (if w < length (lc_workers s) then
        (case lc_workers s ! w of
           Running g j \<Rightarrow> Some (put_worker w (Releasing g j) s)
         | _ \<Rightarrow> None)
      else None)"

definition exec_release :: "nat \<Rightarrow> 'j lifecycle \<Rightarrow> 'j lifecycle option" where
  "exec_release w s =
     (if w < length (lc_workers s) then
        (case lc_workers s ! w of
           Releasing g j \<Rightarrow> Some (put_worker w Selecting (jobs_done s))
         | _ \<Rightarrow> None)
      else None)"

text \<open>\<open>Close\<close>: the body of \<open>closeOnce.Do\<close>, the background goroutine, the two \<open>select\<close>s.\<close>

definition exec_close :: "nat \<Rightarrow> 'j lifecycle \<Rightarrow> 'j lifecycle option" where
  "exec_close c s =
     (if close_is s c NotCalled then
        Some (put_close c Waiting
          (if lc_closer s = NotStarted
           then s\<lparr>lc_adm := (lc_adm s)\<lparr>ad_closed := True\<rparr>, lc_closer := WaitJobs\<rparr> else s))
      else None)"

definition exec_closer_jobs :: "'j lifecycle \<Rightarrow> 'j lifecycle option" where
  "exec_closer_jobs s =
     (if lc_closer s = WaitJobs \<and> ad_wg (lc_adm s) = 0
      then Some (s\<lparr>lc_cancelled := True, lc_closer := WaitWorkers\<rparr>) else None)"

definition exec_closer_workers :: "'j lifecycle \<Rightarrow> 'j lifecycle option" where
  "exec_closer_workers s =
     (if lc_closer s = WaitWorkers \<and> lc_workers_wg s = 0
      then Some (s\<lparr>lc_closer := Finished, lc_done := True\<rparr>) else None)"

definition exec_return :: "nat \<Rightarrow> 'j lifecycle \<Rightarrow> 'j lifecycle option" where
  "exec_return c s =
     (if close_is s c Waiting \<and> lc_done s then Some (put_close c ReturnedNil s) else None)"

definition exec_expire :: "nat \<Rightarrow> 'j lifecycle \<Rightarrow> 'j lifecycle option" where
  "exec_expire c s =
     (if close_is s c Waiting then Some (put_close c Draining (s\<lparr>lc_cancelled := True\<rparr>)) else None)"

definition exec_drain :: "nat \<Rightarrow> 'j lifecycle \<Rightarrow> 'j lifecycle option" where
  "exec_drain c s =
     (case ad_jobs (lc_adm s) of
        _ # js \<Rightarrow> if close_is s c Draining then Some (jobs_done (put_jobs js s)) else None
      | [] \<Rightarrow> None)"

definition exec_drain_end :: "nat \<Rightarrow> 'j lifecycle \<Rightarrow> 'j lifecycle option" where
  "exec_drain_end c s =
     (if close_is s c Draining \<and> ad_jobs (lc_adm s) = [] then Some (put_close c ReturnedErr s) else None)"

fun exec :: "'j action \<Rightarrow> 'j lifecycle \<Rightarrow> 'j lifecycle option" where
  "exec (Admit j) s = exec_admit j s"
| "exec (Answer g) s = exec_gate g Unanswered Answered s"
| "exec (OpenGate g) s = exec_gate g Answered Opened s"
| "exec (WorkerExit w) s = exec_exit w s"
| "exec (WorkerTake w) s = exec_take w s"
| "exec (JobStart w) s = exec_start w s"
| "exec (JobSkip w) s = exec_skip w s"
| "exec (JobEnd w) s = exec_end w s"
| "exec (WorkerRelease w) s = exec_release w s"
| "exec (CloseCall c) s = exec_close c s"
| "exec CloserJobs s = exec_closer_jobs s"
| "exec CloserWorkers s = exec_closer_workers s"
| "exec (CloseReturn c) s = exec_return c s"
| "exec (CloseExpire c) s = exec_expire c s"
| "exec (Drain c) s = exec_drain c s"
| "exec (DrainEnd c) s = exec_drain_end c s"

text \<open>A new handler with its workers, and \<open>n\<close> goroutines that may call \<open>Close\<close>.\<close>

definition initial :: "nat \<Rightarrow> nat \<Rightarrow> nat \<Rightarrow> 'j lifecycle" where
  "initial capacity workers n =
     \<lparr>lc_adm = \<lparr>ad_closed = False, ad_jobs = [], ad_capacity = capacity, ad_wg = 0\<rparr>,
      lc_gates = [], lc_started = [], lc_workers = replicate workers Selecting,
      lc_workers_wg = int workers, lc_cancelled = False, lc_closer = NotStarted, lc_done = False,
      lc_closes = replicate n NotCalled\<rparr>"

inductive reachable :: "nat \<Rightarrow> nat \<Rightarrow> nat \<Rightarrow> 'j lifecycle \<Rightarrow> bool"
  for capacity workers n where
  reachable_initial: "reachable capacity workers n (initial capacity workers n)"
| reachable_step: "reachable capacity workers n s \<Longrightarrow> exec a s = Some s' \<Longrightarrow> reachable capacity workers n s'"

inductive_simps reachable_iff: "reachable capacity workers n s"

lemmas exec_defs = exec_admit_def exec_gate_def exec_exit_def exec_take_def exec_start_def
  exec_skip_def exec_end_def exec_release_def exec_close_def exec_closer_jobs_def
  exec_closer_workers_def exec_return_def exec_expire_def exec_drain_def exec_drain_end_def

lemmas update_defs = put_worker_def put_close_def jobs_done_def put_jobs_def

lemmas is_defs = worker_is_def close_is_def gate_is_def

text \<open>How the updates act on the three views.\<close>

lemma worker_is_updates [simp]:
  "worker_is (put_worker w x s) w' y \<longleftrightarrow>
     (if w' = w then w < length (lc_workers s) \<and> x = y else worker_is s w' y)"
  "worker_is (put_close c z s) = worker_is s" "worker_is (jobs_done s) = worker_is s"
  "worker_is (put_jobs js s) = worker_is s"
  "worker_is (s\<lparr>lc_adm := adm\<rparr>) = worker_is s" "worker_is (s\<lparr>lc_gates := gs\<rparr>) = worker_is s"
  "worker_is (s\<lparr>lc_started := st\<rparr>) = worker_is s" "worker_is (s\<lparr>lc_workers_wg := n\<rparr>) = worker_is s"
  "worker_is (s\<lparr>lc_cancelled := b\<rparr>) = worker_is s" "worker_is (s\<lparr>lc_closer := p\<rparr>) = worker_is s"
  "worker_is (s\<lparr>lc_done := b\<rparr>) = worker_is s"
  by (auto simp: worker_is_def update_defs fun_eq_iff)

lemma close_is_updates [simp]:
  "close_is (put_close c x s) c' y \<longleftrightarrow>
     (if c' = c then c < length (lc_closes s) \<and> x = y else close_is s c' y)"
  "close_is (put_worker w z s) = close_is s" "close_is (jobs_done s) = close_is s"
  "close_is (put_jobs js s) = close_is s"
  "close_is (s\<lparr>lc_adm := adm\<rparr>) = close_is s" "close_is (s\<lparr>lc_gates := gs\<rparr>) = close_is s"
  "close_is (s\<lparr>lc_started := st\<rparr>) = close_is s" "close_is (s\<lparr>lc_workers_wg := n\<rparr>) = close_is s"
  "close_is (s\<lparr>lc_cancelled := b\<rparr>) = close_is s" "close_is (s\<lparr>lc_closer := p\<rparr>) = close_is s"
  "close_is (s\<lparr>lc_done := b\<rparr>) = close_is s"
  by (auto simp: close_is_def update_defs fun_eq_iff)

lemma gate_is_updates [simp]:
  "gate_is (put_worker w z s) = gate_is s" "gate_is (put_close c x s) = gate_is s"
  "gate_is (jobs_done s) = gate_is s" "gate_is (put_jobs js s) = gate_is s"
  "gate_is (s\<lparr>lc_adm := adm\<rparr>) = gate_is s" "gate_is (s\<lparr>lc_started := st\<rparr>) = gate_is s"
  "gate_is (s\<lparr>lc_workers_wg := n\<rparr>) = gate_is s" "gate_is (s\<lparr>lc_cancelled := b\<rparr>) = gate_is s"
  "gate_is (s\<lparr>lc_closer := p\<rparr>) = gate_is s" "gate_is (s\<lparr>lc_done := b\<rparr>) = gate_is s"
  by (auto simp: gate_is_def update_defs fun_eq_iff)

lemma update_fields [simp]:
  "lc_adm (put_worker w z s) = lc_adm s" "lc_adm (put_close c x s) = lc_adm s"
  "lc_adm (jobs_done s) = (lc_adm s)\<lparr>ad_wg := ad_wg (lc_adm s) - 1\<rparr>"
  "lc_adm (put_jobs js s) = (lc_adm s)\<lparr>ad_jobs := js\<rparr>"
  "lc_gates (put_worker w z s) = lc_gates s" "lc_gates (put_close c x s) = lc_gates s"
  "lc_gates (jobs_done s) = lc_gates s" "lc_gates (put_jobs js s) = lc_gates s"
  "lc_started (put_worker w z s) = lc_started s" "lc_started (put_close c x s) = lc_started s"
  "lc_started (jobs_done s) = lc_started s" "lc_started (put_jobs js s) = lc_started s"
  "lc_workers (put_worker w z s) = (lc_workers s)[w := z]" "lc_workers (put_close c x s) = lc_workers s"
  "lc_workers (jobs_done s) = lc_workers s" "lc_workers (put_jobs js s) = lc_workers s"
  "lc_workers_wg (put_worker w z s) = lc_workers_wg s" "lc_workers_wg (put_close c x s) = lc_workers_wg s"
  "lc_workers_wg (jobs_done s) = lc_workers_wg s" "lc_workers_wg (put_jobs js s) = lc_workers_wg s"
  "lc_cancelled (put_worker w z s) = lc_cancelled s" "lc_cancelled (put_close c x s) = lc_cancelled s"
  "lc_cancelled (jobs_done s) = lc_cancelled s" "lc_cancelled (put_jobs js s) = lc_cancelled s"
  "lc_closer (put_worker w z s) = lc_closer s" "lc_closer (put_close c x s) = lc_closer s"
  "lc_closer (jobs_done s) = lc_closer s" "lc_closer (put_jobs js s) = lc_closer s"
  "lc_done (put_worker w z s) = lc_done s" "lc_done (put_close c x s) = lc_done s"
  "lc_done (jobs_done s) = lc_done s" "lc_done (put_jobs js s) = lc_done s"
  "lc_closes (put_worker w z s) = lc_closes s" "lc_closes (put_close c x s) = (lc_closes s)[c := x]"
  "lc_closes (jobs_done s) = lc_closes s" "lc_closes (put_jobs js s) = lc_closes s"
  by (simp_all add: update_defs)

text \<open>What an enabled action was and did: one inversion rule per action.\<close>

lemma exec_admitE:
  assumes "exec_admit j s = Some s'"
  obtains "\<not> ad_closed (lc_adm s)" "length (ad_jobs (lc_adm s)) < ad_capacity (lc_adm s)"
    "s' = s\<lparr>lc_adm := (lc_adm s)\<lparr>ad_jobs := ad_jobs (lc_adm s) @ [(length (lc_gates s), j)],
        ad_wg := ad_wg (lc_adm s) + 1\<rparr>, lc_gates := lc_gates s @ [Unanswered]\<rparr>"
  using assms by (auto simp: exec_admit_def admit_def Let_def split: if_splits)

lemma exec_gateE:
  assumes "exec_gate g x y s = Some s'"
  obtains "gate_is s g x" "s' = s\<lparr>lc_gates := (lc_gates s)[g := y]\<rparr>"
  using assms by (auto simp: exec_gate_def split: if_splits)

lemma exec_exitE:
  assumes "exec_exit w s = Some s'"
  obtains "worker_is s w Selecting" "lc_cancelled s"
    "s' = put_worker w Exited (s\<lparr>lc_workers_wg := lc_workers_wg s - 1\<rparr>)"
  using assms by (auto simp: exec_exit_def split: if_splits)

lemma exec_takeE:
  assumes "exec_take w s = Some s'"
  obtains g j js where "ad_jobs (lc_adm s) = (g, j) # js" "worker_is s w Selecting"
    "s' = put_worker w (Holding g j) (put_jobs js s)"
  using assms by (auto simp: exec_take_def split: if_splits list.splits)

lemma exec_startE:
  assumes "exec_start w s = Some s'"
  obtains g j where "worker_is s w (Holding g j)" "gate_is s g Opened"
    "s' = put_worker w (Running g j) (s\<lparr>lc_started := lc_started s @ [g]\<rparr>)"
  using assms by (auto simp: exec_start_def worker_is_def split: if_splits worker.splits)

lemma exec_skipE:
  assumes "exec_skip w s = Some s'"
  obtains g j where "worker_is s w (Holding g j)" "lc_cancelled s" "s' = put_worker w (Releasing g j) s"
  using assms by (auto simp: exec_skip_def worker_is_def split: if_splits worker.splits)

lemma exec_endE:
  assumes "exec_end w s = Some s'"
  obtains g j where "worker_is s w (Running g j)" "s' = put_worker w (Releasing g j) s"
  using assms by (auto simp: exec_end_def worker_is_def split: if_splits worker.splits)

lemma exec_releaseE:
  assumes "exec_release w s = Some s'"
  obtains g j where "worker_is s w (Releasing g j)" "s' = put_worker w Selecting (jobs_done s)"
  using assms by (auto simp: exec_release_def worker_is_def split: if_splits worker.splits)

lemma exec_closeE:
  assumes "exec_close c s = Some s'"
  obtains (first) "close_is s c NotCalled" "lc_closer s = NotStarted"
    "s' = put_close c Waiting (s\<lparr>lc_adm := (lc_adm s)\<lparr>ad_closed := True\<rparr>, lc_closer := WaitJobs\<rparr>)"
  | (again) "close_is s c NotCalled" "lc_closer s \<noteq> NotStarted" "s' = put_close c Waiting s"
  using assms by (auto simp: exec_close_def split: if_splits)

lemma exec_closer_jobsE:
  assumes "exec_closer_jobs s = Some s'"
  obtains "lc_closer s = WaitJobs" "ad_wg (lc_adm s) = 0"
    "s' = s\<lparr>lc_cancelled := True, lc_closer := WaitWorkers\<rparr>"
  using assms by (auto simp: exec_closer_jobs_def split: if_splits)

lemma exec_closer_workersE:
  assumes "exec_closer_workers s = Some s'"
  obtains "lc_closer s = WaitWorkers" "lc_workers_wg s = 0" "s' = s\<lparr>lc_closer := Finished, lc_done := True\<rparr>"
  using assms by (auto simp: exec_closer_workers_def split: if_splits)

lemma exec_returnE:
  assumes "exec_return c s = Some s'"
  obtains "close_is s c Waiting" "lc_done s" "s' = put_close c ReturnedNil s"
  using assms by (auto simp: exec_return_def split: if_splits)

lemma exec_expireE:
  assumes "exec_expire c s = Some s'"
  obtains "close_is s c Waiting" "s' = put_close c Draining (s\<lparr>lc_cancelled := True\<rparr>)"
  using assms by (auto simp: exec_expire_def split: if_splits)

lemma exec_drainE:
  assumes "exec_drain c s = Some s'"
  obtains g j js where "ad_jobs (lc_adm s) = (g, j) # js" "close_is s c Draining"
    "s' = jobs_done (put_jobs js s)"
  using assms by (auto simp: exec_drain_def split: if_splits list.splits)

lemma exec_drain_endE:
  assumes "exec_drain_end c s = Some s'"
  obtains "close_is s c Draining" "ad_jobs (lc_adm s) = []" "s' = put_close c ReturnedErr s"
  using assms by (auto simp: exec_drain_end_def split: if_splits)

lemmas execE = exec_admitE exec_gateE exec_exitE exec_takeE exec_startE exec_skipE exec_endE
  exec_releaseE exec_closeE exec_closer_jobsE exec_closer_workersE exec_returnE exec_expireE
  exec_drainE exec_drain_endE

end
