(* ===== verification/LifecycleInv.thy ===== *)
theory LifecycleInv
  imports Lifecycle
begin

text \<open>
  Invariants of the lifecycle (\<open>Lifecycle\<close>): the two wait groups count what they should and
  are never negative; a cancelled handler is closed, and its queue is empty or being drained;
  \<open>closeDone\<close> is closed only after every worker has left and nothing is queued.
\<close>

section \<open>Counting over lists\<close>

lemma sum_list_map_update:
  fixes f :: "'a \<Rightarrow> int"
  assumes "k < length xs"
  shows "sum_list (map f (xs[k := x])) = sum_list (map f xs) + f x - f (xs ! k)"
  using assms
proof (induction xs arbitrary: k)
  case (Cons y ys)
  then show ?case by (cases k) auto
qed simp

lemma sum_list_nonneg_zero:
  fixes f :: "'a \<Rightarrow> int"
  assumes "\<And>x. 0 \<le> f x" and "sum_list (map f xs) = 0" and "k < length xs"
  shows "f (xs ! k) = 0"
proof -
  have "0 \<le> sum_list (map f ys)" for ys
    using assms(1) by (induction ys) simp_all
  then have "\<forall>x \<in> set xs. f x = 0"
    using assms(1,2) by (induction xs) (auto simp: add_nonneg_eq_0_iff)
  then show ?thesis using assms(3) by simp
qed

lemma sum_list_map_nonneg: "(\<And>x. 0 \<le> (f x :: int)) \<Longrightarrow> 0 \<le> sum_list (map f xs)"
  by (induction xs) simp_all

section \<open>The wait groups\<close>

definition busy :: "'j worker \<Rightarrow> int" where
  "busy x = (case x of Holding _ _ \<Rightarrow> 1 | Running _ _ \<Rightarrow> 1 | Releasing _ _ \<Rightarrow> 1 | _ \<Rightarrow> 0)"

definition alive :: "'j worker \<Rightarrow> int" where
  "alive x = (case x of Exited \<Rightarrow> 0 | _ \<Rightarrow> 1)"

lemma busy_nonneg [simp]: "0 \<le> busy x"
  by (simp add: busy_def split: worker.split)

lemma alive_nonneg [simp]: "0 \<le> alive x"
  by (simp add: alive_def split: worker.split)

definition busy_workers :: "'j lifecycle \<Rightarrow> int" where
  "busy_workers s = sum_list (map busy (lc_workers s))"

definition inv_wg :: "'j lifecycle \<Rightarrow> bool" where
  "inv_wg s \<longleftrightarrow>
     ad_wg (lc_adm s) = int (length (ad_jobs (lc_adm s))) + busy_workers s
     \<and> lc_workers_wg s = sum_list (map alive (lc_workers s))
     \<and> length (ad_jobs (lc_adm s)) \<le> ad_capacity (lc_adm s)"

lemmas exec_splits = if_splits list.splits worker.splits prod.splits

lemma exec_inv_wg: "exec a s = Some s' \<Longrightarrow> inv_wg s \<Longrightarrow> inv_wg s'"
  by (cases a)
    (auto simp: exec_defs update_defs is_defs inv_wg_def busy_workers_def sum_list_map_update
      busy_def alive_def admit_def Let_def split: exec_splits)

lemma initial_inv_wg: "inv_wg (initial cap workers n)"
  by (simp add: inv_wg_def initial_def busy_workers_def busy_def alive_def map_replicate_const
      sum_list_replicate)

section \<open>Closing\<close>

text \<open>The phases of \<open>Close\<close>; what its callers have seen; the queue of a cancelled handler.\<close>

definition inv_phase :: "'j lifecycle \<Rightarrow> bool" where
  "inv_phase s \<longleftrightarrow>
     (ad_closed (lc_adm s) \<longleftrightarrow> lc_closer s \<noteq> NotStarted)
     \<and> (lc_done s \<longleftrightarrow> lc_closer s = Finished)
     \<and> (lc_closer s \<in> {WaitWorkers, Finished} \<longrightarrow> lc_cancelled s \<and> ad_wg (lc_adm s) = 0)
     \<and> (lc_closer s = Finished \<longrightarrow> lc_workers_wg s = 0)
     \<and> (lc_cancelled s \<longrightarrow> ad_closed (lc_adm s))"

definition inv_called :: "'j lifecycle \<Rightarrow> bool" where
  "inv_called s \<longleftrightarrow>
     (\<forall>c. close_is s c Waiting \<longrightarrow> ad_closed (lc_adm s))
     \<and> (\<forall>c. close_is s c Draining \<or> close_is s c ReturnedErr \<longrightarrow> lc_cancelled s)
     \<and> (\<forall>c. close_is s c ReturnedNil \<longrightarrow> lc_done s)
     \<and> (\<forall>w. worker_is s w Exited \<longrightarrow> lc_cancelled s)"

definition draining :: "'j lifecycle \<Rightarrow> bool" where
  "draining s \<longleftrightarrow> (\<exists>c. close_is s c Draining)"

definition inv_queue :: "'j lifecycle \<Rightarrow> bool" where
  "inv_queue s \<longleftrightarrow> (lc_cancelled s \<longrightarrow> ad_jobs (lc_adm s) = [] \<or> draining s)"

definition inv_close :: "'j lifecycle \<Rightarrow> bool" where
  "inv_close s \<longleftrightarrow> inv_phase s \<and> inv_called s \<and> inv_queue s"

lemma wg_zero:
  assumes "inv_wg s" and "ad_wg (lc_adm s) = 0"
  shows "ad_jobs (lc_adm s) = []" and "worker_is s w x \<Longrightarrow> busy x = 0"
proof -
  have "0 \<le> busy_workers s"
    unfolding busy_workers_def by (rule sum_list_map_nonneg) simp
  moreover have "int (length (ad_jobs (lc_adm s))) + busy_workers s = 0"
    using assms by (simp add: inv_wg_def)
  ultimately have "int (length (ad_jobs (lc_adm s))) = 0" and b: "busy_workers s = 0"
    by linarith+
  then show "ad_jobs (lc_adm s) = []" by simp
  show "worker_is s w x \<Longrightarrow> busy x = 0"
    using sum_list_nonneg_zero [of busy "lc_workers s" w] b by (auto simp: busy_workers_def worker_is_def)
qed

lemma wg_nonneg: "inv_wg s \<Longrightarrow> 0 \<le> ad_wg (lc_adm s) \<and> 0 \<le> lc_workers_wg s"
  using sum_list_map_nonneg [of busy "lc_workers s"] sum_list_map_nonneg [of alive "lc_workers s"]
  by (simp add: inv_wg_def busy_workers_def)

lemma workers_wg_zero: "inv_wg s \<Longrightarrow> lc_workers_wg s = 0 \<Longrightarrow> worker_is s w x \<Longrightarrow> x = Exited"
proof -
  assume "inv_wg s" "lc_workers_wg s = 0" "worker_is s w x"
  then have "alive x = 0"
    using sum_list_nonneg_zero [of alive "lc_workers s" w] by (auto simp: inv_wg_def worker_is_def)
  then show "x = Exited" by (cases x) (simp_all add: alive_def)
qed

lemma close_is_unique: "close_is s c x \<Longrightarrow> close_is s c y \<Longrightarrow> x = y"
  by (simp add: close_is_def)

lemma worker_is_unique: "worker_is s w x \<Longrightarrow> worker_is s w y \<Longrightarrow> x = y"
  by (simp add: worker_is_def)

lemma draining_updates [simp]:
  "draining (put_worker w z s) = draining s" "draining (jobs_done s) = draining s"
  "draining (put_jobs js s) = draining s" "draining (s\<lparr>lc_adm := adm\<rparr>) = draining s"
  "draining (s\<lparr>lc_gates := gs\<rparr>) = draining s" "draining (s\<lparr>lc_started := st\<rparr>) = draining s"
  "draining (s\<lparr>lc_workers_wg := n\<rparr>) = draining s" "draining (s\<lparr>lc_cancelled := b\<rparr>) = draining s"
  "draining (s\<lparr>lc_closer := p\<rparr>) = draining s" "draining (s\<lparr>lc_done := b\<rparr>) = draining s"
  by (simp_all add: draining_def)

lemma draining_put_close:
  "close_is s c y \<Longrightarrow> draining (put_close c Draining s)"
  "close_is s c y \<Longrightarrow> y \<noteq> Draining \<Longrightarrow> draining s \<Longrightarrow> draining (put_close c x s)"
  unfolding draining_def by (auto simp: close_is_def put_close_def nth_list_update)

lemma inv_wg_called: "inv_wg s \<Longrightarrow> worker_is s w x \<Longrightarrow> busy x \<noteq> 0 \<Longrightarrow> ad_wg (lc_adm s) \<noteq> 0"
  using wg_zero(2) by blast

lemma inv_phase_neutral [simp]:
  "inv_phase (put_worker w z s) = inv_phase s" "inv_phase (put_close c x s) = inv_phase s"
  "inv_phase (put_jobs js s) = inv_phase s" "inv_phase (s\<lparr>lc_gates := gs\<rparr>) = inv_phase s"
  "inv_phase (s\<lparr>lc_started := st\<rparr>) = inv_phase s"
  by (simp_all add: inv_phase_def)

lemma inv_phase_admit: "exec_admit j s = Some s' \<Longrightarrow> inv_phase s \<Longrightarrow> inv_phase s'"
  by (erule exec_admitE) (simp add: inv_phase_def)

lemma inv_phase_exit:
  assumes "exec_exit w s = Some s'" and "inv_phase s" and "inv_wg s"
  shows "inv_phase s'"
proof -
  from assms(1) have w: "worker_is s w Selecting"
    and s': "s' = put_worker w Exited (s\<lparr>lc_workers_wg := lc_workers_wg s - 1\<rparr>)"
    by (auto elim: exec_exitE)
  have "lc_closer s \<noteq> Finished"
    using workers_wg_zero [OF assms(3) _ w] assms(2) by (auto simp: inv_phase_def)
  then show ?thesis
    using assms(2) by (auto simp: s' inv_phase_def)
qed

lemma inv_phase_done: "inv_phase s \<Longrightarrow> ad_wg (lc_adm s) \<noteq> 0 \<Longrightarrow> inv_phase (jobs_done s)"
  by (auto simp: inv_phase_def)

lemma inv_phase_release:
  assumes "exec_release w s = Some s'" and "inv_phase s" and "inv_wg s"
  shows "inv_phase s'"
proof -
  from assms(1) obtain g j where w: "worker_is s w (Releasing g j)" "s' = put_worker w Selecting (jobs_done s)"
    by (rule exec_releaseE)
  then show ?thesis
    using inv_phase_done [OF assms(2)] inv_wg_called [OF assms(3) w(1)] by (simp add: busy_def)
qed

lemma inv_phase_drain:
  assumes "exec_drain c s = Some s'" and "inv_phase s" and "inv_wg s"
  shows "inv_phase s'"
proof -
  from assms(1) obtain g j js where d: "ad_jobs (lc_adm s) = (g, j) # js" "s' = jobs_done (put_jobs js s)"
    by (rule exec_drainE)
  then have "ad_wg (lc_adm s) \<noteq> 0"
    using wg_zero(1) [OF assms(3)] by auto
  with d assms(2) show ?thesis by (simp add: inv_phase_done)
qed

lemma inv_phase_close: "exec_close c s = Some s' \<Longrightarrow> inv_phase s \<Longrightarrow> inv_phase s'"
  by (erule exec_closeE) (auto simp: inv_phase_def)

lemma inv_phase_closer:
  "exec_closer_jobs s = Some s' \<Longrightarrow> inv_phase s \<Longrightarrow> inv_phase s'"
  "exec_closer_workers s = Some s' \<Longrightarrow> inv_phase s \<Longrightarrow> inv_phase s'"
  by (erule exec_closer_jobsE exec_closer_workersE, simp add: inv_phase_def)+

lemma inv_phase_expire:
  assumes "exec_expire c s = Some s'" and "inv_phase s" and "inv_called s"
  shows "inv_phase s'"
proof -
  from assms(1) have c: "close_is s c Waiting" and s': "s' = put_close c Draining (s\<lparr>lc_cancelled := True\<rparr>)"
    by (auto elim: exec_expireE)
  then have "ad_closed (lc_adm s)" using assms(3) unfolding inv_called_def by blast
  then show ?thesis using assms(2) by (simp add: s' inv_phase_def)
qed

lemma exec_inv_phase: "exec a s = Some s' \<Longrightarrow> inv_phase s \<Longrightarrow> inv_called s \<Longrightarrow> inv_wg s \<Longrightarrow> inv_phase s'"
  by (cases a)
    (auto elim!: exec_gateE exec_takeE exec_startE exec_skipE exec_endE exec_returnE exec_drain_endE
      intro: inv_phase_admit inv_phase_exit inv_phase_release inv_phase_drain inv_phase_close
        inv_phase_closer inv_phase_expire)

lemma inv_called_neutral [simp]:
  "inv_called (put_jobs js s) = inv_called s" "inv_called (s\<lparr>lc_gates := gs\<rparr>) = inv_called s"
  "inv_called (s\<lparr>lc_started := st\<rparr>) = inv_called s" "inv_called (jobs_done s) = inv_called s"
  "inv_called (s\<lparr>lc_workers_wg := n\<rparr>) = inv_called s"
  by (simp_all add: inv_called_def)

lemma inv_called_worker: "inv_called s \<Longrightarrow> x \<noteq> Exited \<or> lc_cancelled s \<Longrightarrow> inv_called (put_worker w x s)"
  unfolding inv_called_def by (auto split: if_splits)

lemma inv_called_put_close:
  assumes "inv_called s" and "x = Waiting \<Longrightarrow> ad_closed (lc_adm s)"
    and "x = Draining \<or> x = ReturnedErr \<Longrightarrow> lc_cancelled s" and "x = ReturnedNil \<Longrightarrow> lc_done s"
  shows "inv_called (put_close c x s)"
  using assms unfolding inv_called_def by (auto split: if_splits)

lemma inv_called_mono:
  assumes "inv_called s" and "\<And>c x. close_is s' c x = close_is s c x"
    and "\<And>w x. worker_is s' w x = worker_is s w x"
    and "ad_closed (lc_adm s) \<longrightarrow> ad_closed (lc_adm s')" and "lc_cancelled s \<longrightarrow> lc_cancelled s'"
    and "lc_done s \<longrightarrow> lc_done s'"
  shows "inv_called s'"
  using assms unfolding inv_called_def by blast

lemma inv_called_close:
  assumes "exec_close c s = Some s'" and "inv_called s" and "inv_phase s"
  shows "inv_called s'"
  using assms(1)
proof (cases rule: exec_closeE)
  case first
  have "inv_called (s\<lparr>lc_adm := (lc_adm s)\<lparr>ad_closed := True\<rparr>, lc_closer := WaitJobs\<rparr>)"
    by (rule inv_called_mono [OF assms(2)]) simp_all
  then show ?thesis
    unfolding first(3) by (rule inv_called_put_close) simp_all
next
  case again
  have "inv_called (put_close c Waiting s)"
    using assms(3) again(2) by (intro inv_called_put_close [OF assms(2)]) (simp_all add: inv_phase_def)
  then show ?thesis by (simp only: again(3))
qed

lemma inv_called_expire:
  assumes "exec_expire c s = Some s'" and "inv_called s"
  shows "inv_called s'"
proof -
  have "inv_called (s\<lparr>lc_cancelled := True\<rparr>)"
    by (rule inv_called_mono [OF assms(2)]) simp_all
  moreover have "s' = put_close c Draining (s\<lparr>lc_cancelled := True\<rparr>)"
    using assms(1) by (auto elim: exec_expireE)
  ultimately show ?thesis by (auto intro!: inv_called_put_close)
qed

lemma inv_called_closer:
  "exec_closer_jobs s = Some s' \<Longrightarrow> inv_called s \<Longrightarrow> inv_called s'"
  "exec_closer_workers s = Some s' \<Longrightarrow> inv_called s \<Longrightarrow> inv_called s'"
   apply (erule inv_called_mono; erule exec_closer_jobsE; simp)
  apply (erule inv_called_mono; erule exec_closer_workersE; simp)
  done

lemma inv_called_admit: "exec_admit j s = Some s' \<Longrightarrow> inv_called s \<Longrightarrow> inv_called s'"
  by (erule inv_called_mono; erule exec_admitE; simp)

lemma inv_called_drain_end:
  assumes "exec_drain_end c s = Some s'" and "inv_called s"
  shows "inv_called s'"
proof -
  from assms(1) have c: "close_is s c Draining" and s': "s' = put_close c ReturnedErr s"
    by (auto elim: exec_drain_endE)
  then have "lc_cancelled s" using assms(2) unfolding inv_called_def by blast
  then show ?thesis using assms(2) by (auto simp: s' intro!: inv_called_put_close)
qed

lemma exec_inv_called: "exec a s = Some s' \<Longrightarrow> inv_phase s \<Longrightarrow> inv_called s \<Longrightarrow> inv_called s'"
  by (cases a)
    (auto elim!: exec_gateE exec_takeE exec_startE exec_skipE exec_endE exec_returnE exec_exitE
       exec_releaseE exec_drainE
      intro: inv_called_admit inv_called_close inv_called_expire inv_called_closer
        inv_called_drain_end inv_called_worker inv_called_put_close)

lemma exec_inv_queue:
  assumes "exec a s = Some s'" and "inv_phase s" and "inv_queue s" and "inv_wg s"
  shows "inv_queue s'"
proof -
  have "ad_wg (lc_adm s) = 0 \<Longrightarrow> ad_jobs (lc_adm s) = []"
    by (rule wg_zero(1) [OF assms(4)])
  then show ?thesis
    using assms(1-3)
    by (cases a) (auto elim!: execE simp: inv_queue_def inv_phase_def intro: draining_put_close)
qed

lemma exec_inv_close: "exec a s = Some s' \<Longrightarrow> inv_close s \<Longrightarrow> inv_wg s \<Longrightarrow> inv_close s'"
  unfolding inv_close_def by (blast intro: exec_inv_phase exec_inv_called exec_inv_queue)

lemma initial_inv_close: "inv_close (initial cap workers n)"
  by (auto simp: inv_close_def inv_phase_def inv_called_def inv_queue_def initial_def close_is_def
      worker_is_def)

lemma reachable_inv:
  assumes "reachable cap workers n s"
  shows "inv_wg s \<and> inv_close s"
  using assms
  by induction (auto intro: exec_inv_wg exec_inv_close initial_inv_wg initial_inv_close)

end
