(* ===== verification/LifecycleJobs.thy ===== *)
theory LifecycleJobs
  imports LifecycleInv
begin

text \<open>
  Jobs in the lifecycle (\<open>Lifecycle\<close>): no job is in two places, a job runs at most once and
  only after its gate was opened, so after the response to its request was committed;
  without an expired \<open>Close\<close> every admitted job has been started when the handler is done.
\<close>

text \<open>Where a job, named by its gate, is.\<close>

definition queued :: "'j lifecycle \<Rightarrow> nat \<Rightarrow> bool" where
  "queued s g \<longleftrightarrow> g \<in> fst ` set (ad_jobs (lc_adm s))"

definition holds :: "'j lifecycle \<Rightarrow> nat \<Rightarrow> nat \<Rightarrow> bool" where
  "holds s w g \<longleftrightarrow> (\<exists>j. worker_is s w (Holding g j))"

definition runs :: "'j lifecycle \<Rightarrow> nat \<Rightarrow> nat \<Rightarrow> bool" where
  "runs s w g \<longleftrightarrow> (\<exists>j. worker_is s w (Running g j))"

lemma holds_updates [simp]:
  "holds (put_worker w x s) w' g \<longleftrightarrow>
     (if w' = w then w < length (lc_workers s) \<and> (\<exists>j. x = Holding g j) else holds s w' g)"
  "holds (put_close c z s) = holds s" "holds (jobs_done s) = holds s" "holds (put_jobs js s) = holds s"
  "holds (s\<lparr>lc_adm := adm\<rparr>) = holds s" "holds (s\<lparr>lc_gates := gs\<rparr>) = holds s"
  "holds (s\<lparr>lc_started := st\<rparr>) = holds s" "holds (s\<lparr>lc_workers_wg := n\<rparr>) = holds s"
  "holds (s\<lparr>lc_cancelled := b\<rparr>) = holds s" "holds (s\<lparr>lc_closer := p\<rparr>) = holds s"
  "holds (s\<lparr>lc_done := b\<rparr>) = holds s"
  by (auto simp: holds_def fun_eq_iff)

lemma runs_updates [simp]:
  "runs (put_worker w x s) w' g \<longleftrightarrow>
     (if w' = w then w < length (lc_workers s) \<and> (\<exists>j. x = Running g j) else runs s w' g)"
  "runs (put_close c z s) = runs s" "runs (jobs_done s) = runs s" "runs (put_jobs js s) = runs s"
  "runs (s\<lparr>lc_adm := adm\<rparr>) = runs s" "runs (s\<lparr>lc_gates := gs\<rparr>) = runs s"
  "runs (s\<lparr>lc_started := st\<rparr>) = runs s" "runs (s\<lparr>lc_workers_wg := n\<rparr>) = runs s"
  "runs (s\<lparr>lc_cancelled := b\<rparr>) = runs s" "runs (s\<lparr>lc_closer := p\<rparr>) = runs s"
  "runs (s\<lparr>lc_done := b\<rparr>) = runs s"
  by (auto simp: runs_def fun_eq_iff)

lemma queued_adm: "lc_adm s' = lc_adm s \<Longrightarrow> queued s' = queued s"
  by (simp add: queued_def fun_eq_iff)

lemma queued_updates [simp]:
  "queued (put_worker w x s) = queued s" "queued (put_close c z s) = queued s"
  "queued (jobs_done s) = queued s" "queued (put_jobs js s) = (\<lambda>g. g \<in> fst ` set js)"
  "queued (s\<lparr>lc_gates := gs\<rparr>) = queued s"
  "queued (s\<lparr>lc_started := st\<rparr>) = queued s" "queued (s\<lparr>lc_workers_wg := n\<rparr>) = queued s"
  "queued (s\<lparr>lc_cancelled := b\<rparr>) = queued s" "queued (s\<lparr>lc_closer := p\<rparr>) = queued s"
  "queued (s\<lparr>lc_done := b\<rparr>) = queued s"
  "queued (s\<lparr>lc_adm := (lc_adm s)\<lparr>ad_closed := cl\<rparr>\<rparr>) = queued s"
  by (simp_all add: queued_def fun_eq_iff)

text \<open>Every queued or held job has a gate; a started one has an opened gate; no job is in two
  places, queued, held or started.\<close>

definition inv_jobs :: "'j lifecycle \<Rightarrow> bool" where
  "inv_jobs s \<longleftrightarrow>
     (\<forall>g. queued s g \<longrightarrow> g < length (lc_gates s))
     \<and> (\<forall>w g. holds s w g \<longrightarrow> g < length (lc_gates s))
     \<and> (\<forall>g \<in> set (lc_started s). gate_is s g Opened)
     \<and> (\<forall>w g. runs s w g \<longrightarrow> g \<in> set (lc_started s))
     \<and> distinct (map fst (ad_jobs (lc_adm s))) \<and> distinct (lc_started s)
     \<and> (\<forall>g. queued s g \<longrightarrow> g \<notin> set (lc_started s))
     \<and> (\<forall>w g. holds s w g \<longrightarrow> \<not> queued s g \<and> g \<notin> set (lc_started s))
     \<and> (\<forall>w w' g. holds s w g \<longrightarrow> holds s w' g \<longrightarrow> w = w')"

lemma gate_is_length: "gate_is s g x \<Longrightarrow> g < length (lc_gates s)"
  by (simp add: gate_is_def)

lemma worker_holds: "worker_is s w (Holding g j) \<Longrightarrow> holds s w g"
  by (auto simp: holds_def)

lemma worker_runs: "worker_is s w (Running g j) \<Longrightarrow> runs s w g"
  by (auto simp: runs_def)

lemma inv_jobs_admit:
  assumes "exec_admit j s = Some s'" and "inv_jobs s"
  shows "inv_jobs s'"
proof -
  from assms(1) have s': "s' = s\<lparr>lc_adm := (lc_adm s)\<lparr>ad_jobs := ad_jobs (lc_adm s) @ [(length (lc_gates s), j)],
        ad_wg := ad_wg (lc_adm s) + 1\<rparr>, lc_gates := lc_gates s @ [Unanswered]\<rparr>"
    by (rule exec_admitE)
  have gates: "gate_is s g Opened \<Longrightarrow> gate_is s' g Opened" for g
    by (auto simp: s' gate_is_def nth_append)
  have q: "queued s' g \<longleftrightarrow> queued s g \<or> g = length (lc_gates s)" for g
    by (auto simp: s' queued_def)
  have old: "holds s' = holds s" "runs s' = runs s" "lc_started s' = lc_started s"
      "length (lc_gates s') = Suc (length (lc_gates s))"
      "map fst (ad_jobs (lc_adm s')) = map fst (ad_jobs (lc_adm s)) @ [length (lc_gates s)]"
    by (simp_all add: s')
  have "\<not> queued s (length (lc_gates s))" "length (lc_gates s) \<notin> set (lc_started s)"
      "\<not> holds s w (length (lc_gates s))" for w
    using assms(2) gate_is_length unfolding inv_jobs_def by (metis less_irrefl)+
  with assms(2) gates show ?thesis
    unfolding inv_jobs_def old q by (auto simp: queued_def less_Suc_eq)
qed

lemma inv_jobs_gate:
  assumes "exec_gate g x y s = Some s'" and "inv_jobs s" and "x \<noteq> Opened"
  shows "inv_jobs s'"
proof -
  from assms(1) have g: "gate_is s g x" and s': "s' = s\<lparr>lc_gates := (lc_gates s)[g := y]\<rparr>"
    by (auto elim: exec_gateE)
  have "gate_is s k Opened \<Longrightarrow> gate_is s' k Opened" for k
    using g assms(3) by (auto simp: s' gate_is_def nth_list_update)
  then show ?thesis
    using assms(2) unfolding inv_jobs_def by (simp add: s')
qed

lemma inv_jobs_take:
  assumes "ad_jobs (lc_adm s) = (g, j) # js" and "worker_is s w Selecting" and "inv_jobs s"
  shows "inv_jobs (put_worker w (Holding g j) (put_jobs js s))"
proof -
  have q: "queued s k \<longleftrightarrow> k = g \<or> k \<in> fst ` set js" for k
    using assms(1) by (simp add: queued_def)
  have "distinct (g # map fst js)"
    using assms(1,3) by (simp add: inv_jobs_def)
  then have "g \<notin> fst ` set js" "distinct (map fst js)" by auto
  then show ?thesis
    using assms(3) unfolding inv_jobs_def q by (auto simp: worker_is_def)
qed

lemma inv_jobs_start:
  assumes "worker_is s w (Holding g j)" and "gate_is s g Opened" and "inv_jobs s"
  shows "inv_jobs (put_worker w (Running g j) (s\<lparr>lc_started := lc_started s @ [g]\<rparr>))"
  using assms(2,3) worker_holds [OF assms(1)] unfolding inv_jobs_def by auto

lemma inv_jobs_worker:
  assumes "inv_jobs s" and "\<nexists>h j. x = Holding h j \<or> x = Running h j"
  shows "inv_jobs (put_worker w x s)"
  using assms unfolding inv_jobs_def by auto

lemma inv_jobs_fields:
  "inv_jobs (s\<lparr>lc_workers_wg := n\<rparr>) = inv_jobs s" "inv_jobs (s\<lparr>lc_cancelled := b\<rparr>) = inv_jobs s"
  "inv_jobs (s\<lparr>lc_closer := p\<rparr>) = inv_jobs s" "inv_jobs (s\<lparr>lc_done := b\<rparr>) = inv_jobs s"
  "inv_jobs (jobs_done s) = inv_jobs s" "inv_jobs (put_close c z s) = inv_jobs s"
  "inv_jobs (s\<lparr>lc_adm := (lc_adm s)\<lparr>ad_closed := cl\<rparr>\<rparr>) = inv_jobs s"
  by (simp_all add: inv_jobs_def)

lemma inv_jobs_drop: "ad_jobs (lc_adm s) = (g, j) # js \<Longrightarrow> inv_jobs s \<Longrightarrow> inv_jobs (put_jobs js s)"
  unfolding inv_jobs_def by (auto simp: queued_def)

lemma exec_inv_jobs:
  assumes "exec a s = Some s'" and "inv_jobs s"
  shows "inv_jobs s'"
  using assms
  by (cases a)
    (auto elim!: execE(3-15) intro: inv_jobs_admit inv_jobs_gate inv_jobs_start inv_jobs_take
      inv_jobs_worker inv_jobs_drop simp: inv_jobs_fields)

section \<open>No admitted job is lost\<close>

definition expired :: "'j lifecycle \<Rightarrow> bool" where
  "expired s \<longleftrightarrow> (\<exists>c. close_is s c Draining \<or> close_is s c ReturnedErr)"

definition inv_kept :: "'j lifecycle \<Rightarrow> bool" where
  "inv_kept s \<longleftrightarrow>
     \<not> expired s \<longrightarrow>
       (lc_cancelled s \<longrightarrow> lc_closer s \<in> {WaitWorkers, Finished})
       \<and> (\<forall>g < length (lc_gates s). g \<in> set (lc_started s) \<or> queued s g \<or> (\<exists>w. holds s w g))"

lemma expired_mono:
  assumes "exec a s = Some s'" and "expired s"
  shows "expired s'"
proof -
  obtain c x where c: "close_is s c x" "x = Draining \<or> x = ReturnedErr"
    using assms(2) by (auto simp: expired_def)
  then have len: "c < length (lc_closes s)" by (simp add: close_is_def)
  have other: "close_is s c' y \<Longrightarrow> y = NotCalled \<or> y = Waiting \<Longrightarrow> c' \<noteq> c" for c' y
    using c close_is_unique by fastforce
  have "close_is s' c Draining \<or> close_is s' c ReturnedErr"
    using assms(1) c len other by (cases a) (fastforce elim!: execE)+
  then show ?thesis by (auto simp: expired_def)
qed

definition kept :: "'j lifecycle \<Rightarrow> bool" where
  "kept s \<longleftrightarrow>
     (\<forall>g < length (lc_gates s). g \<in> set (lc_started s) \<or> queued s g \<or> (\<exists>w. holds s w g))"

lemma kept_worker:
  assumes "kept s" and "\<And>g. \<not> holds s w g"
  shows "kept (put_worker w x s)"
  unfolding kept_def
proof (intro allI impI)
  fix g
  assume "g < length (lc_gates (put_worker w x s))"
  then have "g \<in> set (lc_started s) \<or> queued s g \<or> (\<exists>w. holds s w g)"
    using assms(1) by (simp add: kept_def)
  then show "g \<in> set (lc_started (put_worker w x s)) \<or> queued (put_worker w x s) g
      \<or> (\<exists>w'. holds (put_worker w x s) w' g)"
    using assms(2) by (simp, metis)
qed

lemma worker_not_holding: "worker_is s w x \<Longrightarrow> (\<nexists>g j. x = Holding g j) \<Longrightarrow> \<not> holds s w g"
  unfolding holds_def by (metis worker_is_unique)

lemma kept_neutral [simp]:
  "kept (put_close c z s) = kept s" "kept (jobs_done s) = kept s"
  "kept (s\<lparr>lc_workers_wg := n\<rparr>) = kept s" "kept (s\<lparr>lc_cancelled := b\<rparr>) = kept s"
  "kept (s\<lparr>lc_closer := p\<rparr>) = kept s" "kept (s\<lparr>lc_done := d\<rparr>) = kept s"
  "kept (s\<lparr>lc_gates := (lc_gates s)[g := y]\<rparr>) = kept s"
  "kept (s\<lparr>lc_adm := (lc_adm s)\<lparr>ad_closed := cl\<rparr>\<rparr>) = kept s"
  by (simp_all add: kept_def)

lemma kept_admit:
  assumes "exec_admit j s = Some s'" and "kept s"
  shows "kept s'"
proof -
  from assms(1) have s': "s' = s\<lparr>lc_adm := (lc_adm s)\<lparr>ad_jobs := ad_jobs (lc_adm s) @ [(length (lc_gates s), j)],
        ad_wg := ad_wg (lc_adm s) + 1\<rparr>, lc_gates := lc_gates s @ [Unanswered]\<rparr>"
    by (rule exec_admitE)
  have "queued s' g \<longleftrightarrow> queued s g \<or> g = length (lc_gates s)" for g
    by (auto simp: s' queued_def)
  moreover have "holds s' = holds s" "lc_started s' = lc_started s"
      "length (lc_gates s') = Suc (length (lc_gates s))"
    by (simp_all add: s')
  ultimately show ?thesis
    using assms(2) unfolding kept_def by (auto simp: less_Suc_eq)
qed

lemma kept_take:
  assumes "exec_take w s = Some s'" and "kept s"
  shows "kept s'"
proof -
  from assms(1) obtain g j js where q: "ad_jobs (lc_adm s) = (g, j) # js" and w: "worker_is s w Selecting"
    and s': "s' = put_worker w (Holding g j) (put_jobs js s)"
    by (rule exec_takeE)
  have queue: "queued s k \<longleftrightarrow> k = g \<or> queued s' k" for k
    using q by (auto simp: s' queued_def)
  have free: "\<not> holds s w k" for k
    using w by (rule worker_not_holding) simp
  have mine: "holds s' w g"
    using w by (simp add: s' worker_is_def)
  have others: "holds s w' k \<Longrightarrow> holds s' w' k" for w' k
    using free by (auto simp: s')
  have "lc_gates s' = lc_gates s" "lc_started s' = lc_started s"
    by (simp_all add: s')
  then show ?thesis
    using assms(2) queue mine others unfolding kept_def by metis
qed

lemma kept_start:
  assumes "exec_start w s = Some s'" and "kept s"
  shows "kept s'"
proof -
  from assms(1) obtain g j where w: "worker_is s w (Holding g j)"
    and s': "s' = put_worker w (Running g j) (s\<lparr>lc_started := lc_started s @ [g]\<rparr>)"
    by (rule exec_startE)
  have "holds s w k \<Longrightarrow> k = g" for k
    using worker_is_unique [OF w] by (auto simp: holds_def)
  then have others: "holds s w' k \<Longrightarrow> holds s' w' k \<or> k = g" for w' k
    by (auto simp: s')
  have "lc_gates s' = lc_gates s" "set (lc_started s') = insert g (set (lc_started s))"
      "queued s' = queued s"
    by (simp_all add: s')
  then show ?thesis
    using assms(2) others unfolding kept_def by (metis insert_iff)
qed

lemma kept_worker_step:
  "exec_exit w s = Some s' \<Longrightarrow> kept s \<Longrightarrow> kept s'"
  "exec_end w s = Some s' \<Longrightarrow> kept s \<Longrightarrow> kept s'"
  "exec_release w s = Some s' \<Longrightarrow> kept s \<Longrightarrow> kept s'"
  by (auto elim!: exec_exitE exec_endE exec_releaseE intro!: kept_worker dest: worker_not_holding)

text \<open>The step that skips a job, and the draining of the queue, need an expired \<open>Close\<close>.\<close>

lemma exec_kept:
  assumes "exec a s = Some s'" and "inv_phase s" and "inv_wg s" and "\<not> expired s"
    and "lc_cancelled s \<longrightarrow> lc_closer s \<in> {WaitWorkers, Finished}" and "kept s"
  shows "kept s'"
proof -
  have "\<not> lc_cancelled s" if "worker_is s w (Holding g j)" for w g j
    using inv_wg_called [OF assms(3) that] assms(2,5) by (auto simp: busy_def inv_phase_def)
  then have skip: "exec_skip w s \<noteq> Some s'" for w
    by (metis exec_skipE)
  have drain: "exec_drain c s \<noteq> Some s'" for c
    using assms(4) by (auto elim: exec_drainE simp: expired_def)
  show ?thesis
    using assms(1,6) skip drain
    by (cases a)
      (auto elim!: exec_gateE exec_closeE exec_closer_jobsE exec_closer_workersE exec_returnE
        exec_expireE exec_drain_endE
       intro: kept_admit kept_take kept_start kept_worker_step)
qed

lemma exec_cancelled:
  assumes "exec a s = Some s'" and "\<not> expired s'"
    and "lc_cancelled s \<longrightarrow> lc_closer s \<in> {WaitWorkers, Finished}"
  shows "lc_cancelled s' \<longrightarrow> lc_closer s' \<in> {WaitWorkers, Finished}"
proof -
  have "exec_expire c s \<noteq> Some s'" for c
  proof
    assume "exec_expire c s = Some s'"
    then have "close_is s c Waiting" "s' = put_close c Draining (s\<lparr>lc_cancelled := True\<rparr>)"
      by (auto elim: exec_expireE)
    then have "close_is s' c Draining" by (simp add: close_is_def)
    then show False using assms(2) by (auto simp: expired_def)
  qed
  then show ?thesis
    using assms(1,3) by (cases a) (auto elim!: execE)
qed

lemma exec_inv_kept:
  assumes "exec a s = Some s'" and "inv_kept s" and "inv_phase s" and "inv_wg s"
  shows "inv_kept s'"
proof -
  have "kept s' \<and> (lc_cancelled s' \<longrightarrow> lc_closer s' \<in> {WaitWorkers, Finished})" if "\<not> expired s'"
  proof -
    have "\<not> expired s" using expired_mono [OF assms(1)] that by blast
    moreover from this have "kept s" "lc_cancelled s \<longrightarrow> lc_closer s \<in> {WaitWorkers, Finished}"
      using assms(2) by (simp_all add: inv_kept_def kept_def)
    ultimately show ?thesis
      using exec_kept [OF assms(1,3,4)] exec_cancelled [OF assms(1) that] by blast
  qed
  then show ?thesis by (simp add: inv_kept_def kept_def)
qed

section \<open>Reachable states\<close>

lemma initial_inv_jobs: "inv_jobs (initial cap workers n)"
  by (auto simp: inv_jobs_def initial_def queued_def holds_def runs_def worker_is_def)

lemma initial_inv_kept: "inv_kept (initial cap workers n)"
  by (auto simp: inv_kept_def initial_def)

lemma reachable_jobs:
  assumes "reachable cap workers n s"
  shows "inv_jobs s \<and> inv_kept s"
  using assms
proof induction
  case reachable_initial
  show ?case by (simp add: initial_inv_jobs initial_inv_kept)
next
  case (reachable_step s a s')
  then show ?case
    using exec_inv_jobs exec_inv_kept reachable_inv unfolding inv_close_def by blast
qed

end
