(* ===== verification/LifecycleLive.thy ===== *)
theory LifecycleLive
  imports LifecycleJobs
begin

text \<open>
  Shutdown ends (\<open>Lifecycle\<close>). \<open>work s\<close> is a bound on the actions a closed handler has left:
  every action but an admission decreases it. A closed handler that is not done always has
  an enabled action of its own goroutines (\<open>internal\<close>: no new request, no new \<open>Close\<close> call,
  no context that ends), so a run that stops has closed \<open>closeDone\<close>.
\<close>

fun worker_work :: "'j worker \<Rightarrow> nat" where
  "worker_work Exited = 0"
| "worker_work Selecting = 1"
| "worker_work (Releasing g j) = 3"
| "worker_work (Running g j) = 4"
| "worker_work (Holding g j) = 5"

fun gate_work :: "gate \<Rightarrow> nat" where
  "gate_work Unanswered = 2"
| "gate_work Answered = 1"
| "gate_work Opened = 0"

fun close_work :: "close_call \<Rightarrow> nat" where
  "close_work NotCalled = 3"
| "close_work Waiting = 2"
| "close_work Draining = 1"
| "close_work _ = 0"

fun closer_work :: "closer \<Rightarrow> nat" where
  "closer_work NotStarted = 3"
| "closer_work WaitJobs = 2"
| "closer_work WaitWorkers = 1"
| "closer_work Finished = 0"

definition work :: "'j lifecycle \<Rightarrow> nat" where
  "work s =
     5 * length (ad_jobs (lc_adm s)) + sum_list (map worker_work (lc_workers s))
     + sum_list (map gate_work (lc_gates s)) + sum_list (map close_work (lc_closes s))
     + closer_work (lc_closer s)"

lemma sum_list_update_nat:
  fixes f :: "'a \<Rightarrow> nat"
  assumes "k < length xs"
  shows "sum_list (map f (xs[k := x])) + f (xs ! k) = sum_list (map f xs) + f x"
  using assms
proof (induction xs arbitrary: k)
  case (Cons y ys)
  then show ?case by (cases k) (force simp: algebra_simps)+
qed simp

lemma work_fields [simp]:
  "work (jobs_done s) = work s" "work (s\<lparr>lc_workers_wg := n\<rparr>) = work s"
  "work (s\<lparr>lc_started := st\<rparr>) = work s" "work (s\<lparr>lc_cancelled := b\<rparr>) = work s"
  "work (s\<lparr>lc_done := b\<rparr>) = work s"
  "work (s\<lparr>lc_adm := (lc_adm s)\<lparr>ad_closed := cl\<rparr>\<rparr>) = work s"
  by (simp_all add: work_def)

lemma work_put_worker: "worker_is s w y \<Longrightarrow> work (put_worker w x s) + worker_work y = work s + worker_work x"
  using sum_list_update_nat [of w "lc_workers s" worker_work x] by (simp add: work_def worker_is_def)

lemma work_put_close: "close_is s c y \<Longrightarrow> work (put_close c x s) + close_work y = work s + close_work x"
  using sum_list_update_nat [of c "lc_closes s" close_work x] by (simp add: work_def close_is_def)

lemma work_put_gate:
  "gate_is s g y \<Longrightarrow> work (s\<lparr>lc_gates := (lc_gates s)[g := x]\<rparr>) + gate_work y = work s + gate_work x"
  using sum_list_update_nat [of g "lc_gates s" gate_work x] by (simp add: work_def gate_is_def)

lemma work_put_jobs: "ad_jobs (lc_adm s) = q # qs \<Longrightarrow> work (put_jobs qs s) + 5 = work s"
  by (simp add: work_def)

lemma work_closer: "work (s\<lparr>lc_closer := p\<rparr>) + closer_work (lc_closer s) = work s + closer_work p"
  by (simp add: work_def)

lemma work_worker_less:
  "worker_is s w y \<Longrightarrow> worker_work x < worker_work y \<Longrightarrow> work (put_worker w x s) < work s"
  using work_put_worker [of s w y x] by simp

lemma work_worker_step:
  "exec_exit w s = Some s' \<Longrightarrow> work s' < work s"
  "exec_start w s = Some s' \<Longrightarrow> work s' < work s"
  "exec_skip w s = Some s' \<Longrightarrow> work s' < work s"
  "exec_end w s = Some s' \<Longrightarrow> work s' < work s"
  "exec_release w s = Some s' \<Longrightarrow> work s' < work s"
proof -
  show "work s' < work s" if "exec_exit w s = Some s'"
    using that work_worker_less [of "s\<lparr>lc_workers_wg := lc_workers_wg s - 1\<rparr>" w Selecting Exited]
    by (auto elim!: exec_exitE)
  show "work s' < work s" if "exec_start w s = Some s'"
    using that by (rule exec_startE)
      (use work_worker_less [of "s\<lparr>lc_started := st\<rparr>" for st] in force)
  show "work s' < work s" if "exec_skip w s = Some s'"
    using that by (rule exec_skipE) (simp add: work_worker_less)
  show "work s' < work s" if "exec_end w s = Some s'"
    using that by (rule exec_endE) (simp add: work_worker_less)
  show "work s' < work s" if "exec_release w s = Some s'"
    using that by (rule exec_releaseE) (use work_worker_less [of "jobs_done s"] in force)
qed

lemma work_take: "exec_take w s = Some s' \<Longrightarrow> work s' < work s"
proof (erule exec_takeE)
  fix g j js
  assume "ad_jobs (lc_adm s) = (g, j) # js" "worker_is s w Selecting"
    and s': "s' = put_worker w (Holding g j) (put_jobs js s)"
  then show "work s' < work s"
    using work_put_jobs [of s "(g, j)" js] work_put_worker [of "put_jobs js s" w Selecting "Holding g j"]
    by simp
qed

lemma work_gate:
  assumes "exec_gate g x y s = Some s'" and "gate_work y < gate_work x"
  shows "work s' < work s"
  using assms work_put_gate [of s g x y] by (auto elim!: exec_gateE)

lemma work_close:
  assumes "exec_close c s = Some s'"
  shows "work s' < work s"
  using assms
proof (cases rule: exec_closeE)
  case first
  let ?t = "s\<lparr>lc_adm := (lc_adm s)\<lparr>ad_closed := True\<rparr>, lc_closer := WaitJobs\<rparr>"
  have "work ?t < work s"
    using first(2) by (simp add: work_def)
  moreover have "work s' < work ?t"
    using work_put_close [of ?t c NotCalled Waiting] first by simp
  ultimately show ?thesis by simp
next
  case again
  then show ?thesis using work_put_close [of s c NotCalled Waiting] by simp
qed

lemma work_closer_step:
  "exec_closer_jobs s = Some s' \<Longrightarrow> work s' < work s"
  "exec_closer_workers s = Some s' \<Longrightarrow> work s' < work s"
  by (auto elim!: exec_closer_jobsE exec_closer_workersE simp: work_def)

lemma work_close_call:
  "exec_return c s = Some s' \<Longrightarrow> work s' < work s"
  "exec_expire c s = Some s' \<Longrightarrow> work s' < work s"
  "exec_drain_end c s = Some s' \<Longrightarrow> work s' < work s"
  using work_put_close [of s c Waiting ReturnedNil]
    work_put_close [of "s\<lparr>lc_cancelled := True\<rparr>" c Waiting Draining]
    work_put_close [of s c Draining ReturnedErr]
  by (auto elim!: exec_returnE exec_expireE exec_drain_endE)

lemma work_drain: "exec_drain c s = Some s' \<Longrightarrow> work s' < work s"
  by (erule exec_drainE) (use work_put_jobs in fastforce)

lemma exec_admit_closed: "ad_closed (lc_adm s) \<Longrightarrow> exec_admit j s = None"
  by (simp add: exec_admit_def admit_def)

lemma exec_work: "exec a s = Some s' \<Longrightarrow> ad_closed (lc_adm s) \<Longrightarrow> work s' < work s"
  by (cases a)
    (auto simp: exec_admit_closed intro: work_worker_step work_take work_gate work_close
      work_closer_step work_close_call work_drain)

lemma exec_closed: "exec a s = Some s' \<Longrightarrow> ad_closed (lc_adm s) \<Longrightarrow> ad_closed (lc_adm s')"
  by (cases a) (auto elim!: execE)

fun run_actions :: "'j action list \<Rightarrow> 'j lifecycle \<Rightarrow> 'j lifecycle option" where
  "run_actions [] s = Some s"
| "run_actions (a # as) s = (case exec a s of None \<Rightarrow> None | Some s' \<Rightarrow> run_actions as s')"

lemma run_actions_reachable:
  "reachable cap workers n s \<Longrightarrow> run_actions as s = Some s' \<Longrightarrow> reachable cap workers n s'"
  by (induction as arbitrary: s) (auto split: option.splits intro: reachable_step)

lemma run_actions_closed:
  "run_actions as s = Some s' \<Longrightarrow> ad_closed (lc_adm s) \<Longrightarrow> ad_closed (lc_adm s')"
  by (induction as arbitrary: s) (auto split: option.splits dest: exec_closed)

lemma run_actions_work:
  "run_actions as s = Some s' \<Longrightarrow> ad_closed (lc_adm s) \<Longrightarrow> length as + work s' \<le> work s"
proof (induction as arbitrary: s)
  case (Cons a as)
  then obtain t where t: "exec a s = Some t" "run_actions as t = Some s'"
    by (auto split: option.splits)
  then have "length as + work s' \<le> work t" "work t < work s"
    using Cons exec_closed exec_work by blast+
  then show ?case by simp
qed simp

section \<open>Progress\<close>

definition internal :: "'j action \<Rightarrow> bool" where
  "internal a = (case a of Admit _ \<Rightarrow> False | CloseCall _ \<Rightarrow> False | CloseExpire _ \<Rightarrow> False | _ \<Rightarrow> True)"

definition enabled :: "'j action \<Rightarrow> 'j lifecycle \<Rightarrow> bool" where
  "enabled a s \<longleftrightarrow> exec a s \<noteq> None"

lemma inv_jobs_held: "inv_jobs s \<Longrightarrow> holds s w g \<Longrightarrow> g < length (lc_gates s)"
  by (simp add: inv_jobs_def)

lemma busy_enabled:
  assumes "worker_is s w x" and "busy x \<noteq> 0" and "inv_jobs s"
  shows "\<exists>a. internal a \<and> enabled a s"
proof (cases x)
  case (Holding g j)
  then have w: "worker_is s w (Holding g j)" using assms(1) by simp
  then have g: "g < length (lc_gates s)"
    using assms(3) by (intro inv_jobs_held worker_holds)
  show ?thesis
  proof (cases "lc_gates s ! g")
    case Unanswered
    then have "enabled (Answer g) s" using g by (simp add: enabled_def exec_gate_def gate_is_def)
    then show ?thesis by (intro exI [of _ "Answer g"]) (simp add: internal_def)
  next
    case Answered
    then have "enabled (OpenGate g) s" using g by (simp add: enabled_def exec_gate_def gate_is_def)
    then show ?thesis by (intro exI [of _ "OpenGate g"]) (simp add: internal_def)
  next
    case Opened
    then have "enabled (JobStart w) s"
      using g w by (simp add: enabled_def exec_start_def gate_is_def worker_is_def)
    then show ?thesis by (intro exI [of _ "JobStart w"]) (simp add: internal_def)
  qed
next
  case (Running g j)
  then have "enabled (JobEnd w) s" using assms(1) by (simp add: enabled_def exec_end_def worker_is_def)
  then show ?thesis by (intro exI [of _ "JobEnd w"]) (simp add: internal_def)
next
  case (Releasing g j)
  then have "enabled (WorkerRelease w) s"
    using assms(1) by (simp add: enabled_def exec_release_def worker_is_def)
  then show ?thesis by (intro exI [of _ "WorkerRelease w"]) (simp add: internal_def)
qed (use assms(2) in \<open>simp_all add: busy_def\<close>)

lemma queue_enabled:
  assumes "ad_jobs (lc_adm s) = q # qs" and "lc_workers s \<noteq> []" and "inv_jobs s"
    and "inv_called s" and "inv_queue s"
  shows "\<exists>a. internal a \<and> enabled a s"
proof -
  define x where "x = lc_workers s ! 0"
  have w: "worker_is s 0 x" using assms(2) by (simp add: worker_is_def x_def)
  obtain g j where q: "q = (g, j)" by (cases q)
  consider "x = Selecting" | "x = Exited" | "busy x \<noteq> 0" by (cases x) (simp_all add: busy_def)
  then show ?thesis
  proof cases
    case 1
    then have "enabled (WorkerTake 0) s" using w assms(1) q by (simp add: enabled_def exec_take_def)
    then show ?thesis by (intro exI [of _ "WorkerTake 0"]) (simp add: internal_def)
  next
    case 2
    then have "lc_cancelled s" using w assms(4) unfolding inv_called_def by blast
    then obtain c where "close_is s c Draining"
      using assms(1,5) by (auto simp: inv_queue_def draining_def)
    then have "enabled (Drain c) s" using assms(1) q by (simp add: enabled_def exec_drain_def)
    then show ?thesis by (intro exI [of _ "Drain c"]) (simp add: internal_def)
  next
    case 3
    then show ?thesis using busy_enabled [OF w _ assms(3)] by blast
  qed
qed

lemma sum_list_nonzero:
  fixes f :: "'a \<Rightarrow> int"
  shows "sum_list (map f xs) \<noteq> 0 \<Longrightarrow> \<exists>k < length xs. f (xs ! k) \<noteq> 0"
proof (induction xs)
  case (Cons x xs)
  then show ?case by (cases "f x = 0") (auto simp: Ex_less_Suc2)
qed simp

lemma jobs_enabled:
  assumes "ad_wg (lc_adm s) \<noteq> 0" and "lc_workers s \<noteq> []" and "inv_jobs s" and "inv_wg s"
    and "inv_called s" and "inv_queue s"
  shows "\<exists>a. internal a \<and> enabled a s"
proof (cases "ad_jobs (lc_adm s)")
  case Nil
  then have "sum_list (map busy (lc_workers s)) \<noteq> 0"
    using assms(1,4) by (simp add: inv_wg_def busy_workers_def)
  then obtain w where "w < length (lc_workers s)" "busy (lc_workers s ! w) \<noteq> 0"
    using sum_list_nonzero by blast
  then show ?thesis
    using busy_enabled [OF _ _ assms(3)] by (auto simp: worker_is_def)
next
  case (Cons q qs)
  then show ?thesis using queue_enabled assms by blast
qed

lemma workers_enabled:
  assumes "lc_closer s = WaitWorkers" and "inv_jobs s" and "inv_wg s" and "inv_phase s"
  shows "\<exists>a. internal a \<and> enabled a s"
proof (cases "lc_workers_wg s = 0")
  case True
  then have "enabled CloserWorkers s" using assms(1) by (simp add: enabled_def exec_closer_workers_def)
  then show ?thesis by (intro exI [of _ CloserWorkers]) (simp add: internal_def)
next
  case False
  then obtain w where w: "w < length (lc_workers s)" "alive (lc_workers s ! w) \<noteq> 0"
    using assms(3) sum_list_nonzero by (auto simp: inv_wg_def)
  consider "lc_workers s ! w = Selecting" | "busy (lc_workers s ! w) \<noteq> 0"
    using w(2) by (cases "lc_workers s ! w") (simp_all add: busy_def alive_def)
  then show ?thesis
  proof cases
    case 1
    then have "enabled (WorkerExit w) s"
      using w(1) assms(1,4) by (simp add: enabled_def exec_exit_def worker_is_def inv_phase_def)
    then show ?thesis by (intro exI [of _ "WorkerExit w"]) (simp add: internal_def)
  next
    case 2
    then show ?thesis using busy_enabled [OF _ 2 assms(2), of w] w(1) by (simp add: worker_is_def)
  qed
qed

lemma exec_workers_length: "exec a s = Some s' \<Longrightarrow> length (lc_workers s') = length (lc_workers s)"
  by (cases a) (auto elim!: execE)

lemma reachable_workers_length: "reachable cap workers n s \<Longrightarrow> length (lc_workers s) = workers"
  by (induction rule: reachable.induct) (simp_all add: initial_def exec_workers_length)

lemma closed_progress:
  assumes "reachable cap workers n s" and "0 < workers" and "ad_closed (lc_adm s)" and "\<not> lc_done s"
  shows "\<exists>a. internal a \<and> enabled a s"
proof -
  have inv: "inv_wg s" "inv_phase s" "inv_called s" "inv_queue s" "inv_jobs s"
    using reachable_inv [OF assms(1)] reachable_jobs [OF assms(1)] by (simp_all add: inv_close_def)
  have ne: "lc_workers s \<noteq> []"
    using reachable_workers_length [OF assms(1)] assms(2) by auto
  consider "lc_closer s = WaitJobs" | "lc_closer s = WaitWorkers"
    using inv(2) assms(3,4) by (cases "lc_closer s") (simp_all add: inv_phase_def)
  then show ?thesis
  proof cases
    case 1
    show ?thesis
    proof (cases "ad_wg (lc_adm s) = 0")
      case True
      then have "enabled CloserJobs s" using 1 by (simp add: enabled_def exec_closer_jobs_def)
      then show ?thesis by (intro exI [of _ CloserJobs]) (simp add: internal_def)
    next
      case False
      then show ?thesis using jobs_enabled ne inv by blast
    qed
  next
    case 2
    then show ?thesis using workers_enabled inv by blast
  qed
qed

section \<open>A request in the lifecycle\<close>

text \<open>The admission state of a handler without the identities of the gates.\<close>

definition forget_gates :: "(nat \<times> 'j) admission_state \<Rightarrow> 'j admission_state" where
  "forget_gates ad = \<lparr>ad_closed = ad_closed ad, ad_jobs = map snd (ad_jobs ad),
     ad_capacity = ad_capacity ad, ad_wg = ad_wg ad\<rparr>"

lemma request_actions:
  assumes "\<not> ad_closed (forget_gates (lc_adm s))"
    and "length (ad_jobs (forget_gates (lc_adm s))) < ad_capacity (forget_gates (lc_adm s))"
  shows "\<exists>s'. run_actions [Admit job, Answer (length (lc_gates s)), OpenGate (length (lc_gates s))] s = Some s'
    \<and> forget_gates (lc_adm s') = (forget_gates (lc_adm s))
        \<lparr>ad_jobs := ad_jobs (forget_gates (lc_adm s)) @ [job], ad_wg := ad_wg (forget_gates (lc_adm s)) + 1\<rparr>"
  using assms
  by (simp add: exec_admit_def admit_def exec_gate_def gate_is_def forget_gates_def nth_list_update Let_def)

text \<open>A small run, to instantiate the theorems about reachable states.\<close>

definition sample_run :: "nat action list" where
  "sample_run = [Admit 7, Answer 0, WorkerTake 0, Admit 8, OpenGate 0, CloseCall 0, JobStart 0, Answer 1,
     JobEnd 0, OpenGate 1, WorkerRelease 0, WorkerTake 0, JobStart 0, JobEnd 0, WorkerRelease 0,
     CloserJobs, WorkerExit 0, CloserWorkers, CloseReturn 0]"

lemma sample_reachable:
  "run_actions sample_run (initial 2 1 1) = Some s \<Longrightarrow> reachable 2 1 1 s"
  using run_actions_reachable reachable_initial by blast

definition run_ends :: "('j lifecycle \<Rightarrow> bool) \<Rightarrow> 'j action list \<Rightarrow> 'j lifecycle \<Rightarrow> bool" where
  "run_ends P as s = (case run_actions as s of None \<Rightarrow> False | Some s' \<Rightarrow> P s')"

lemma run_ends_state: "run_ends P as s \<Longrightarrow> \<exists>s'. run_actions as s = Some s' \<and> P s'"
  by (simp add: run_ends_def split: option.splits)

end
