(* ===== verification/Crypto.thy ===== *)
theory Crypto
  imports Prelude
begin

text \<open>
  \<open>crypto/sha256\<close>, \<open>crypto/hmac\<close> and \<open>encoding/hex\<close> of Go's standard library, as far as the
  delivery code uses them: SHA-256 (FIPS 180-4) on 32-bit words, HMAC (RFC 2104) over it and
  the lower-case hexadecimal text. Lemmas: the sizes, and that the text determines the
  digest.
\<close>

type_synonym word32 = "32 word"

section \<open>SHA-256\<close>

definition rotr32 :: "nat \<Rightarrow> word32 \<Rightarrow> word32" where
  "rotr32 n x = drop_bit n x OR push_bit (32 - n) x"

definition sha_initial :: "word32 list" where
  "sha_initial =
     [0x6A09E667, 0xBB67AE85, 0x3C6EF372, 0xA54FF53A, 0x510E527F, 0x9B05688C, 0x1F83D9AB, 0x5BE0CD19]"

definition sha_constants :: "word32 list" where
  "sha_constants =
     [0x428A2F98, 0x71374491, 0xB5C0FBCF, 0xE9B5DBA5, 0x3956C25B, 0x59F111F1, 0x923F82A4, 0xAB1C5ED5,
      0xD807AA98, 0x12835B01, 0x243185BE, 0x550C7DC3, 0x72BE5D74, 0x80DEB1FE, 0x9BDC06A7, 0xC19BF174,
      0xE49B69C1, 0xEFBE4786, 0x0FC19DC6, 0x240CA1CC, 0x2DE92C6F, 0x4A7484AA, 0x5CB0A9DC, 0x76F988DA,
      0x983E5152, 0xA831C66D, 0xB00327C8, 0xBF597FC7, 0xC6E00BF3, 0xD5A79147, 0x06CA6351, 0x14292967,
      0x27B70A85, 0x2E1B2138, 0x4D2C6DFC, 0x53380D13, 0x650A7354, 0x766A0ABB, 0x81C2C92E, 0x92722C85,
      0xA2BFE8A1, 0xA81A664B, 0xC24B8B70, 0xC76C51A3, 0xD192E819, 0xD6990624, 0xF40E3585, 0x106AA070,
      0x19A4C116, 0x1E376C08, 0x2748774C, 0x34B0BCB5, 0x391C0CB3, 0x4ED8AA4A, 0x5B9CCA4F, 0x682E6FF3,
      0x748F82EE, 0x78A5636F, 0x84C87814, 0x8CC70208, 0x90BEFFFA, 0xA4506CEB, 0xBEF9A3F7, 0xC67178F2]"

text \<open>The padded message: a 1 bit, zeros, the length in bits as 64 bits big-endian.\<close>

definition be_bytes :: "nat \<Rightarrow> int \<Rightarrow> bytes" where
  "be_bytes n x = map (\<lambda>i. char_of (x div 256 ^ (n - 1 - i))) [0..<n]"

definition sha_pad :: "bytes \<Rightarrow> bytes" where
  "sha_pad m = m @ CHR 0x80 # replicate ((119 - length m mod 64) mod 64) (CHR 0x00)
     @ be_bytes 8 (8 * int (length m))"

fun be_words :: "bytes \<Rightarrow> word32 list" where
  "be_words (a # b # c # d # s) =
     (push_bit 24 (of_int (of_char a)) OR push_bit 16 (of_int (of_char b))
      OR push_bit 8 (of_int (of_char c)) OR of_int (of_char d)) # be_words s"
| "be_words _ = []"

text \<open>The message schedule: \<open>window\<close> holds the last sixteen words.\<close>

fun sha_schedule :: "nat \<Rightarrow> word32 list \<Rightarrow> word32 list" where
  "sha_schedule 0 window = []"
| "sha_schedule (Suc n) window =
     (let w1 = window ! 1; w14 = window ! 14;
          s0 = rotr32 7 w1 XOR rotr32 18 w1 XOR drop_bit 3 w1;
          s1 = rotr32 17 w14 XOR rotr32 19 w14 XOR drop_bit 10 w14;
          w = window ! 0 + s0 + window ! 9 + s1
      in window ! 0 # sha_schedule n (tl window @ [w]))"

fun sha_round :: "word32 \<times> word32 \<Rightarrow> word32 list \<Rightarrow> word32 list" where
  "sha_round (k, w) [a, b, c, d, e, f, g, h] =
     (let s1 = rotr32 6 e XOR rotr32 11 e XOR rotr32 25 e;
          ch = (e AND f) XOR (NOT e AND g);
          t1 = h + s1 + ch + k + w;
          s0 = rotr32 2 a XOR rotr32 13 a XOR rotr32 22 a;
          maj = (a AND b) XOR (a AND c) XOR (b AND c)
      in [t1 + (s0 + maj), a, b, c, d + t1, e, f, g])"
| "sha_round _ state = state"

definition sha_block :: "word32 list \<Rightarrow> word32 list \<Rightarrow> word32 list" where
  "sha_block state block =
     map2 (+) state (fold sha_round (zip sha_constants (sha_schedule 64 block)) state)"

function sha_blocks :: "word32 list \<Rightarrow> word32 list \<Rightarrow> word32 list" where
  "sha_blocks state ws =
     (if ws = [] then state else sha_blocks (sha_block state (take 16 ws)) (drop 16 ws))"
  by pat_completeness auto
termination
  by (relation "measure (\<lambda>(_, ws). length ws)") auto

declare sha_blocks.simps [simp del]

definition word_bytes :: "word32 \<Rightarrow> bytes" where
  "word_bytes w = be_bytes 4 (uint w)"

definition sha256 :: "bytes \<Rightarrow> bytes" where
  "sha256 m = concat (map word_bytes (sha_blocks sha_initial (be_words (sha_pad m))))"

section \<open>HMAC and hexadecimal text\<close>

definition xor_bytes :: "byte \<Rightarrow> bytes \<Rightarrow> bytes" where
  "xor_bytes x s = map (\<lambda>c. char_of_byte (byte_of c XOR x)) s"

definition hmac_key :: "bytes \<Rightarrow> bytes" where
  "hmac_key key =
     (let k = (if length key > 64 then sha256 key else key)
      in k @ replicate (64 - length k) (CHR 0x00))"

definition hmac_sha256 :: "bytes \<Rightarrow> bytes \<Rightarrow> bytes" where
  "hmac_sha256 key m =
     sha256 (xor_bytes 0x5C (hmac_key key) @ sha256 (xor_bytes 0x36 (hmac_key key) @ m))"

definition lower_hex :: "nat \<Rightarrow> char" where
  "lower_hex d = (if d < 10 then char_of (48 + d) else char_of (87 + d))"

definition hex_encode :: "bytes \<Rightarrow> string" where
  "hex_encode s = concat (map (\<lambda>c. [lower_hex (of_char c div 16), lower_hex (of_char c mod 16)]) s)"

section \<open>Sizes\<close>

lemma length_be_bytes [simp]: "length (be_bytes n x) = n"
  by (simp add: be_bytes_def)

lemma length_sha_round [simp]: "length (sha_round kw state) = length state"
  by (cases "(kw, state)" rule: sha_round.cases) (simp_all add: Let_def)

lemma length_sha_rounds [simp]: "length (fold sha_round kws state) = length state"
  by (induction kws arbitrary: state) simp_all

lemma length_sha_block [simp]: "length (sha_block state block) = length state"
  by (simp add: sha_block_def)

lemma length_sha_blocks [simp]: "length (sha_blocks state ws) = length state"
  by (induction state ws rule: sha_blocks.induct) (subst sha_blocks.simps, simp)

lemma length_concat_const: "(\<And>x. length (f x) = n) \<Longrightarrow> length (concat (map f xs)) = n * length xs"
  by (induction xs) simp_all

lemma length_sha256 [simp]: "length (sha256 m) = 32"
proof -
  have "length (sha256 m) = 4 * length sha_initial"
    unfolding sha256_def by (subst length_concat_const [where n = 4]) (simp_all add: word_bytes_def)
  then show ?thesis by (simp add: sha_initial_def)
qed

lemma length_hmac [simp]: "length (hmac_sha256 key m) = 32"
  by (simp add: hmac_sha256_def)

text \<open>The padded message is a whole number of blocks of 64 bytes.\<close>

lemma pad_arith: "(n + 1 + (119 - n mod 64) mod 64 + 8) mod 64 = (0::nat)"
proof -
  obtain q r where n: "n = 64 * q + r" "r < 64"
    by (metis mod_less_divisor mult_div_mod_eq zero_less_numeral)
  have "(119 - r) mod 64 = (if r < 56 then 55 - r else 119 - r)"
    using n(2) by (auto simp: mod_if)
  then show ?thesis using n by auto
qed

lemma length_sha_pad: "length (sha_pad m) mod 64 = 0"
  using pad_arith [of "length m"] by (simp add: sha_pad_def add.commute add.left_commute)

lemma length_hex_encode [simp]: "length (hex_encode s) = 2 * length s"
  unfolding hex_encode_def by (rule length_concat_const) simp

lemma lower_hex_inj: "d < 16 \<Longrightarrow> e < 16 \<Longrightarrow> lower_hex d = lower_hex e \<Longrightarrow> d = e"
proof -
  assume d: "d < 16" and e: "e < 16" and eq: "lower_hex d = lower_hex e"
  have code: "x < 16 \<Longrightarrow> (of_char (lower_hex x) :: nat) = (if x < 10 then 48 + x else 87 + x)" for x
    by (simp add: lower_hex_def)
  have "(of_char (lower_hex d) :: nat) = of_char (lower_hex e)" using eq by simp
  with d e show "d = e" by (simp add: code split: if_splits)
qed

lemma hex_encode_inj: "hex_encode s = hex_encode t \<longleftrightarrow> s = t"
proof
  show "hex_encode s = hex_encode t \<Longrightarrow> s = t"
  proof (induction s arbitrary: t)
    case Nil
    then show ?case by (cases t) (simp_all add: hex_encode_def)
  next
    case (Cons c s)
    then obtain d t' where t: "t = d # t'" by (cases t) (auto simp: hex_encode_def)
    have lt: "(of_char x :: nat) < 256" for x :: char
      using of_char_mod_256 [of x, where 'a = nat] by (metis mod_less_divisor zero_less_numeral)
    have "lower_hex (of_char c div 16) = lower_hex (of_char d div 16)"
      "lower_hex (of_char c mod 16) = lower_hex (of_char d mod 16)" "hex_encode s = hex_encode t'"
      using Cons.prems by (simp_all add: t hex_encode_def)
    moreover have "(of_char c :: nat) div 16 < 16" "(of_char d :: nat) div 16 < 16"
      using lt [of c] lt [of d] by (simp_all add: less_mult_imp_div_less)
    ultimately have "(of_char c :: nat) div 16 = of_char d div 16" "(of_char c :: nat) mod 16 = of_char d mod 16"
      using lower_hex_inj by simp_all
    then have "(of_char c :: nat) = of_char d"
      by (metis div_mult_mod_eq)
    then have "c = d" by simp
    moreover have "s = t'" using Cons.IH \<open>hex_encode s = hex_encode t'\<close> by simp
    ultimately show ?case by (simp add: t)
  qed
qed simp

end
