(* ===== verification/Delivery.thy ===== *)
theory Delivery
  imports Helpers Crypto
begin

text \<open>
  \<open>delivery.go\<close>: one content delivery to one subscriber. A client is built from a
  subscription (\<open>NewDeliveryClient\<close>); \<open>Deliver\<close> validates, makes one signed request and
  classifies the answer. The round trip is a parameter; the result of \<open>Deliver\<close> lists the
  exchanges it made with the outside, in order. Lemmas: what the constructor accepts, the
  exact request, the classes of the errors.
\<close>

definition HeaderHubSignature :: string where
  "HeaderHubSignature = ''X-Hub-Signature''"

record delivery_config =
  dcfg_client :: "http_client option"
  dcfg_timeout :: duration
  dcfg_max_body :: int

record content_distribution =
  cd_content_type :: string
  cd_body :: "bytes option"
  cd_header :: "header option"

record delivery_response =
  dr_status :: int
  dr_header :: "header option"
  dr_body :: "bytes option"

record delivery_client =
  dc_subscription :: subscription
  dc_client :: http_client
  dc_max_body :: int

definition no_delivery :: delivery_response where
  "no_delivery = \<lparr>dr_status = 0, dr_header = None, dr_body = None\<rparr>"

definition NewDeliveryClient :: "subscription \<Rightarrow> delivery_config \<Rightarrow> error + delivery_client" where
  "NewDeliveryClient subscription config =
     (case validateHTTPURL (sub_hub subscription) ''Hub'' True True of
        Inl e \<Rightarrow> Inl e
      | Inr _ \<Rightarrow>
     (case validateHTTPURL (sub_topic subscription) ''Topic'' False False of
        Inl e \<Rightarrow> Inl e
      | Inr _ \<Rightarrow>
     (case validateHTTPURL (sub_callback subscription) ''Callback'' True True of
        Inl e \<Rightarrow> Inl e
      | Inr _ \<Rightarrow>
          if length (sub_secret subscription) > maxSecretBytes
          then Inl (invalidRequest ''Secret must be shorter than 200 bytes'')
          else if dcfg_timeout config < 0 \<or> dcfg_max_body config < 0
          then Inl (invalidRequest ''delivery configuration values must not be negative'')
          else
            let timeout = (if dcfg_timeout config = 0 then defaultClientTimeout else dcfg_timeout config);
                maxBody = (if dcfg_max_body config = 0 then defaultDeliveryBody else dcfg_max_body config)
            in Inr \<lparr>dc_subscription = subscription, dc_client = newHTTPClient (dcfg_client config) timeout,
                    dc_max_body = maxBody\<rparr>)))"

definition delivery_reserved :: "string list" where
  "delivery_reserved = [''Content-Length'', ''Content-Type'', ''Host'', ''Link'', HeaderHubSignature]"

text \<open>The headers that \<open>Deliver\<close> sets, and its request.\<close>

definition signature :: "string \<Rightarrow> bytes \<Rightarrow> string" where
  "signature secret body = ''sha256='' @ hex_encode (hmac_sha256 secret body)"

definition delivery_headers :: "subscription \<Rightarrow> content_distribution \<Rightarrow> bytes \<Rightarrow> header" where
  "delivery_headers subscription content body =
     (let h1 = copyHeaders [] (cd_header content);
          h2 = header_set ''Content-Type'' (cd_content_type content) h1;
          h3 = header_add ''Link'' (encodedLink (sub_hub subscription) ''hub'') h2;
          h4 = header_add ''Link'' (encodedLink (sub_topic subscription) ''self'') h3
      in if sub_secret subscription \<noteq> []
         then header_set HeaderHubSignature (signature (sub_secret subscription) body) h4 else h4)"

text \<open>What the standard library reports for a failed exchange.\<close>

definition transport_error :: error where
  "transport_error = AppError ''transport error''"

definition bytes_of :: "bytes option \<Rightarrow> bytes" where
  "bytes_of b = (case b of None \<Rightarrow> [] | Some s \<Rightarrow> s)"

type_synonym exchange = "http_request \<times> http_response option"

text \<open>From the response on.\<close>

definition delivery_result :: "int \<Rightarrow> http_response \<Rightarrow> delivery_response \<times> error option" where
  "delivery_result maxBody response =
     (let snapshot = responseSnapshot response maxBody ''content delivery'' (Sentinel ErrDeliveryFailed);
          body = (case snapshot of Inl _ \<Rightarrow> None | Inr b \<Rightarrow> Some b);
          answer = \<lparr>dr_status = rs_status response, dr_header = cloneHeader (Some (rs_header response)),
                    dr_body = cloneBytes body\<rparr>
      in case snapshot of
           Inl readErr \<Rightarrow> (answer, Some readErr)
         | Inr _ \<Rightarrow>
             if 200 \<le> rs_status response \<and> rs_status response < 300 then (answer, None)
             else
               let class = (if rs_status response = 410
                            then errors_join [Sentinel ErrDeliveryFailed, Sentinel ErrSubscriptionGone]
                            else Sentinel ErrDeliveryFailed)
               in (answer, Some (HTTPError ''content delivery'' (rs_status response)
                     (cloneHeader (Some (rs_header response))) (cloneBytes body) (Some class))))"

definition Deliver ::
    "delivery_client option \<Rightarrow> 's round_trip \<Rightarrow> 's \<Rightarrow> content_distribution
     \<Rightarrow> 's \<times> exchange list \<times> delivery_response \<times> error option" where
  "Deliver c rt s content =
     (case c of
        None \<Rightarrow> (s, [], no_delivery, Some (invalidRequest ''DeliveryClient is nil''))
      | Some client \<Rightarrow>
     (case validateContentType (cd_content_type content) of
        Some e \<Rightarrow> (s, [], no_delivery, Some e)
      | None \<Rightarrow>
     (case validateHeaders (cd_header content) delivery_reserved of
        Some e \<Rightarrow> (s, [], no_delivery, Some e)
      | None \<Rightarrow>
          let body = bytes_of (cloneBytes (cd_body content))
          in case new_request ''POST'' (sub_callback (dc_subscription client)) body of
               None \<Rightarrow> (s, [], no_delivery,
                 Some (errors_join [Sentinel ErrDeliveryFailed, transport_error]))
             | Some request0 \<Rightarrow>
                 let request = request0\<lparr>hr_header := delivery_headers (dc_subscription client) content body\<rparr>
                 in case client_do (dc_client client) rt s request of
                      (s', None) \<Rightarrow> (s', [(request, None)], no_delivery,
                        Some (errors_join [Sentinel ErrDeliveryFailed, transport_error]))
                    | (s', Some response) \<Rightarrow>
                        (s', [(request, Some response)],
                         fst (delivery_result (dc_max_body client) response),
                         snd (delivery_result (dc_max_body client) response)))))"

section \<open>The constructor\<close>

definition deliverable :: "subscription \<Rightarrow> bool" where
  "deliverable subscription \<longleftrightarrow>
     (\<exists>u. validateHTTPURL (sub_hub subscription) ''Hub'' True True = Inr u)
     \<and> (\<exists>u. validateHTTPURL (sub_topic subscription) ''Topic'' False False = Inr u)
     \<and> (\<exists>u. validateHTTPURL (sub_callback subscription) ''Callback'' True True = Inr u)
     \<and> length (sub_secret subscription) \<le> maxSecretBytes"

lemma NewDeliveryClient_iff:
  "NewDeliveryClient subscription config = Inr c \<longleftrightarrow>
     deliverable subscription \<and> 0 \<le> dcfg_timeout config \<and> 0 \<le> dcfg_max_body config
     \<and> c = \<lparr>dc_subscription = subscription,
            dc_client = newHTTPClient (dcfg_client config)
              (if dcfg_timeout config = 0 then defaultClientTimeout else dcfg_timeout config),
            dc_max_body = (if dcfg_max_body config = 0 then defaultDeliveryBody else dcfg_max_body config)\<rparr>"
  by (auto simp: NewDeliveryClient_def deliverable_def Let_def split: sum.splits)

lemma NewDeliveryClient_error:
  "NewDeliveryClient subscription config = Inl e \<Longrightarrow> errors_is e (Sentinel ErrInvalidRequest)"
  by (auto simp: NewDeliveryClient_def Let_def dest!: validateHTTPURL_error split: sum.splits if_splits)

section \<open>The request\<close>

lemma canonical_delivery_names:
  "canonical_key ''Content-Type'' = ''Content-Type''" "canonical_key ''Link'' = ''Link''"
  "canonical_key ''X-Hub-Signature'' = ''X-Hub-Signature''"
  by code_simp+

lemma delivery_header_values:
  assumes "validateHeaders (cd_header content) delivery_reserved = None"
  shows "header_values (delivery_headers sub content body) k =
    (if canonical_key k = ''Content-Type'' then [cd_content_type content]
     else if canonical_key k = ''Link''
     then [encodedLink (sub_hub sub) ''hub'', encodedLink (sub_topic sub) ''self'']
     else if canonical_key k = HeaderHubSignature
     then (if sub_secret sub \<noteq> [] then [signature (sub_secret sub) body] else [])
     else header_values (copyHeaders [] (cd_header content)) k)"
proof -
  have reserved: "header_values (copyHeaders [] (cd_header content)) k = []"
    if "canonical_key k \<in> set delivery_reserved"
    using copyHeaders_reserved [OF assms disjI1 [OF that]] by (simp add: header_values_def)
  consider "canonical_key k = ''Content-Type''" | "canonical_key k = ''Link''"
    | "canonical_key k = ''X-Hub-Signature''"
    | "canonical_key k \<notin> {''Content-Type'', ''Link'', ''X-Hub-Signature''}" by blast
  then show ?thesis
    using reserved
    by cases (simp_all add: delivery_headers_def Let_def header_values_set header_values_add
        canonical_delivery_names delivery_reserved_def HeaderHubSignature_def)
qed

section \<open>The outcome\<close>

lemma delivery_result_ok:
  "snd (delivery_result maxBody response) = None \<longleftrightarrow>
     200 \<le> rs_status response \<and> rs_status response < 300
     \<and> (\<exists>b. readBounded (rs_body response) maxBody = Inr b)"
  by (auto simp: delivery_result_def Let_def responseSnapshot_def split: sum.splits)

lemma delivery_result_failed:
  "snd (delivery_result maxBody response) = Some e \<Longrightarrow> errors_is e (Sentinel ErrDeliveryFailed)"
  by (auto simp: delivery_result_def Let_def split: sum.splits if_splits
      intro: responseSnapshot_class)

lemma delivery_result_gone:
  assumes "readBounded (rs_body response) maxBody = Inr b"
  shows "(\<exists>e. snd (delivery_result maxBody response) = Some e \<and> errors_is e (Sentinel ErrSubscriptionGone))
     \<longleftrightarrow> rs_status response = 410"
  using assms by (auto simp: delivery_result_def Let_def responseSnapshot_def split: if_splits)

lemma delivery_result_answer:
  assumes "delivery_result maxBody response = (answer, err)"
  shows "dr_status answer = rs_status response
    \<and> dr_header answer = cloneHeader (Some (rs_header response))
    \<and> (\<forall>b. dr_body answer = Some b \<longrightarrow> readBounded (rs_body response) maxBody = Inr b)"
  using assms
  by (auto simp: delivery_result_def Let_def responseSnapshot_def cloneBytes_def
      split: sum.splits if_splits list.splits)

text \<open>A delivery that passes the validation is one round trip with the request below.\<close>

definition delivery_request :: "delivery_client \<Rightarrow> content_distribution \<Rightarrow> http_request" where
  "delivery_request c content =
     \<lparr>hr_method = ''POST'', hr_url = sub_callback (dc_subscription c),
      hr_header = delivery_headers (dc_subscription c) content (bytes_of (cd_body content)),
      hr_body = bytes_of (cd_body content)\<rparr>"

lemma bytes_of_clone [simp]: "bytes_of (cloneBytes b) = bytes_of b"
  by (auto simp: bytes_of_def cloneBytes_def split: option.splits list.splits)

lemma Deliver_valid:
  assumes "validateContentType (cd_content_type content) = None"
    and "validateHeaders (cd_header content) delivery_reserved = None"
    and "parse_url (sub_callback (dc_subscription c)) = Some u"
  shows "Deliver (Some c) rt s content =
    (case client_do (dc_client c) rt s (delivery_request c content) of
       (s', None) \<Rightarrow> (s', [(delivery_request c content, None)], no_delivery,
         Some (errors_join [Sentinel ErrDeliveryFailed, transport_error]))
     | (s', Some response) \<Rightarrow> (s', [(delivery_request c content, Some response)],
         delivery_result (dc_max_body c) response))"
  using assms by (simp add: Deliver_def Let_def new_request_def delivery_request_def split: prod.split option.split)

lemma Deliver_invalid:
  assumes "validateContentType (cd_content_type content) \<noteq> None
    \<or> validateHeaders (cd_header content) delivery_reserved \<noteq> None"
  shows "\<exists>e. Deliver (Some c) rt s content = (s, [], no_delivery, Some e)
    \<and> errors_is e (Sentinel ErrInvalidRequest)"
  using assms validateContentType_error [of "cd_content_type content"]
    validateHeaders_error [of "cd_header content" delivery_reserved]
  by (cases "validateContentType (cd_content_type content)";
      cases "validateHeaders (cd_header content) delivery_reserved") (auto simp: Deliver_def)

lemma Deliver_no_url:
  assumes "validateContentType (cd_content_type content) = None"
    and "validateHeaders (cd_header content) delivery_reserved = None"
    and "parse_url (sub_callback (dc_subscription c)) = None"
  shows "Deliver (Some c) rt s content = (s, [], no_delivery,
    Some (errors_join [Sentinel ErrDeliveryFailed, transport_error]))"
  using assms by (simp add: Deliver_def Let_def new_request_def)

lemmas delivery_eval [go_eval] = NewDeliveryClient_def delivery_reserved_def HeaderHubSignature_def
  delivery_headers_def bytes_of_def delivery_result_def delivery_request_def Deliver_def

end
