(* ===== verification/Publisher.thy ===== *)
theory Publisher
  imports Delivery
begin

text \<open>
  \<open>publisher.go\<close>: the client of the publisher extension. A \<open>RegisterTopicOption\<close> value is
  the nil interface, a nil function in it, or what \<open>WithTopicContentType\<close> returns. Each
  operation gives the new outside state, the exchanges made and the error (\<open>None\<close> for nil).
  Lemmas: the requests, what each outcome of the exchange becomes, and when the options are
  accepted.
\<close>

record publisher_config =
  pcfg_hub_url :: string
  pcfg_client :: "http_client option"
  pcfg_max_body :: int

record publisher_client =
  pc_hub_url :: string
  pc_client :: http_client
  pc_max_body :: int

definition HeaderGoPublisher :: string where
  "HeaderGoPublisher = ''X-Go-Publisher''"

datatype register_topic_option = NilOption | NilOptionFunc | WithTopicContentType string

record register_topic_options =
  ro_content_type :: string
  ro_content_type_set :: bool

definition no_options :: register_topic_options where
  "no_options = \<lparr>ro_content_type = [], ro_content_type_set = False\<rparr>"

definition apply_option :: "register_topic_option \<Rightarrow> register_topic_options \<Rightarrow> error + register_topic_options" where
  "apply_option opt options =
     (case opt of
        NilOption \<Rightarrow> Inl (invalidRequest ''RegisterTopicOption must not be nil'')
      | NilOptionFunc \<Rightarrow> Inl (invalidRequest ''RegisterTopicOption must not be nil'')
      | WithTopicContentType contentType \<Rightarrow>
          if ro_content_type_set options
          then Inl (invalidRequest ''topic content type must not be supplied more than once'')
          else case validateContentType contentType of
                 Some e \<Rightarrow> Inl e
               | None \<Rightarrow> Inr (options\<lparr>ro_content_type := contentType, ro_content_type_set := True\<rparr>))"

fun apply_options :: "register_topic_option list \<Rightarrow> register_topic_options \<Rightarrow> error + register_topic_options" where
  "apply_options [] options = Inr options"
| "apply_options (opt # supplied) options =
     (case apply_option opt options of
        Inl e \<Rightarrow> Inl e
      | Inr options' \<Rightarrow> apply_options supplied options')"

definition NewPublisherClient :: "publisher_config \<Rightarrow> error + publisher_client" where
  "NewPublisherClient config =
     (case validateHTTPURL (pcfg_hub_url config) ''HubURL'' True True of
        Inl e \<Rightarrow> Inl e
      | Inr _ \<Rightarrow>
          if pcfg_max_body config < 0 then Inl (invalidRequest ''MaxResponseBody must not be negative'')
          else
            let maxBody = (if pcfg_max_body config = 0 then defaultDeliveryBody else pcfg_max_body config)
            in Inr \<lparr>pc_hub_url = pcfg_hub_url config,
                    pc_client = newHTTPClient (pcfg_client config) defaultClientTimeout,
                    pc_max_body = maxBody\<rparr>)"

text \<open>\<open>do\<close>: the exchange and its classification.\<close>

definition publisher_result :: "int \<Rightarrow> http_response \<Rightarrow> error option" where
  "publisher_result maxBody response =
     (case responseSnapshot response maxBody ''publisher request'' (Sentinel ErrPublisherFailed) of
        Inl readErr \<Rightarrow> Some readErr
      | Inr body \<Rightarrow>
          if 200 \<le> rs_status response \<and> rs_status response < 300 \<and> formAccepted body then None
          else Some (HTTPError ''publisher request'' (rs_status response)
                 (cloneHeader (Some (rs_header response))) (cloneBytes (Some body))
                 (Some (Sentinel ErrPublisherFailed))))"

definition publisher_do ::
    "publisher_client \<Rightarrow> 's round_trip \<Rightarrow> 's \<Rightarrow> http_request \<Rightarrow> 's \<times> exchange list \<times> error option" where
  "publisher_do c rt s request =
     (case client_do (pc_client c) rt s request of
        (s', None) \<Rightarrow> (s', [(request, None)], Some (errors_join [Sentinel ErrPublisherFailed, transport_error]))
      | (s', Some response) \<Rightarrow> (s', [(request, Some response)], publisher_result (pc_max_body c) response))"

definition publisher_form :: "mode \<Rightarrow> string \<Rightarrow> url_values \<Rightarrow> url_values" where
  "publisher_form mode topic extra =
     fold (\<lambda>(name, vs). map_put name vs) extra [(''hub.mode'', [mode]), (''hub.topic'', [topic])]"

definition sendForm ::
    "publisher_client option \<Rightarrow> 's round_trip \<Rightarrow> 's \<Rightarrow> mode \<Rightarrow> string \<Rightarrow> string \<Rightarrow> url_values
     \<Rightarrow> 's \<times> exchange list \<times> error option" where
  "sendForm client rt s mode topic extensionMode extra =
     (case client of
        None \<Rightarrow> (s, [], Some (invalidRequest ''PublisherClient is nil''))
      | Some c \<Rightarrow>
     (case validateHTTPURL topic ''Topic'' False False of
        Inl e \<Rightarrow> (s, [], Some e)
      | Inr _ \<Rightarrow>
     (case new_request ''POST'' (pc_hub_url c) (encode_values (publisher_form mode topic extra)) of
        None \<Rightarrow> (s, [], Some (errors_join [Sentinel ErrPublisherFailed, transport_error]))
      | Some request0 \<Rightarrow>
          let h1 = header_set ''Content-Type'' form_type (hr_header request0);
              h2 = (if extensionMode \<noteq> [] then header_set HeaderGoPublisher extensionMode h1 else h1)
          in publisher_do c rt s (request0\<lparr>hr_header := h2\<rparr>))))"

definition RegisterTopic ::
    "publisher_client option \<Rightarrow> 's round_trip \<Rightarrow> 's \<Rightarrow> string \<Rightarrow> register_topic_option list
     \<Rightarrow> 's \<times> exchange list \<times> error option" where
  "RegisterTopic client rt s topic supplied =
     (case client of
        None \<Rightarrow> (s, [], Some (invalidRequest ''PublisherClient is nil''))
      | Some c \<Rightarrow>
     (case apply_options supplied no_options of
        Inl e \<Rightarrow> (s, [], Some e)
      | Inr options \<Rightarrow>
          let extra = (if ro_content_type_set options
                        then values_set ''hub.content_type'' (ro_content_type options) [] else [])
          in sendForm (Some c) rt s ModeRegister topic [] extra))"

definition DeregisterTopic ::
    "publisher_client option \<Rightarrow> 's round_trip \<Rightarrow> 's \<Rightarrow> string \<Rightarrow> 's \<times> exchange list \<times> error option" where
  "DeregisterTopic client rt s topic = sendForm client rt s ModeDeregister topic [] []"

definition Notify ::
    "publisher_client option \<Rightarrow> 's round_trip \<Rightarrow> 's \<Rightarrow> string \<Rightarrow> 's \<times> exchange list \<times> error option" where
  "Notify client rt s topic = sendForm client rt s ModePublish topic ''event'' []"

definition publish_reserved :: "string list" where
  "publish_reserved = [''Content-Length'', ''Content-Type'', ''Host'', HeaderGoPublisher]"

definition publish_target :: "url \<Rightarrow> string \<Rightarrow> url" where
  "publish_target target topic =
     (let query0 = fst (parse_query (u_raw_query target));
          query1 = values_set ''hub.mode'' ModePublish query0;
          query = values_set ''hub.topic'' topic query1
      in target\<lparr>u_raw_query := encode_values query\<rparr>)"

definition Publish ::
    "publisher_client option \<Rightarrow> 's round_trip \<Rightarrow> 's \<Rightarrow> update_message \<Rightarrow> 's \<times> exchange list \<times> error option" where
  "Publish client rt s message =
     (case client of
        None \<Rightarrow> (s, [], Some (invalidRequest ''PublisherClient is nil''))
      | Some c \<Rightarrow>
     (case validateHTTPURL (upd_topic message) ''Topic'' False False of
        Inl e \<Rightarrow> (s, [], Some e)
      | Inr _ \<Rightarrow>
     (case validateContentType (upd_content_type message) of
        Some e \<Rightarrow> (s, [], Some e)
      | None \<Rightarrow>
     (case validateHeaders (upd_header message) publish_reserved of
        Some e \<Rightarrow> (s, [], Some e)
      | None \<Rightarrow>
     (case parse_url (pc_hub_url c) of
        None \<Rightarrow> (s, [], Some (errors_join [Sentinel ErrPublisherFailed, transport_error]))
      | Some target \<Rightarrow>
     (case new_request ''POST'' (url_string (publish_target target (upd_topic message)))
             (bytes_of (cloneBytes (upd_body message))) of
        None \<Rightarrow> (s, [], Some (errors_join [Sentinel ErrPublisherFailed, transport_error]))
      | Some request0 \<Rightarrow>
          let h1 = copyHeaders (hr_header request0) (upd_header message);
              h2 = header_set ''Content-Type'' (upd_content_type message) h1;
              h3 = header_set HeaderGoPublisher ''publish'' h2
          in publisher_do c rt s (request0\<lparr>hr_header := h3\<rparr>)))))))"

section \<open>Construction and options\<close>

lemma NewPublisherClient_iff:
  "NewPublisherClient config = Inr c \<longleftrightarrow>
     (\<exists>u. validateHTTPURL (pcfg_hub_url config) ''HubURL'' True True = Inr u) \<and> 0 \<le> pcfg_max_body config
     \<and> c = \<lparr>pc_hub_url = pcfg_hub_url config,
            pc_client = newHTTPClient (pcfg_client config) defaultClientTimeout,
            pc_max_body = (if pcfg_max_body config = 0 then defaultDeliveryBody else pcfg_max_body config)\<rparr>"
  by (auto simp: NewPublisherClient_def Let_def split: sum.splits)

text \<open>Options are accepted exactly when there is none, or one valid content type.\<close>

lemma apply_options_set:
  "ro_content_type_set options \<Longrightarrow> apply_options supplied options = Inr o' \<longleftrightarrow> supplied = [] \<and> o' = options"
  by (cases supplied; cases "hd supplied") (auto simp: apply_option_def)

lemma apply_options_iff:
  "apply_options supplied no_options = Inr options \<longleftrightarrow>
     supplied = [] \<and> options = no_options
     \<or> (\<exists>t. supplied = [WithTopicContentType t] \<and> validateContentType t = None
          \<and> options = \<lparr>ro_content_type = t, ro_content_type_set = True\<rparr>)"
proof (cases supplied)
  case (Cons opt rest)
  show ?thesis
  proof (cases opt)
    case (WithTopicContentType t)
    then show ?thesis
      using Cons apply_options_set [of "\<lparr>ro_content_type = t, ro_content_type_set = True\<rparr>" rest options]
      by (auto simp: apply_option_def no_options_def split: option.splits)
  qed (simp_all add: Cons apply_option_def)
qed auto

lemma apply_options_error:
  "apply_options supplied options = Inl e \<Longrightarrow> errors_is e (Sentinel ErrInvalidRequest)"
  by (induction supplied arbitrary: options)
    (auto simp: apply_option_def dest: validateContentType_error
      split: sum.splits register_topic_option.splits if_splits option.splits)

section \<open>The classification of the answer\<close>

text \<open>Success is a 2xx answer whose body, within the limit, is a form with the single mode
  \<open>accepted\<close>; everything else is a publisher failure.\<close>

lemma publisher_result_ok:
  "publisher_result maxBody response = None \<longleftrightarrow>
     200 \<le> rs_status response \<and> rs_status response < 300
     \<and> (\<exists>body. readBounded (rs_body response) maxBody = Inr body \<and> formAccepted body)"
  by (auto simp: publisher_result_def responseSnapshot_def split: sum.splits)

lemma publisher_result_failed:
  "publisher_result maxBody response = Some e \<Longrightarrow> errors_is e (Sentinel ErrPublisherFailed)"
  by (auto simp: publisher_result_def intro: responseSnapshot_class split: sum.splits if_splits)

lemma publisher_do_error:
  "publisher_do c rt s q = (s', ex, Some e) \<Longrightarrow> errors_is e (Sentinel ErrPublisherFailed)"
  by (auto simp: publisher_do_def dest: publisher_result_failed split: prod.splits option.splits)

section \<open>The form\<close>

definition form_fields :: "mode \<Rightarrow> string \<Rightarrow> string option \<Rightarrow> url_values" where
  "form_fields mode topic contentType =
     [(''hub.mode'', [mode]), (''hub.topic'', [topic])]
     @ (case contentType of None \<Rightarrow> [] | Some t \<Rightarrow> [(''hub.content_type'', [t])])"

lemma publisher_form_fields:
  "publisher_form mode topic [] = form_fields mode topic None"
  "publisher_form mode topic (values_set ''hub.content_type'' t []) = form_fields mode topic (Some t)"
  by (simp_all add: publisher_form_def form_fields_def values_set_def map_put_def)

lemma form_fields_parse:
  shows "snd (parse_query (encode_values (form_fields mode topic ct))) = False"
    and "map_get (fst (parse_query (encode_values (form_fields mode topic ct)))) k =
      map_get (form_fields mode topic ct) k"
proof -
  have ok: "map_ok (form_fields mode topic ct)"
    by (simp add: map_ok_def form_fields_def split: option.split)
  have "map_get (form_fields mode topic ct) j \<noteq> Some []" for j
    by (simp add: form_fields_def split: option.split)
  from parse_query_encode [OF ok this]
  show "snd (parse_query (encode_values (form_fields mode topic ct))) = False"
    and "map_get (fst (parse_query (encode_values (form_fields mode topic ct)))) k =
      map_get (form_fields mode topic ct) k"
    by auto
qed

definition form_request_of :: "publisher_client \<Rightarrow> string \<Rightarrow> url_values \<Rightarrow> http_request" where
  "form_request_of c extensionMode form =
     \<lparr>hr_method = ''POST'', hr_url = pc_hub_url c,
      hr_header = (if extensionMode \<noteq> []
        then header_set HeaderGoPublisher extensionMode (header_set ''Content-Type'' form_type [])
        else header_set ''Content-Type'' form_type []),
      hr_body = encode_values form\<rparr>"

lemma sendForm_valid:
  assumes "validateHTTPURL topic ''Topic'' False False = Inr u" and "parse_url (pc_hub_url c) = Some v"
  shows "sendForm (Some c) rt s mode topic ext extra =
    publisher_do c rt s (form_request_of c ext (publisher_form mode topic extra))"
  using assms by (simp add: sendForm_def Let_def new_request_def form_request_of_def)

lemma sendForm_invalid:
  assumes "validateHTTPURL topic ''Topic'' False False = Inl e"
  shows "sendForm (Some c) rt s mode topic ext extra = (s, [], Some e)"
  using assms by (simp add: sendForm_def)

lemma RegisterTopic_valid:
  assumes "validateHTTPURL topic ''Topic'' False False = Inr u" and "parse_url (pc_hub_url c) = Some v"
    and "apply_options supplied no_options = Inr options"
  shows "RegisterTopic (Some c) rt s topic supplied =
    publisher_do c rt s (form_request_of c [] (form_fields ModeRegister topic
      (if ro_content_type_set options then Some (ro_content_type options) else None)))"
  using assms by (simp add: RegisterTopic_def sendForm_valid publisher_form_fields)

lemmas publisher_eval [go_eval] = HeaderGoPublisher_def no_options_def apply_option_def
  NewPublisherClient_def publisher_result_def publisher_do_def publisher_form_def sendForm_def
  RegisterTopic_def DeregisterTopic_def Notify_def publish_reserved_def publish_target_def Publish_def

end
