(* ===== verification/Extension.thy ===== *)
theory Extension
  imports ServeProps CallbackQuery Publisher
begin

text \<open>
  The publisher extension end to end: the requests of \<open>PublisherClient\<close> (\<open>Publisher\<close>) served
  by the hub's \<open>ServeHTTP\<close> (\<open>Dispatch\<close>). \<open>hub_round_trip\<close> is the round trip that hands the
  client's request to the handler and its committed response back. Lemmas: the application
  gets the topic, the content type, the kind and the bytes the publisher sent, and the
  publisher gets nil exactly when the application accepts.
\<close>

definition inbound :: "http_request \<Rightarrow> string \<Rightarrow> request" where
  "inbound q remote =
     \<lparr>rq_method = hr_method q, rq_header = hr_header q,
      rq_raw_query = (case parse_url (hr_url q) of None \<Rightarrow> [] | Some u \<Rightarrow> u_raw_query u),
      rq_body = \<lparr>rd_data = hr_body q, rd_err = False\<rparr>, rq_remote_addr = remote\<rparr>"

definition response_of :: "response_writer outcome \<Rightarrow> http_response option" where
  "response_of out =
     (case out of
        Panicked \<Rightarrow> None
      | Returned w \<Rightarrow>
          (case rw_sent w of
             None \<Rightarrow> Some \<lparr>rs_status = 200, rs_header = rw_header w,
                          rs_body = \<lparr>rd_data = rw_body w, rd_err = False\<rparr>\<rparr>
           | Some (status, h) \<Rightarrow> Some \<lparr>rs_status = status, rs_header = h,
                          rs_body = \<lparr>rd_data = rw_body w, rd_err = False\<rparr>\<rparr>))"

definition hub_round_trip :: "'s handler \<Rightarrow> admission \<Rightarrow> string \<Rightarrow> 's round_trip" where
  "hub_round_trip h ad remote s q =
     (let v = ServeHTTP h id new_writer (inbound q remote) s ad
      in (sv_state v, response_of (sv_response v)))"

lemma inbound_fields [simp]:
  "rq_method (inbound q remote) = hr_method q" "rq_header (inbound q remote) = hr_header q"
  "rq_body (inbound q remote) = \<lparr>rd_data = hr_body q, rd_err = False\<rparr>"
  "rq_remote_addr (inbound q remote) = remote"
  by (simp_all add: inbound_def)

section \<open>The hub's answer\<close>

text \<open>The default answer of the extension reads as acceptance.\<close>

definition accepted_text :: string where
  "accepted_text = ''hub.mode=accepted''"

lemma encode_accepted: "encode_values accepted_form = accepted_text"
  by code_simp

lemma accepted_text_ok: "formAccepted accepted_text" "length accepted_text = 17"
  by code_simp+

lemma finish_default:
  assumes "st = 200 \<or> st = 202"
  shows "\<exists>w. finish_extension st zero_result None new_writer s ad = respond s ad w
    \<and> (\<exists>hdr. rw_sent w = Some (st, hdr)) \<and> rw_body w = accepted_text"
proof -
  have "cloneResult zero_result = zero_result" "validateResult zero_result = None"
    by code_simp+
  then have "finish_extension st zero_result None new_writer s ad =
      respond s ad (writeResult new_writer zero_result st (Some accepted_text))"
    by (simp add: finish_extension_def encode_accepted)
  moreover have "rw_body (writeResult new_writer zero_result st (Some accepted_text)) = accepted_text"
    "\<exists>hdr. rw_sent (writeResult new_writer zero_result st (Some accepted_text)) = Some (st, hdr)"
    using assms
    by (auto simp: writeResult_def zero_result_def new_writer_def write_header_def write_body_def
        rw_set_def Let_def body_allowed_def accepted_text_def)
  ultimately show ?thesis by blast
qed

lemma publisher_result_accepted:
  assumes "17 \<le> maxBody" "maxBody < 2 ^ 63 - 1" "200 \<le> st" "st < 300"
  shows "publisher_result maxBody \<lparr>rs_status = st, rs_header = hdr,
    rs_body = \<lparr>rd_data = accepted_text, rd_err = False\<rparr>\<rparr> = None"
proof -
  have "readBounded \<lparr>rd_data = accepted_text, rd_err = False\<rparr> maxBody = Inr accepted_text"
    using assms(1,2) by (simp add: readBounded_spec accepted_text_ok)
  then show ?thesis using assms accepted_text_ok by (simp add: publisher_result_ok)
qed

text \<open>What the publisher sees of an answer of the handler: nil for the default result of an
  application, a publisher failure for an error or a panic.\<close>

definition seen :: "publisher_client \<Rightarrow> 's served \<Rightarrow> error option" where
  "seen c v =
     (case response_of (sv_response v) of
        None \<Rightarrow> Some (errors_join [Sentinel ErrPublisherFailed, transport_error])
      | Some r \<Rightarrow> publisher_result (pc_max_body c) r)"

lemma publisher_do_hub:
  assumes "cl_check_redirect (pc_client c) = UseLastResponse"
  shows "publisher_do c (hub_round_trip h ad remote) s q =
    (let v = ServeHTTP h id new_writer (inbound q remote) s ad
     in (sv_state v, [(q, response_of (sv_response v))], seen c v))"
  using assms
  by (simp add: publisher_do_def client_do_refuse hub_round_trip_def seen_def Let_def split: option.split)

lemma seen_accepted:
  assumes "st = 200 \<or> st = 202" and "17 \<le> pc_max_body c" and "pc_max_body c < 2 ^ 63 - 1"
  shows "seen c (finish_extension st zero_result None new_writer s ad) = None"
proof -
  obtain w hdr where "finish_extension st zero_result None new_writer s ad = respond s ad w"
      "rw_sent w = Some (st, hdr)" "rw_body w = accepted_text"
    using finish_default [OF assms(1), of s ad] by blast
  then show ?thesis
    using publisher_result_accepted [OF assms(2,3), of st] assms(1)
    by (auto simp: seen_def respond_def response_of_def)
qed

lemma seen_denied:
  "\<exists>e'. seen c (finish_extension st res (Some e) new_writer s ad) = Some e'
     \<and> errors_is e' (Sentinel ErrPublisherFailed)"
proof (cases "writeExtensionDenied new_writer e")
  case (Returned w)
  then have "errors_as_denied e \<noteq> Some None" by (auto simp: writeExtensionDenied_def)
  then obtain hdr where "rw_sent w = Some (400, hdr)"
    using Returned writeExtensionDenied_status [of new_writer e] by (auto simp: rw_status_def committed_once_def)
  then have "seen c (finish_extension st res (Some e) new_writer s ad) \<noteq> None"
    using Returned
    by (simp add: finish_extension_def respond_or_panic_def respond_def seen_def response_of_def
        publisher_result_ok)
  then obtain e' where e': "seen c (finish_extension st res (Some e) new_writer s ad) = Some e'" by auto
  then show ?thesis
    by (auto simp: seen_def dest: publisher_result_failed split: option.splits)
next
  case Panicked
  then show ?thesis
    by (simp add: finish_extension_def respond_or_panic_def seen_def response_of_def)
qed

section \<open>Registration\<close>

lemma form_headers:
  "header_get (header_set ''Content-Type'' form_type []) ''Content-Type'' = form_type"
  "header_values (header_set ''Content-Type'' form_type []) publisherHeader = []"
  by code_simp+

text \<open>A form that the client sends is a plain form post, when its body fits.\<close>

lemma inbound_form_post:
  assumes "int (length (encode_values (form_fields mode topic ct))) \<le> MaxRequestBody (h_config h)"
  shows "form_post h (inbound (form_request_of c [] (form_fields mode topic ct)) remote)
    (fst (parse_query (encode_values (form_fields mode topic ct))))"
  using assms form_fields_parse(1) [of mode topic ct]
  by (simp add: form_post_def form_request_of_def form_headers readRequestBody_iff prod_eq_iff)

lemma requiredSingle_form:
  "requiredSingle (fst (parse_query (encode_values (form_fields mode topic ct)))) ''hub.mode'' =
     requiredSingle (form_fields mode topic ct) ''hub.mode''"
  "requiredSingle (fst (parse_query (encode_values (form_fields mode topic ct)))) ''hub.topic'' =
     requiredSingle (form_fields mode topic ct) ''hub.topic''"
  by (simp_all add: requiredSingle_def form_fields_parse(2))

lemma valid_content_type_nonempty: "validateContentType t = None \<Longrightarrow> t \<noteq> []"
  by (auto simp: validateContentType_def parseMediaType_def)

lemma serveRegistration_form:
  assumes "EnablePublisherExtension (h_config h)" and "topic \<noteq> []"
    and "validateHTTPURL topic name False False = Inr u" and "\<forall>t. ct = Some t \<longrightarrow> validateContentType t = None"
  shows "serveRegistration h w request (fst (parse_query (encode_values (form_fields m topic ct)))) False s ad =
    (case call_extension (OnRegisterTopic (h_service h)) s
        \<lparr>reg_mode = ModeRegister, reg_topic = decode_unreserved topic,
         reg_content_type = (case ct of None \<Rightarrow> [] | Some t \<Rightarrow> t)\<rparr> (metadataFromRequest request) of
       (s', res, err) \<Rightarrow> finish_extension 200 res err w s' ad)"
proof -
  have topic: "requiredSingle (form_fields m topic ct) ''hub.topic'' = Inr topic"
    using assms(2) by (simp add: requiredSingle_def form_fields_def values_get_def)
  have norm: "normalizeHTTPURL topic ''hub.topic'' False False = Inr (decode_unreserved topic)"
    using assms(3) by (auto simp: normalizeHTTPURL_iff validateHTTPURL_iff)
  have "map_get (fst (parse_query (encode_values (form_fields m topic ct)))) ''hub.content_type'' =
      map_option (\<lambda>t. [t]) ct"
    unfolding form_fields_parse(2) by (simp add: form_fields_def split: option.split)
  then have content: "registration_content_type (fst (parse_query (encode_values (form_fields m topic ct)))) False =
      Some (case ct of None \<Rightarrow> [] | Some t \<Rightarrow> t)"
    using assms(4) valid_content_type_nonempty
    by (cases ct) (auto simp: registration_content_type_def)
  show ?thesis
    using assms(1) by (simp add: serveRegistration_def requiredSingle_form topic norm content)
qed

lemma valid_topic_nonempty: "validateHTTPURL topic name a b = Inr u \<Longrightarrow> topic \<noteq> []"
proof
  assume "validateHTTPURL topic name a b = Inr u" "topic = []"
  moreover have "parse_url [] = Some empty_url \<or> parse_url [] = None" by code_simp
  ultimately show False by (auto simp: validateHTTPURL_iff http_url_def empty_url_def)
qed

lemma register_served:
  assumes "EnablePublisherExtension (h_config h)" and "\<not> ad_closed ad"
    and "validateHTTPURL topic name False False = Inr u" and "\<forall>t. ct = Some t \<longrightarrow> validateContentType t = None"
    and "int (length (encode_values (form_fields ModeRegister topic ct))) \<le> MaxRequestBody (h_config h)"
  shows "ServeHTTP h id new_writer
      (inbound (form_request_of c [] (form_fields ModeRegister topic ct)) remote) s ad =
    (case call_extension (OnRegisterTopic (h_service h)) s
        \<lparr>reg_mode = ModeRegister, reg_topic = decode_unreserved topic,
         reg_content_type = (case ct of None \<Rightarrow> [] | Some t \<Rightarrow> t)\<rparr>
        (metadataFromRequest (inbound (form_request_of c [] (form_fields ModeRegister topic ct)) remote)) of
       (s', res, err) \<Rightarrow> finish_extension 200 res err new_writer s' ad)"
proof -
  let ?q = "inbound (form_request_of c [] (form_fields ModeRegister topic ct)) remote"
  note post = inbound_form_post [OF assms(5), of c remote]
  have mode: "requiredSingle (form_fields ModeRegister topic ct) ''hub.mode'' = Inr ModeRegister"
    by (simp add: requiredSingle_def form_fields_def values_get_def ModeRegister_def)
  have "serve_form h id new_writer ?q s ad = serveRegistration h new_writer ?q
      (fst (parse_query (encode_values (form_fields ModeRegister topic ct)))) False s ad"
    using post
    by (simp add: serve_form_def form_post_def requiredSingle_form mode)
      (simp add: ModeRegister_def ModeSubscribe_def ModeUnsubscribe_def)
  then show ?thesis
    using ServeHTTP_form_post [OF post assms(2), of id new_writer s]
      serveRegistration_form [OF assms(1) valid_topic_nonempty [OF assms(3)] assms(3,4)] by simp
qed

section \<open>Events\<close>

lemma event_headers:
  "header_get (header_set HeaderGoPublisher ''event'' (header_set ''Content-Type'' form_type [])) ''Content-Type''
     = form_type"
  "header_values (header_set HeaderGoPublisher ''event'' (header_set ''Content-Type'' form_type [])) publisherHeader
     = [''event'']"
  "to_lower (trim_space ''event'') = ''event''"
  by code_simp+

lemma notify_served:
  assumes "EnablePublisherExtension (h_config h)" and "\<not> ad_closed ad"
    and "validateHTTPURL topic name False False = Inr u"
    and "int (length (encode_values (form_fields ModePublish topic None))) \<le> MaxRequestBody (h_config h)"
  shows "ServeHTTP h id new_writer
      (inbound (form_request_of c ''event'' (form_fields ModePublish topic None)) remote) s ad =
    serveUpdate h new_writer (inbound (form_request_of c ''event'' (form_fields ModePublish topic None)) remote)
      \<lparr>upd_kind = UpdateEvent, upd_topic = decode_unreserved topic, upd_content_type = form_type,
       upd_body = None,
       upd_header = cloneHeader (Some (hr_header (form_request_of c ''event'' (form_fields ModePublish topic None))))\<rparr> s ad"
proof -
  let ?f = "form_fields ModePublish topic None"
  let ?q = "inbound (form_request_of c ''event'' ?f) remote"
  have hdr: "header_get (rq_header ?q) ''Content-Type'' = form_type"
    "header_values (rq_header ?q) publisherHeader = [''event'']"
    by (simp_all add: form_request_of_def event_headers)
  have body: "readRequestBody h ?q = Inr (encode_values ?f)"
    using assms(4) by (simp add: readRequestBody_iff form_request_of_def)
  obtain form where form: "parse_query (encode_values ?f) = (form, False)"
    "\<And>k. map_get form k = map_get ?f k"
    using form_fields_parse [of ModePublish topic None] by (metis prod.collapse)
  have mode: "values_get form ''hub.mode'' = ModePublish" "map_get form ''hub.mode'' = Some [ModePublish]"
    by (simp_all add: form(2) values_get_def form_fields_def)
  have topic: "requiredSingle form ''hub.topic'' = Inr topic"
    using valid_topic_nonempty [OF assms(3)]
    by (simp add: requiredSingle_def form(2) form_fields_def values_get_def)
  have norm: "normalizeHTTPURL topic ''hub.topic'' False False = Inr (decode_unreserved topic)"
    using assms(3) by (auto simp: normalizeHTTPURL_iff validateHTTPURL_iff)
  have "ServeHTTP h id new_writer ?q s ad = serve_event_form h new_writer ?q form_type form_type s ad"
    using assms(2) by (simp add: ServeHTTP_def hdr isClosed_def form_media_type event_headers form_request_of_def)
  also have "\<dots> = serveEvent h new_writer ?q form form_type s ad"
    using assms(1) by (simp add: serve_event_form_def body form(1) mode)
  finally show ?thesis by (simp add: serveEvent_def topic norm)
qed

section \<open>Content\<close>

text \<open>The request of \<open>Publish\<close>.\<close>

definition publish_request :: "publisher_client \<Rightarrow> url \<Rightarrow> update_message \<Rightarrow> http_request" where
  "publish_request c target message =
     \<lparr>hr_method = ''POST'', hr_url = url_string (publish_target target (upd_topic message)),
      hr_header = header_set HeaderGoPublisher ''publish''
        (header_set ''Content-Type'' (upd_content_type message) (copyHeaders [] (upd_header message))),
      hr_body = bytes_of (upd_body message)\<rparr>"

lemma Publish_valid:
  assumes "validateHTTPURL (upd_topic message) ''Topic'' False False = Inr u"
    and "validateContentType (upd_content_type message) = None"
    and "validateHeaders (upd_header message) publish_reserved = None"
    and "parse_url (pc_hub_url c) = Some target"
    and "parse_url (url_string (publish_target target (upd_topic message))) = Some v"
  shows "Publish (Some c) rt s message = publisher_do c rt s (publish_request c target message)"
  using assms by (simp add: Publish_def Let_def new_request_def publish_request_def)

lemma publish_headers:
  "header_get (hr_header (publish_request c target message)) ''Content-Type'' = upd_content_type message"
  "header_values (hr_header (publish_request c target message)) publisherHeader = [''publish'']"
proof -
  have keys: "canonical_key ''Content-Type'' = ''Content-Type''"
    "canonical_key HeaderGoPublisher = ''X-Go-Publisher''" "canonical_key publisherHeader = ''X-Go-Publisher''"
    by code_simp+
  show "header_get (hr_header (publish_request c target message)) ''Content-Type'' = upd_content_type message"
    "header_values (hr_header (publish_request c target message)) publisherHeader = [''publish'']"
    by (simp_all add: publish_request_def header_get_values header_values_set keys)
qed

lemma map_ok_values_set: "map_ok m \<Longrightarrow> map_ok (values_set k v m)"
  by (simp add: values_set_def gmap.ok_put)

lemma publish_query:
  assumes "parse_url (pc_hub_url c) = Some target" and "http_url True True target"
    and "parse_url (hr_url (publish_request c target message)) = Some v"
  shows "query_values (u_raw_query v) ''hub.mode'' = [ModePublish]"
    and "query_values (u_raw_query v) ''hub.topic'' = [upd_topic message]"
proof -
  let ?q = "values_set ''hub.topic'' (upd_topic message)
    (values_set ''hub.mode'' ModePublish (fst (parse_query (u_raw_query target))))"
  have t: "publish_target target (upd_topic message) = target\<lparr>u_raw_query := encode_values ?q\<rparr>"
    by (simp add: publish_target_def)
  have ok: "map_ok ?q" by (intro map_ok_values_set parse_query_ok)
  have "map_get ?q ''hub.topic'' = Some [upd_topic message]"
    by (simp add: values_set_def)
  then have ne: "encode_values ?q \<noteq> []" by (rule encode_values_nonempty)
  have "u_opaque target = []"
    using parse_url_opaque [OF assms(1)] assms(2) by (simp add: http_url_def)
  then have "u_raw_query v = encode_values ?q"
    using printed_query [of "target\<lparr>u_raw_query := encode_values ?q\<rparr>" v] assms(2,3) ne encode_values_no_hash
    by (simp add: publish_request_def t http_url_def)
  then show "query_values (u_raw_query v) ''hub.mode'' = [ModePublish]"
    and "query_values (u_raw_query v) ''hub.topic'' = [upd_topic message]"
    using query_values_encode [OF ok] by (simp_all add: values_of_def values_set_def)
qed

lemma requiredSingle_values:
  "values_of m k = [v] \<Longrightarrow> v \<noteq> [] \<Longrightarrow> requiredSingle m k = Inr v"
  by (auto simp: requiredSingle_def values_of_def values_get_def split: option.splits)

lemma publish_served:
  assumes "EnablePublisherExtension (h_config h)" and "\<not> ad_closed ad"
    and "validateHTTPURL (upd_topic message) name False False = Inr u"
    and ct: "parseMediaType (upd_content_type message) = Inr mt"
      "mt = form_type \<Longrightarrow> validateFormContentType (upd_content_type message) = None"
    and hub: "parse_url (pc_hub_url c) = Some target" "http_url True True target"
      "parse_url (hr_url (publish_request c target message)) = Some v"
    and "int (length (bytes_of (upd_body message))) \<le> MaxRequestBody (h_config h)"
  shows "ServeHTTP h id new_writer (inbound (publish_request c target message) remote) s ad =
    serveUpdate h new_writer (inbound (publish_request c target message) remote)
      \<lparr>upd_kind = UpdateContent, upd_topic = decode_unreserved (upd_topic message),
       upd_content_type = upd_content_type message,
       upd_body = cloneBytes (Some (bytes_of (upd_body message))),
       upd_header = cloneHeader (Some (hr_header (publish_request c target message)))\<rparr> s ad"
proof -
  let ?q = "inbound (publish_request c target message) remote"
  have raw: "rq_raw_query ?q = u_raw_query v" using hub(3) by (simp add: inbound_def)
  have body: "readRequestBody h ?q = Inr (bytes_of (upd_body message))"
    using assms(9) by (simp add: readRequestBody_iff publish_request_def)
  have mode: "requiredSingle (fst (parse_query (u_raw_query v))) ''hub.mode'' = Inr ModePublish"
    using publish_query(1) [OF hub] by (intro requiredSingle_values) (simp_all add: query_values_def ModePublish_def)
  have topic: "requiredSingle (fst (parse_query (u_raw_query v))) ''hub.topic'' = Inr (upd_topic message)"
    using publish_query(2) [OF hub] valid_topic_nonempty [OF assms(3)]
    by (intro requiredSingle_values) (simp_all add: query_values_def)
  have norm: "normalizeHTTPURL (upd_topic message) ''hub.topic'' False False = Inr (decode_unreserved (upd_topic message))"
    using assms(3) by (auto simp: normalizeHTTPURL_iff validateHTTPURL_iff)
  have lower: "to_lower (trim_space ''publish'') = ''publish''" by code_simp
  have "servePublisherContent h new_writer ?q (upd_content_type message) ''publish'' s ad =
      Inr (serveUpdate h new_writer ?q
      \<lparr>upd_kind = UpdateContent, upd_topic = decode_unreserved (upd_topic message),
       upd_content_type = upd_content_type message,
       upd_body = cloneBytes (Some (bytes_of (upd_body message))),
       upd_header = cloneHeader (Some (hr_header (publish_request c target message)))\<rparr> s ad)"
    using assms(1) by (simp add: servePublisherContent_def raw mode topic norm body)
  moreover have "rq_method ?q = ''POST''" by (simp add: publish_request_def)
  ultimately show ?thesis
    using assms(2) ct
    by (cases "mt = form_type") (simp_all add: ServeHTTP_def isClosed_def publish_headers lower Let_def)
qed

section \<open>What the publisher gets back\<close>

lemma update_seen:
  assumes "OnUpdateMessage (h_service h) = Some f" and "17 \<le> pc_max_body c" and "pc_max_body c < 2 ^ 63 - 1"
    and "f s (cloneUpdate message) (metadataFromRequest request) = (s', out)"
  shows "sv_state (serveUpdate h new_writer request message s ad) = s'"
    and "out = Returned (zero_result, None) \<Longrightarrow> seen c (serveUpdate h new_writer request message s ad) = None"
    and "snd (recover_result out) \<noteq> None \<Longrightarrow> \<exists>e. seen c (serveUpdate h new_writer request message s ad) = Some e
       \<and> errors_is e (Sentinel ErrPublisherFailed)"
proof -
  have *: "serveUpdate h new_writer request message s ad =
      finish_extension 202 (fst (recover_result out)) (snd (recover_result out)) new_writer s' ad"
    using assms(1,4) by (simp add: serveUpdate_def call_extension_def split: prod.split)
  show "sv_state (serveUpdate h new_writer request message s ad) = s'"
    by (simp add: * finish_extension_def respond_def respond_or_panic_def Let_def split: option.split outcome.split)
  show "seen c (serveUpdate h new_writer request message s ad) = None" if "out = Returned (zero_result, None)"
    using that seen_accepted [of 202, OF _ assms(2,3)] by (simp add: * recover_result_def)
  show "\<exists>e. seen c (serveUpdate h new_writer request message s ad) = Some e
       \<and> errors_is e (Sentinel ErrPublisherFailed)" if "snd (recover_result out) \<noteq> None"
    using that seen_denied [of c 202 "fst (recover_result out)"] by (auto simp: *)
qed

lemma register_seen:
  assumes "17 \<le> pc_max_body c" and "pc_max_body c < 2 ^ 63 - 1"
  shows "sv_state (finish_extension st res err new_writer s ad) = s"
    and "(res, err) = recover_result (Returned (zero_result, None)) \<Longrightarrow>
      seen c (finish_extension 200 res err new_writer s ad) = None"
    and "err = Some e \<Longrightarrow> \<exists>e'. seen c (finish_extension 200 res err new_writer s ad) = Some e'
       \<and> errors_is e' (Sentinel ErrPublisherFailed)"
proof -
  show "sv_state (finish_extension st res err new_writer s ad) = s"
    by (simp add: finish_extension_def respond_def respond_or_panic_def Let_def split: option.split outcome.split)
  show "seen c (finish_extension 200 res err new_writer s ad) = None"
    if "(res, err) = recover_result (Returned (zero_result, None))"
    using that seen_accepted [of 200, OF _ assms] by (simp add: recover_result_def)
  show "\<exists>e'. seen c (finish_extension 200 res err new_writer s ad) = Some e'
       \<and> errors_is e' (Sentinel ErrPublisherFailed)" if "err = Some e"
    using that seen_denied [of c 200 res] by simp
qed

lemmas extension_eval [go_eval] = inbound_def response_of_def hub_round_trip_def seen_def

end
