(* ===== verification/NestedMap.thy ===== *)
theory NestedMap
  imports GoMap
begin

text \<open>
  Maps keyed by a pair, as the example hubs keep their subscriptions by topic and callback.
  The locale \<open>pair_store\<close> is the interface: lookup, store, delete of one entry, delete of all
  entries of a topic, with their laws. It is interpreted on \<open>map[string]map[string]V\<close> (the
  hubs), where an inner map that becomes empty is deleted; the flat map of the consolidator
  interprets it in \<open>Consolidator\<close>.
\<close>

locale pair_store =
  fixes lookup :: "'m \<Rightarrow> 'k \<Rightarrow> 'c \<Rightarrow> 'v option"
    and store :: "'k \<Rightarrow> 'c \<Rightarrow> 'v \<Rightarrow> 'm \<Rightarrow> 'm"
    and remove :: "'k \<Rightarrow> 'c \<Rightarrow> 'm \<Rightarrow> 'm"
    and remove_all :: "'k \<Rightarrow> 'm \<Rightarrow> 'm"
    and ok :: "'m \<Rightarrow> bool"
    and valid :: "'k \<Rightarrow> 'c \<Rightarrow> bool"
    and fits :: "'k \<Rightarrow> 'c \<Rightarrow> 'v \<Rightarrow> bool"
  assumes lookup_store: "ok m \<Longrightarrow> valid k c \<Longrightarrow> fits k c v \<Longrightarrow>
      lookup (store k c v m) k' c' = (if k' = k \<and> c' = c then Some v else lookup m k' c')"
    and lookup_remove: "ok m \<Longrightarrow> valid k c \<Longrightarrow>
      lookup (remove k c m) k' c' = (if k' = k \<and> c' = c then None else lookup m k' c')"
    and lookup_remove_all: "ok m \<Longrightarrow> lookup (remove_all k m) k' c' = (if k' = k then None else lookup m k' c')"
    and ok_store: "ok m \<Longrightarrow> valid k c \<Longrightarrow> fits k c v \<Longrightarrow> ok (store k c v m)"
    and ok_remove: "ok m \<Longrightarrow> ok (remove k c m)"
    and ok_remove_all: "ok m \<Longrightarrow> ok (remove_all k m)"
begin

text \<open>What a later operation covers can be left out.\<close>

lemma lookup_remove_all_remove:
  "ok m \<Longrightarrow> valid k c \<Longrightarrow> lookup (remove_all k (remove k c m)) k' c' = lookup (remove_all k m) k' c'"
  by (simp add: lookup_remove_all lookup_remove ok_remove)

lemma lookup_remove_store:
  "ok m \<Longrightarrow> valid k c \<Longrightarrow> fits k c v \<Longrightarrow>
    lookup (remove k c (store k c v m)) k' c' = lookup (remove k c m) k' c'"
  by (simp add: lookup_remove lookup_store ok_store)

lemma lookup_store_store:
  "ok m \<Longrightarrow> valid k c \<Longrightarrow> fits k c v \<Longrightarrow> fits k c w \<Longrightarrow>
    lookup (store k c w (store k c v m)) k' c' = lookup (store k c w m) k' c'"
  by (simp add: lookup_store ok_store)

end

section \<open>Maps of maps\<close>

type_synonym ('k, 'c, 'v) nested = "('k, ('c, 'v) gomap) gomap"

text \<open>Reading a missing inner map reads an empty one.\<close>

definition inner :: "('k, 'c, 'v) nested \<Rightarrow> 'k \<Rightarrow> ('c, 'v) gomap" where
  "inner m k = (case map_get m k of None \<Rightarrow> [] | Some b \<Rightarrow> b)"

definition nested_get :: "('k, 'c, 'v) nested \<Rightarrow> 'k \<Rightarrow> 'c \<Rightarrow> 'v option" where
  "nested_get m k c = map_get (inner m k) c"

definition nested_put :: "'k \<Rightarrow> 'c \<Rightarrow> 'v \<Rightarrow> ('k, 'c, 'v) nested \<Rightarrow> ('k, 'c, 'v) nested" where
  "nested_put k c v m = map_put k (map_put c v (inner m k)) m"

definition set_inner :: "'k \<Rightarrow> ('c, 'v) gomap \<Rightarrow> ('k, 'c, 'v) nested \<Rightarrow> ('k, 'c, 'v) nested" where
  "set_inner k b m = (if b = [] then map_del k m else map_put k b m)"

definition nested_del :: "'k \<Rightarrow> 'c \<Rightarrow> ('k, 'c, 'v) nested \<Rightarrow> ('k, 'c, 'v) nested" where
  "nested_del k c m = set_inner k (map_del c (inner m k)) m"

definition nested_ok :: "('k, 'c, 'v) nested \<Rightarrow> bool" where
  "nested_ok m \<longleftrightarrow> map_ok m \<and> (\<forall>(k, b) \<in> set m. map_ok b \<and> b \<noteq> [])"

lemma inner_put: "inner (map_put k b m) k' = (if k' = k then b else inner m k')"
  by (simp add: inner_def gmap.get_put)

lemma inner_del: "inner (map_del k m) k' = (if k' = k then [] else inner m k')"
  by (simp add: inner_def gmap.get_del)

lemma inner_set: "inner (set_inner k b m) k' = (if k' = k then b else inner m k')"
  by (simp add: set_inner_def inner_put inner_del)

lemma map_put_nonempty: "map_put k v m \<noteq> []"
  by (cases m) (auto simp: map_put_def)

lemma inner_ok: "nested_ok m \<Longrightarrow> map_ok (inner m k)"
  by (auto simp: nested_ok_def inner_def dest: map_get_in split: option.split)

lemma nested_ok_set:
  assumes "nested_ok m" and "map_ok b"
  shows "nested_ok (set_inner k b m)"
  using assms set_map_put_subset [of k b m]
  by (auto simp: set_inner_def nested_ok_def gmap.ok_del gmap.ok_put set_map_del)

lemma nested_put_set: "nested_put k c v m = set_inner k (map_put c v (inner m k)) m"
  by (simp add: nested_put_def set_inner_def map_put_nonempty)

interpretation nmap: pair_store nested_get nested_put nested_del map_del nested_ok "\<lambda>_ _. True" "\<lambda>_ _ _. True"
proof unfold_locales
  show "nested_ok (nested_put k c v m)" if "nested_ok m" for k c v and m :: "('a, 'b, 'c) nested"
    using that by (simp add: nested_put_set nested_ok_set gmap.ok_put inner_ok)
  show "nested_ok (nested_del k c m)" if "nested_ok m" for k c and m :: "('a, 'b, 'c) nested"
    using that by (simp add: nested_del_def nested_ok_set gmap.ok_del inner_ok)
  show "nested_ok (map_del k m)" if "nested_ok m" for k and m :: "('a, 'b, 'c) nested"
    using that by (auto simp: nested_ok_def gmap.ok_del set_map_del)
qed (auto simp: nested_get_def nested_put_set nested_del_def inner_set inner_del gmap.get_put gmap.get_del)

text \<open>Laws without side conditions, for evaluation order independent rewriting.\<close>

lemma nested_get_put [simp]:
  "nested_get (nested_put k c v m) k' c' = (if k' = k \<and> c' = c then Some v else nested_get m k' c')"
  by (auto simp: nested_get_def nested_put_set inner_set gmap.get_put)

lemma nested_get_del [simp]:
  "nested_get (nested_del k c m) k' c' = (if k' = k \<and> c' = c then None else nested_get m k' c')"
  by (auto simp: nested_get_def nested_del_def inner_set gmap.get_del)

lemma nested_get_del_all [simp]:
  "nested_get (map_del k m) k' c' = (if k' = k then None else nested_get m k' c')"
  by (simp add: nested_get_def inner_del)

lemma nested_get_Nil [simp]: "nested_get [] k c = None"
  by (simp add: nested_get_def inner_def)

lemma nested_ok_Nil [simp]: "nested_ok []"
  by (simp add: nested_ok_def)

lemma nested_key: "nested_get m k c = Some v \<Longrightarrow> k \<in> fst ` set m"
  by (force simp: nested_get_def inner_def dest!: map_get_in split: option.splits)

text \<open>An entry whose callback a predicate selects: the loop that filters an inner map.\<close>

lemma map_get_filter: "map_ok b \<Longrightarrow>
    map_get (filter (\<lambda>(c, v). p v) b) c = (case map_get b c of None \<Rightarrow> None | Some v \<Rightarrow> if p v then Some v else None)"
proof (induction b)
  case (Cons e b)
  then show ?case
    by (cases e) (auto simp: map_ok_def map_get_None_iff split: option.splits)
qed simp

lemma map_ok_filter: "map_ok b \<Longrightarrow> map_ok (filter p b)"
  by (auto simp: map_ok_def distinct_map inj_on_def)

lemmas nestedmap_eval = inner_def nested_get_def nested_put_def set_inner_def nested_del_def

end
