(* ===== verification/MemoryHub.thy ===== *)
theory MemoryHub
  imports Delivery NestedMap
begin

text \<open>
  The in-memory example hub (\<open>examples/in-memory-websubhub/hub.go\<close>): its state, the seven
  callbacks that the library's \<open>Service\<close> gets, the dispatcher and the delivery workers.

  The callbacks have the types of \<open>Service\<close>, with the hub as the application state. The
  goroutines are steps (\<open>memory_exec\<close>): the dispatcher takes an update, finds its content and
  the active subscriptions, and sends one job per subscription to the bounded delivery queue
  (\<open>mh_pending\<close> are the jobs it still has to send); a delivery worker takes a job and delivers
  it. The outside (round trips) has a state of its own. Logging is left out.

  A step is a lock section or a channel operation, except in three actions that merge several:
  \<open>onUpdateMessage\<close> checks the topic and then queues the update under another lock;
  \<open>dispatch_take\<close> receives an update, finds its content and collects the active subscriptions;
  \<open>deliver_job\<close> takes a job, makes the round trip and removes the subscription. The code lets other
  goroutines in between. Only the last part of the second and of the third touches \<open>mh_topics\<close> and
  \<open>mh_subscriptions\<close>, so an interleaving with the steps of the model reaches the same topics and
  subscriptions; an update queued after its topic was deregistered, and a delivery in flight, are
  not states of the model.
\<close>

record stored_subscription =
  st_subscription :: subscription
  st_expires :: time
  st_version :: "64 word"

record delivery_job =
  dj_topic :: string
  dj_stored :: stored_subscription
  dj_content :: content_distribution

record hub_options =
  ho_hub_url :: string
  ho_update_queue :: int
  ho_delivery_queue :: int
  ho_delivery_workers :: int
  ho_max_topic_body :: int
  ho_client :: "http_client option"

datatype dispatcher = Dispatching "delivery_job list" | DispatcherDone

record memory_hub =
  mh_topics :: "(string, topic_registration) gomap"
  mh_subscriptions :: "(string, string, stored_subscription) nested"
  mh_next_version :: "64 word"
  mh_updates :: "update_message list"
  mh_update_capacity :: nat
  mh_deliveries :: "delivery_job list"
  mh_delivery_capacity :: nat
  mh_closed :: bool
  mh_cancelled :: bool
  mh_dispatcher :: dispatcher
  mh_workers :: nat
  mh_delivery_config :: delivery_config
  mh_client :: http_client
  mh_max_topic_body :: int

text \<open>\<open>&http.Client{Timeout: 15 * time.Second}\<close>\<close>

definition default_topic_client :: http_client where
  "default_topic_client =
     \<lparr>cl_transport = None, cl_check_redirect = FollowRedirects, cl_jar = None, cl_timeout = 15 * second\<rparr>"

definition newMemoryHub :: "hub_options \<Rightarrow> error + memory_hub" where
  "newMemoryHub options =
     (if ho_hub_url options = [] then Inl (AppError ''hub URL is required'')
      else
        let updateQueue = (if ho_update_queue options \<le> 0 then 256 else ho_update_queue options);
            deliveryQueue = (if ho_delivery_queue options \<le> 0 then 1024 else ho_delivery_queue options);
            workers = (if ho_delivery_workers options \<le> 0 then 4 else ho_delivery_workers options);
            maxTopicBody = (if ho_max_topic_body options \<le> 0 then 1048576 else ho_max_topic_body options);
            client = (case ho_client options of None \<Rightarrow> default_topic_client | Some c \<Rightarrow> c)
        in Inr \<lparr>mh_topics = [], mh_subscriptions = [], mh_next_version = 0,
               mh_updates = [], mh_update_capacity = nat updateQueue,
               mh_deliveries = [], mh_delivery_capacity = nat deliveryQueue,
               mh_closed = False, mh_cancelled = False, mh_dispatcher = Dispatching [],
               mh_workers = nat workers,
               mh_delivery_config = \<lparr>dcfg_client = Some client, dcfg_timeout = 15 * second, dcfg_max_body = 0\<rparr>,
               mh_client = client, mh_max_topic_body = maxTopicBody\<rparr>)"

section \<open>Callbacks\<close>

definition denied :: "string \<Rightarrow> error option" where
  "denied why = Some (DeniedError why None)"

definition unavailable :: "string \<Rightarrow> result" where
  "unavailable message =
     \<lparr>res_status = 503, res_header = None, res_content_type = ''text/plain; charset=utf-8'',
      res_body = Some (message @ [CHR 0x0A])\<rparr>"

definition hasTopic :: "memory_hub \<Rightarrow> string \<Rightarrow> bool" where
  "hasTopic h topic = map_has (mh_topics h) topic"

definition onRegisterTopic ::
    "memory_hub \<Rightarrow> topic_registration \<Rightarrow> request_metadata \<Rightarrow> memory_hub \<times> (result \<times> error option) outcome" where
  "onRegisterTopic h registration _ =
     (if hasTopic h (reg_topic registration)
      then (h, Returned (zero_result, denied ''topic is already registered''))
      else (h\<lparr>mh_topics := map_put (reg_topic registration) registration (mh_topics h)\<rparr>,
            Returned (zero_result, None)))"

definition onDeregisterTopic ::
    "memory_hub \<Rightarrow> topic_deregistration \<Rightarrow> request_metadata \<Rightarrow> memory_hub \<times> (result \<times> error option) outcome" where
  "onDeregisterTopic h deregistration _ =
     (if \<not> hasTopic h (dereg_topic deregistration)
      then (h, Returned (zero_result, denied ''topic is not registered''))
      else (h\<lparr>mh_topics := map_del (dereg_topic deregistration) (mh_topics h),
              mh_subscriptions := map_del (dereg_topic deregistration) (mh_subscriptions h)\<rparr>,
            Returned (zero_result, None)))"

definition onUpdateMessage ::
    "memory_hub \<Rightarrow> update_message \<Rightarrow> request_metadata \<Rightarrow> memory_hub \<times> (result \<times> error option) outcome" where
  "onUpdateMessage h update _ =
     (if \<not> hasTopic h (upd_topic update)
      then (h, Returned (zero_result, denied ''topic is not registered''))
      else if mh_closed h then (h, Returned (unavailable ''hub is shutting down'', None))
      else if length (mh_updates h) < mh_update_capacity h
      then (h\<lparr>mh_updates := mh_updates h @ [cloneUpdate update]\<rparr>, Returned (zero_result, None))
      else (h, Returned (unavailable ''update queue is full'', None)))"

definition onSubscriptionValidation ::
    "memory_hub \<Rightarrow> subscription \<Rightarrow> request_metadata \<Rightarrow> memory_hub \<times> error option outcome" where
  "onSubscriptionValidation h subscription _ =
     (if \<not> hasTopic h (sub_topic subscription) then (h, Returned (denied ''topic is not registered''))
      else (h, Returned None))"

definition store_verified :: "memory_hub \<Rightarrow> verified_subscription \<Rightarrow> int \<Rightarrow> memory_hub" where
  "store_verified h verified leaseSeconds =
     (let version = mh_next_version h + 1;
          stored = \<lparr>st_subscription = cloneSubscription (vs_subscription verified),
                    st_expires = vs_lease_started verified + wrap64 (leaseSeconds * second),
                    st_version = version\<rparr>
      in h\<lparr>mh_next_version := version,
           mh_subscriptions := nested_put (sub_topic (vs_subscription verified))
             (sub_callback (vs_subscription verified)) stored (mh_subscriptions h)\<rparr>)"

definition onSubscriptionVerified ::
    "memory_hub \<Rightarrow> verified_subscription \<Rightarrow> request_metadata \<Rightarrow> memory_hub \<times> error option outcome" where
  "onSubscriptionVerified h verified _ =
     (case parse_int (vs_effective_lease verified) of (leaseSeconds, err) \<Rightarrow>
        if err \<noteq> None \<or> leaseSeconds \<le> 0 then (h, Returned (Some (AppError ''invalid effective lease'')))
        else if \<not> hasTopic h (sub_topic (vs_subscription verified))
        then (h, Returned (denied ''topic is not registered''))
        else (store_verified h verified leaseSeconds, Returned None))"

definition onUnsubscriptionValidation ::
    "memory_hub \<Rightarrow> unsubscription \<Rightarrow> request_metadata \<Rightarrow> memory_hub \<times> error option outcome" where
  "onUnsubscriptionValidation h unsubscription _ =
     (if \<not> hasTopic h (unsub_topic unsubscription) then (h, Returned (denied ''topic is not registered''))
      else if nested_get (mh_subscriptions h) (unsub_topic unsubscription) (unsub_callback unsubscription) = None
      then (h, Returned (denied ''subscription does not exist''))
      else (h, Returned None))"

definition onUnsubscriptionVerified ::
    "memory_hub \<Rightarrow> verified_unsubscription \<Rightarrow> request_metadata \<Rightarrow> memory_hub \<times> error option outcome" where
  "onUnsubscriptionVerified h verified _ =
     (h\<lparr>mh_subscriptions := nested_del (unsub_topic (vu_unsubscription verified))
          (unsub_callback (vu_unsubscription verified)) (mh_subscriptions h)\<rparr>, Returned None)"

definition memory_service :: "memory_hub service" where
  "memory_service =
     \<lparr>OnRegisterTopic = Some onRegisterTopic, OnDeregisterTopic = Some onDeregisterTopic,
      OnUpdateMessage = Some onUpdateMessage,
      OnSubscription = None, OnSubscriptionValidation = Some onSubscriptionValidation,
      OnSubscriptionVerified = Some onSubscriptionVerified,
      OnUnsubscription = None, OnUnsubscriptionValidation = Some onUnsubscriptionValidation,
      OnUnsubscriptionVerified = Some onUnsubscriptionVerified\<rparr>"

section \<open>Content and subscriptions of an update\<close>

definition contentFor ::
    "memory_hub \<Rightarrow> 'o round_trip \<Rightarrow> 'o \<Rightarrow> update_message \<Rightarrow> 'o \<times> (error + content_distribution)" where
  "contentFor h rt w update =
     (if upd_kind update = UpdateContent
      then (w, Inr \<lparr>cd_content_type = upd_content_type update, cd_body = cloneBytes (upd_body update),
                    cd_header = None\<rparr>)
      else case new_request ''GET'' (upd_topic update) [] of
        None \<Rightarrow> (w, Inl transport_error)
      | Some request \<Rightarrow>
          (case client_do (mh_client h) rt w request of
             (w', None) \<Rightarrow> (w', Inl transport_error)
           | (w', Some response) \<Rightarrow>
               (w',
                if rs_status response < 200 \<or> rs_status response \<ge> 300
                then Inl (AppError ''topic returned an HTTP error'')
                else case read_all (limit_reader (rs_body response) (wrap64 (mh_max_topic_body h + 1))) of
                       None \<Rightarrow> Inl io_error
                     | Some body \<Rightarrow>
                         if int (length body) > mh_max_topic_body h
                         then Inl (AppError ''topic response exceeds the limit'')
                         else
                           let contentType = header_get (rs_header response) ''Content-Type''
                           in Inr \<lparr>cd_content_type =
                                    (if contentType = [] then ''application/octet-stream'' else contentType),
                                  cd_body = Some body, cd_header = None\<rparr>)))"

definition live :: "time \<Rightarrow> stored_subscription \<Rightarrow> bool" where
  "live now stored \<longleftrightarrow> st_expires stored > now"

definition activeSubscriptions :: "memory_hub \<Rightarrow> string \<Rightarrow> time \<Rightarrow> memory_hub \<times> stored_subscription list" where
  "activeSubscriptions h topic now =
     (let kept = filter (\<lambda>(_, stored). live now stored) (inner (mh_subscriptions h) topic)
      in (h\<lparr>mh_subscriptions := set_inner topic kept (mh_subscriptions h)\<rparr>, map snd kept))"

definition removeSubscription :: "string \<Rightarrow> string \<Rightarrow> 64 word \<Rightarrow> memory_hub \<Rightarrow> memory_hub" where
  "removeSubscription topic callback version h =
     (case nested_get (mh_subscriptions h) topic callback of
        Some stored \<Rightarrow>
          if st_version stored = version
          then h\<lparr>mh_subscriptions := nested_del topic callback (mh_subscriptions h)\<rparr> else h
      | None \<Rightarrow> h)"

definition hasSubscription :: "memory_hub \<Rightarrow> string \<Rightarrow> string \<Rightarrow> time \<Rightarrow> bool" where
  "hasSubscription h topic callback now =
     (case nested_get (mh_subscriptions h) topic callback of None \<Rightarrow> False | Some stored \<Rightarrow> live now stored)"

section \<open>Goroutines\<close>

definition dispatch_take ::
    "'o round_trip \<Rightarrow> time \<Rightarrow> memory_hub \<Rightarrow> 'o \<Rightarrow> (memory_hub \<times> 'o) option" where
  "dispatch_take rt now h w =
     (case (mh_dispatcher h, mh_updates h) of
        (Dispatching [], update # updates) \<Rightarrow>
          let h1 = h\<lparr>mh_updates := updates\<rparr>
          in Some (case contentFor h1 rt w update of
               (w', Inl _) \<Rightarrow> (h1, w')
             | (w', Inr content) \<Rightarrow>
                 (case activeSubscriptions h1 (upd_topic update) now of
                    (h2, active) \<Rightarrow>
                      (h2\<lparr>mh_dispatcher := Dispatching
                          (map (\<lambda>stored. \<lparr>dj_topic = upd_topic update, dj_stored = stored, dj_content = content\<rparr>)
                            active)\<rparr>, w')))
      | _ \<Rightarrow> None)"

definition dispatch_send :: "memory_hub \<Rightarrow> memory_hub option" where
  "dispatch_send h =
     (case mh_dispatcher h of
        Dispatching (job # jobs) \<Rightarrow>
          if length (mh_deliveries h) < mh_delivery_capacity h
          then Some (h\<lparr>mh_deliveries := mh_deliveries h @ [job], mh_dispatcher := Dispatching jobs\<rparr>)
          else None
      | _ \<Rightarrow> None)"

text \<open>The dispatcher returns when the updates are closed and drained, or on cancellation while
  it has a job to send.\<close>

definition dispatch_return :: "memory_hub \<Rightarrow> memory_hub option" where
  "dispatch_return h =
     (case mh_dispatcher h of
        Dispatching [] \<Rightarrow>
          if mh_closed h \<and> mh_updates h = [] then Some (h\<lparr>mh_dispatcher := DispatcherDone\<rparr>) else None
      | Dispatching (_ # _) \<Rightarrow>
          if mh_cancelled h then Some (h\<lparr>mh_dispatcher := DispatcherDone\<rparr>) else None
      | DispatcherDone \<Rightarrow> None)"

definition deliver_job :: "'o round_trip \<Rightarrow> delivery_job \<Rightarrow> memory_hub \<Rightarrow> 'o \<Rightarrow> memory_hub \<times> 'o" where
  "deliver_job rt job h w =
     (case NewDeliveryClient (st_subscription (dj_stored job)) (mh_delivery_config h) of
        Inl _ \<Rightarrow> (h, w)
      | Inr client \<Rightarrow>
          (case Deliver (Some client) rt w (dj_content job) of (w', _, _, err) \<Rightarrow>
             ((case err of
                 Some e \<Rightarrow>
                   if errors_is e (Sentinel ErrSubscriptionGone)
                   then removeSubscription (dj_topic job) (sub_callback (st_subscription (dj_stored job)))
                          (st_version (dj_stored job)) h
                   else h
               | None \<Rightarrow> h), w')))"

definition deliver_one :: "'o round_trip \<Rightarrow> memory_hub \<Rightarrow> 'o \<Rightarrow> (memory_hub \<times> 'o) option" where
  "deliver_one rt h w =
     (case mh_deliveries h of
        [] \<Rightarrow> None
      | job # jobs \<Rightarrow> Some (deliver_job rt job (h\<lparr>mh_deliveries := jobs\<rparr>) w))"

definition close_updates :: "memory_hub \<Rightarrow> memory_hub" where
  "close_updates h = h\<lparr>mh_closed := True\<rparr>"

text \<open>The callbacks do not look at the metadata of the request.\<close>

definition no_metadata :: request_metadata where
  "no_metadata = \<lparr>md_header = None, md_remote_addr = []\<rparr>"

datatype memory_action =
    DoRegister topic_registration | DoDeregister topic_deregistration | DoUpdate update_message
  | DoVerified verified_subscription | DoUnverified verified_unsubscription
  | DispatchTake time | DispatchSend | DispatchReturn | DeliverOne | CloseUpdates | CancelContext

fun memory_exec :: "'o round_trip \<Rightarrow> memory_action \<Rightarrow> memory_hub \<times> 'o \<Rightarrow> (memory_hub \<times> 'o) option" where
  "memory_exec rt (DoRegister m) (h, w) = Some (fst (onRegisterTopic h m no_metadata), w)"
| "memory_exec rt (DoDeregister m) (h, w) = Some (fst (onDeregisterTopic h m no_metadata), w)"
| "memory_exec rt (DoUpdate m) (h, w) = Some (fst (onUpdateMessage h m no_metadata), w)"
| "memory_exec rt (DoVerified m) (h, w) = Some (fst (onSubscriptionVerified h m no_metadata), w)"
| "memory_exec rt (DoUnverified m) (h, w) = Some (fst (onUnsubscriptionVerified h m no_metadata), w)"
| "memory_exec rt (DispatchTake now) (h, w) = dispatch_take rt now h w"
| "memory_exec rt DispatchSend (h, w) = map_option (\<lambda>h'. (h', w)) (dispatch_send h)"
| "memory_exec rt DispatchReturn (h, w) = map_option (\<lambda>h'. (h', w)) (dispatch_return h)"
| "memory_exec rt DeliverOne (h, w) = deliver_one rt h w"
| "memory_exec rt CloseUpdates (h, w) = Some (close_updates h, w)"
| "memory_exec rt CancelContext (h, w) = Some (h\<lparr>mh_cancelled := True\<rparr>, w)"

inductive memory_reachable :: "hub_options \<Rightarrow> 'o round_trip \<Rightarrow> memory_hub \<Rightarrow> 'o \<Rightarrow> bool"
  for options rt where
  memory_new: "newMemoryHub options = Inr h \<Longrightarrow> memory_reachable options rt h w"
| memory_step: "memory_reachable options rt h w \<Longrightarrow> memory_exec rt a (h, w) = Some (h', w') \<Longrightarrow>
    memory_reachable options rt h' w'"

inductive_simps memory_reachable_iff: "memory_reachable options rt h w"

lemmas memory_callbacks = onRegisterTopic_def onDeregisterTopic_def onUpdateMessage_def
  onSubscriptionVerified_def onUnsubscriptionVerified_def

lemmas memory_eval [go_eval] = memory_callbacks newMemoryHub_def default_topic_client_def denied_def
  unavailable_def hasTopic_def onSubscriptionValidation_def store_verified_def
  onUnsubscriptionValidation_def contentFor_def live_def activeSubscriptions_def
  removeSubscription_def dispatch_take_def dispatch_send_def dispatch_return_def deliver_job_def
  deliver_one_def close_updates_def

end
