(* ===== verification/MemoryProps.thy ===== *)
theory MemoryProps
  imports MemoryHub
begin

text \<open>
  Properties of the in-memory hub (\<open>MemoryHub\<close>). \<open>memory_ok\<close> is its invariant: every stored
  subscription belongs to a registered topic and is filed under its own topic and callback, the
  queues stay within their capacities, no stored or queued version is newer than the counter
  (\<open>versions_ok\<close>, as long as the counter has not wrapped). From it: a late HTTP 410 for an old
  delivery does not remove a renewed subscription.
\<close>

definition memory_ok :: "memory_hub \<Rightarrow> bool" where
  "memory_ok h \<longleftrightarrow>
     nested_ok (mh_subscriptions h)
     \<and> (\<forall>t c v. nested_get (mh_subscriptions h) t c = Some v \<longrightarrow>
          map_has (mh_topics h) t \<and> sub_topic (st_subscription v) = t \<and> sub_callback (st_subscription v) = c)
     \<and> length (mh_updates h) \<le> mh_update_capacity h
     \<and> length (mh_deliveries h) \<le> mh_delivery_capacity h"

lemma memory_ok_entry:
  "memory_ok h \<Longrightarrow> nested_get (mh_subscriptions h) t c = Some v \<Longrightarrow>
     map_has (mh_topics h) t \<and> sub_topic (st_subscription v) = t \<and> sub_callback (st_subscription v) = c"
  by (simp add: memory_ok_def)

lemma memory_ok_nested: "memory_ok h \<Longrightarrow> nested_ok (mh_subscriptions h)"
  by (simp add: memory_ok_def)

text \<open>A step that only removes entries keeps the invariant.\<close>

lemma memory_ok_shrink:
  assumes "memory_ok h" and "nested_ok subs"
    and "\<And>t c v. nested_get subs t c = Some v \<Longrightarrow> nested_get (mh_subscriptions h) t c = Some v"
  shows "memory_ok (h\<lparr>mh_subscriptions := subs\<rparr>)"
  using assms(1,2) memory_ok_entry [OF assms(1) assms(3)] by (simp add: memory_ok_def)

lemma memory_ok_fields [simp]:
  "memory_ok (h\<lparr>mh_next_version := n\<rparr>) = memory_ok h" "memory_ok (h\<lparr>mh_closed := b\<rparr>) = memory_ok h"
  "memory_ok (h\<lparr>mh_cancelled := b\<rparr>) = memory_ok h" "memory_ok (h\<lparr>mh_dispatcher := d\<rparr>) = memory_ok h"
  by (simp_all add: memory_ok_def)

lemma map_has_put: "map_has (map_put k v m) k' \<longleftrightarrow> k' = k \<or> map_has m k'"
  by (simp add: map_has_def gmap.get_put)

lemma map_has_del: "map_has (map_del k m) k' \<longleftrightarrow> k' \<noteq> k \<and> map_has m k'"
  by (simp add: map_has_def gmap.get_del)

lemma register_ok: "memory_ok h \<Longrightarrow> memory_ok (fst (onRegisterTopic h m md))"
  by (simp add: onRegisterTopic_def memory_ok_def map_has_put)

lemma deregister_ok: "memory_ok h \<Longrightarrow> memory_ok (fst (onDeregisterTopic h m md))"
  by (auto simp: onDeregisterTopic_def memory_ok_def map_has_del nmap.ok_remove_all split: if_splits)

lemma update_ok: "memory_ok h \<Longrightarrow> memory_ok (fst (onUpdateMessage h m md))"
  by (simp add: onUpdateMessage_def memory_ok_def)

lemma cloneSubscription_keys [simp]:
  "sub_topic (cloneSubscription m) = sub_topic m" "sub_callback (cloneSubscription m) = sub_callback m"
  by (simp_all add: cloneSubscription_def)

lemma verified_ok: "memory_ok h \<Longrightarrow> memory_ok (fst (onSubscriptionVerified h m md))"
  by (auto simp: onSubscriptionVerified_def store_verified_def memory_ok_def Let_def hasTopic_def
      nmap.ok_store split: prod.splits if_splits)

lemma unverified_ok: "memory_ok h \<Longrightarrow> memory_ok (fst (onUnsubscriptionVerified h m md))"
  unfolding onUnsubscriptionVerified_def fst_conv
  by (rule memory_ok_shrink) (auto simp: nmap.ok_remove memory_ok_nested split: if_splits)

lemma remove_ok: "memory_ok h \<Longrightarrow> memory_ok (removeSubscription t c v h)"
  unfolding removeSubscription_def
  by (auto intro!: memory_ok_shrink simp: nmap.ok_remove memory_ok_nested split: option.split if_splits)

section \<open>Active subscriptions\<close>

lemma activeSubscriptions_get:
  assumes "nested_ok (mh_subscriptions h)" and "activeSubscriptions h topic now = (h', active)"
  shows "nested_get (mh_subscriptions h') t c =
    (case nested_get (mh_subscriptions h) t c of
       None \<Rightarrow> None
     | Some v \<Rightarrow> if t = topic \<and> \<not> live now v then None else Some v)"
  using assms map_get_filter [OF inner_ok [OF assms(1)], of "live now" topic c]
  by (auto simp: activeSubscriptions_def Let_def nested_get_def inner_set split: option.splits)

lemma activeSubscriptions_list:
  assumes "nested_ok (mh_subscriptions h)" and "activeSubscriptions h topic now = (h', active)"
  shows "v \<in> set active \<longleftrightarrow> live now v \<and> (\<exists>c. nested_get (mh_subscriptions h) topic c = Some v)"
proof -
  have "v \<in> set active \<longleftrightarrow> live now v \<and> (\<exists>c. (c, v) \<in> set (inner (mh_subscriptions h) topic))"
    using assms(2) by (force simp: activeSubscriptions_def Let_def image_iff)
  then show ?thesis
    using map_get_iff [OF inner_ok [OF assms(1)]] by (simp add: nested_get_def)
qed

text \<open>One job per active subscription.\<close>

lemma activeSubscriptions_count:
  assumes "activeSubscriptions h topic now = (h', active)"
  shows "length active = length (filter (\<lambda>(_, v). live now v) (inner (mh_subscriptions h) topic))"
  using assms by (auto simp: activeSubscriptions_def Let_def)

lemma activeSubscriptions_ok:
  assumes "memory_ok h" and "activeSubscriptions h topic now = (h', active)"
  shows "memory_ok h'"
proof -
  have h': "h' = h\<lparr>mh_subscriptions := mh_subscriptions h'\<rparr>"
    using assms(2) by (auto simp: activeSubscriptions_def Let_def)
  have "nested_ok (mh_subscriptions h')"
    using assms by (auto simp: activeSubscriptions_def Let_def memory_ok_nested inner_ok
        intro!: nested_ok_set map_ok_filter)
  then have "memory_ok (h\<lparr>mh_subscriptions := mh_subscriptions h'\<rparr>)"
    using activeSubscriptions_get [OF memory_ok_nested [OF assms(1)] assms(2)]
    by (intro memory_ok_shrink [OF assms(1)]) (auto split: option.splits if_splits)
  with h' show ?thesis by simp
qed

section \<open>The steps\<close>

lemma tail_updates_ok: "memory_ok h \<Longrightarrow> mh_updates h = u # us \<Longrightarrow> memory_ok (h\<lparr>mh_updates := us\<rparr>)"
  by (simp add: memory_ok_def)

lemma dispatch_take_ok:
  assumes "dispatch_take rt now h w = Some (h', w')" and "memory_ok h"
  shows "memory_ok h'"
proof -
  obtain u us where d: "mh_dispatcher h = Dispatching []" "mh_updates h = u # us"
    using assms(1) by (auto simp: dispatch_take_def split: dispatcher.splits list.splits)
  let ?h = "h\<lparr>mh_updates := us\<rparr>"
  have ok: "memory_ok ?h" using tail_updates_ok [OF assms(2) d(2)] .
  obtain h2 active where a: "activeSubscriptions ?h (upd_topic u) now = (h2, active)"
    by (meson surj_pair)
  have "memory_ok h2" using activeSubscriptions_ok [OF ok a] .
  then show ?thesis
    using assms(1) ok by (auto simp: dispatch_take_def d Let_def a split: prod.splits sum.splits)
qed

lemma dispatch_send_ok: "dispatch_send h = Some h' \<Longrightarrow> memory_ok h \<Longrightarrow> memory_ok h'"
  by (auto simp: dispatch_send_def memory_ok_def split: dispatcher.splits list.splits if_splits)

lemma dispatch_return_ok: "dispatch_return h = Some h' \<Longrightarrow> memory_ok h \<Longrightarrow> memory_ok h'"
  by (auto simp: dispatch_return_def split: dispatcher.splits list.splits if_splits)

lemma deliver_job_state:
  "fst (deliver_job rt job h w) = h
   \<or> fst (deliver_job rt job h w) = removeSubscription (dj_topic job)
       (sub_callback (st_subscription (dj_stored job))) (st_version (dj_stored job)) h"
  by (simp add: deliver_job_def split: sum.split prod.split option.split)

lemma deliver_one_ok: "deliver_one rt h w = Some (h', w') \<Longrightarrow> memory_ok h \<Longrightarrow> memory_ok h'"
proof -
  assume d: "deliver_one rt h w = Some (h', w')" and ok: "memory_ok h"
  then obtain job jobs where q: "mh_deliveries h = job # jobs"
      "h' = fst (deliver_job rt job (h\<lparr>mh_deliveries := jobs\<rparr>) w)"
    by (auto simp: deliver_one_def split: list.splits)
  have "memory_ok (h\<lparr>mh_deliveries := jobs\<rparr>)" using ok q(1) by (simp add: memory_ok_def)
  then show "memory_ok h'"
    using deliver_job_state [of rt job "h\<lparr>mh_deliveries := jobs\<rparr>" w] remove_ok by (auto simp: q(2))
qed

lemma memory_exec_ok: "memory_exec rt a (h, w) = Some (h', w') \<Longrightarrow> memory_ok h \<Longrightarrow> memory_ok h'"
  by (cases a)
    (auto intro: register_ok deregister_ok update_ok verified_ok unverified_ok dispatch_take_ok
      dispatch_send_ok dispatch_return_ok deliver_one_ok simp: close_updates_def)

lemma new_ok: "newMemoryHub options = Inr h \<Longrightarrow> memory_ok h"
  by (auto simp: newMemoryHub_def memory_ok_def Let_def split: if_splits)

lemma memory_reachable_ok: "memory_reachable options rt h w \<Longrightarrow> memory_ok h"
  by (induction rule: memory_reachable.induct) (auto intro: new_ok memory_exec_ok)

section \<open>Versions\<close>

definition stored_versions :: "(string, string, stored_subscription) nested \<Rightarrow> 64 word set" where
  "stored_versions subs = {v. \<exists>t c s. nested_get subs t c = Some s \<and> v = st_version s}"

definition dispatcher_jobs :: "dispatcher \<Rightarrow> delivery_job list" where
  "dispatcher_jobs d = (case d of Dispatching jobs \<Rightarrow> jobs | DispatcherDone \<Rightarrow> [])"

definition job_versions :: "memory_hub \<Rightarrow> 64 word set" where
  "job_versions h =
     stored_versions (mh_subscriptions h)
     \<union> (\<lambda>j. st_version (dj_stored j)) ` set (mh_deliveries h)
     \<union> (\<lambda>j. st_version (dj_stored j)) ` set (dispatcher_jobs (mh_dispatcher h))"

definition versions_ok :: "memory_hub \<Rightarrow> bool" where
  "versions_ok h \<longleftrightarrow> (\<forall>v \<in> job_versions h. v \<le> mh_next_version h)"

lemma job_versions_subset:
  assumes "\<And>t c s. nested_get (mh_subscriptions h') t c = Some s \<Longrightarrow> st_version s \<in> V"
    and "\<And>j. j \<in> set (mh_deliveries h') \<Longrightarrow> st_version (dj_stored j) \<in> V"
    and "\<And>j. j \<in> set (dispatcher_jobs (mh_dispatcher h')) \<Longrightarrow> st_version (dj_stored j) \<in> V"
  shows "job_versions h' \<subseteq> V"
  using assms by (auto simp: job_versions_def stored_versions_def)

lemma stored_version: "nested_get (mh_subscriptions h) t c = Some s \<Longrightarrow> st_version s \<in> job_versions h"
  by (auto simp: job_versions_def stored_versions_def)

lemma queued_version: "j \<in> set (mh_deliveries h) \<Longrightarrow> st_version (dj_stored j) \<in> job_versions h"
  by (auto simp: job_versions_def)

lemma pending_version:
  "j \<in> set (dispatcher_jobs (mh_dispatcher h)) \<Longrightarrow> st_version (dj_stored j) \<in> job_versions h"
  by (auto simp: job_versions_def)

lemmas version_places = stored_version queued_version pending_version

text \<open>The three kinds of change: fewer subscriptions, jobs that move, a new version.\<close>

lemma versions_removed:
  assumes "\<And>t c s. nested_get subs t c = Some s \<Longrightarrow> nested_get (mh_subscriptions h) t c = Some s"
  shows "job_versions (h\<lparr>mh_subscriptions := subs\<rparr>) \<subseteq> job_versions h"
  by (intro job_versions_subset) (auto intro: version_places dest: assms)

lemma versions_remove: "job_versions (removeSubscription t c v h) \<subseteq> job_versions h"
proof (cases "nested_get (mh_subscriptions h) t c")
  case None
  then show ?thesis by (simp add: removeSubscription_def)
next
  case (Some s)
  have "job_versions (h\<lparr>mh_subscriptions := nested_del t c (mh_subscriptions h)\<rparr>) \<subseteq> job_versions h"
    by (rule versions_removed) (simp split: if_splits)
  then show ?thesis using Some by (simp add: removeSubscription_def)
qed

lemma versions_verified:
  "job_versions (fst (onSubscriptionVerified h m md)) \<subseteq>
     insert (mh_next_version (fst (onSubscriptionVerified h m md))) (job_versions h)"
  using version_places
  by (intro job_versions_subset)
    (auto simp: onSubscriptionVerified_def store_verified_def Let_def split: prod.splits if_splits)

lemma versions_callbacks:
  "job_versions (fst (onRegisterTopic h mr md)) \<subseteq> job_versions h"
  "job_versions (fst (onDeregisterTopic h md' md)) \<subseteq> job_versions h"
  "job_versions (fst (onUpdateMessage h mu md)) \<subseteq> job_versions h"
  "job_versions (fst (onUnsubscriptionVerified h mv md)) \<subseteq> job_versions h"
  by (intro job_versions_subset;
      auto simp: onRegisterTopic_def onDeregisterTopic_def onUpdateMessage_def
        onUnsubscriptionVerified_def intro: version_places split: if_splits)+

lemma versions_closed:
  "job_versions (h\<lparr>mh_closed := b\<rparr>) = job_versions h" "job_versions (h\<lparr>mh_cancelled := b\<rparr>) = job_versions h"
  by (simp_all add: job_versions_def)

lemma versions_deliver:
  assumes "deliver_one rt h w = Some (h', w')"
  shows "job_versions h' \<subseteq> job_versions h"
proof -
  obtain job jobs where q: "mh_deliveries h = job # jobs"
      "h' = fst (deliver_job rt job (h\<lparr>mh_deliveries := jobs\<rparr>) w)"
    using assms by (auto simp: deliver_one_def split: list.splits)
  have "job_versions (h\<lparr>mh_deliveries := jobs\<rparr>) \<subseteq> job_versions h"
    using q(1) by (intro job_versions_subset) (auto intro: version_places)
  then show ?thesis
    unfolding q(2) by (metis deliver_job_state order_trans versions_remove)
qed

lemma versions_dispatch:
  "dispatch_send h = Some h' \<Longrightarrow> job_versions h' \<subseteq> job_versions h"
  "dispatch_return h = Some h' \<Longrightarrow> job_versions h' \<subseteq> job_versions h"
  by (auto simp: dispatch_send_def dispatch_return_def dispatcher_jobs_def job_versions_def
      split: dispatcher.splits list.splits if_splits)

lemma versions_take:
  assumes "dispatch_take rt now h w = Some (h', w')" and "memory_ok h"
  shows "job_versions h' \<subseteq> job_versions h"
proof -
  obtain u us where d: "mh_dispatcher h = Dispatching []" "mh_updates h = u # us"
    using assms(1) by (auto simp: dispatch_take_def split: dispatcher.splits list.splits)
  let ?h = "h\<lparr>mh_updates := us\<rparr>"
  have nested: "nested_ok (mh_subscriptions ?h)" using memory_ok_nested [OF assms(2)] by simp
  obtain h2 active where a: "activeSubscriptions ?h (upd_topic u) now = (h2, active)"
    by (meson surj_pair)
  have same: "mh_deliveries h2 = mh_deliveries h"
    using a by (auto simp: activeSubscriptions_def Let_def)
  have "h' = ?h \<or> (\<exists>content. h' = h2\<lparr>mh_dispatcher := Dispatching (map (\<lambda>stored.
      \<lparr>dj_topic = upd_topic u, dj_stored = stored, dj_content = content\<rparr>) active)\<rparr>)"
    using assms(1) by (auto simp: dispatch_take_def d Let_def a split: prod.splits sum.splits)
  then show ?thesis
  proof
    assume h': "h' = ?h"
    show ?thesis unfolding h' by (intro job_versions_subset) (auto simp: d(1) intro: version_places)
  next
    assume "\<exists>content. h' = h2\<lparr>mh_dispatcher := Dispatching (map (\<lambda>stored.
      \<lparr>dj_topic = upd_topic u, dj_stored = stored, dj_content = content\<rparr>) active)\<rparr>"
    then obtain content where h': "h' = h2\<lparr>mh_dispatcher := Dispatching (map (\<lambda>stored.
      \<lparr>dj_topic = upd_topic u, dj_stored = stored, dj_content = content\<rparr>) active)\<rparr>" by blast
    have "st_version s \<in> job_versions h" if "nested_get (mh_subscriptions h2) t c = Some s" for t c s
      using that activeSubscriptions_get [OF nested a] stored_version by (auto split: option.splits if_splits)
    moreover have "st_version s \<in> job_versions h" if "s \<in> set active" for s
      using that activeSubscriptions_list [OF nested a] stored_version by auto
    ultimately show ?thesis
      unfolding h' using same by (intro job_versions_subset) (auto simp: dispatcher_jobs_def intro: version_places)
  qed
qed

text \<open>How the counter moves.\<close>

lemma next_version_remove [simp]: "mh_next_version (removeSubscription t c v h) = mh_next_version h"
  by (simp add: removeSubscription_def split: option.split)

lemma next_version_deliver: "mh_next_version (fst (deliver_job rt job h w)) = mh_next_version h"
  using deliver_job_state [of rt job h w] by auto

lemma next_version_take: "dispatch_take rt now h w = Some (h', w') \<Longrightarrow> mh_next_version h' = mh_next_version h"
  by (auto simp: dispatch_take_def activeSubscriptions_def Let_def
      split: prod.splits dispatcher.splits list.splits sum.splits)

lemma next_version_dispatch:
  "dispatch_send h = Some h' \<Longrightarrow> mh_next_version h' = mh_next_version h"
  "dispatch_return h = Some h' \<Longrightarrow> mh_next_version h' = mh_next_version h"
  by (auto simp: dispatch_send_def dispatch_return_def split: dispatcher.splits list.splits if_splits)

lemma next_version_deliver_one:
  assumes "deliver_one rt h w = Some (h', w')"
  shows "mh_next_version h' = mh_next_version h"
proof -
  obtain job jobs where "deliver_job rt job (h\<lparr>mh_deliveries := jobs\<rparr>) w = (h', w')"
    using assms by (auto simp: deliver_one_def split: list.splits)
  then show ?thesis
    using next_version_deliver [of rt job "h\<lparr>mh_deliveries := jobs\<rparr>" w] by simp
qed

lemma next_version_callbacks [simp]:
  "mh_next_version (fst (onRegisterTopic h mr md)) = mh_next_version h"
  "mh_next_version (fst (onDeregisterTopic h md' md)) = mh_next_version h"
  "mh_next_version (fst (onUpdateMessage h mu md)) = mh_next_version h"
  "mh_next_version (fst (onUnsubscriptionVerified h mv md)) = mh_next_version h"
  by (simp_all add: onRegisterTopic_def onDeregisterTopic_def onUpdateMessage_def onUnsubscriptionVerified_def)

lemma next_version_verified:
  "mh_next_version (fst (onSubscriptionVerified h m md)) \<in> {mh_next_version h, mh_next_version h + 1}"
  by (auto simp: onSubscriptionVerified_def store_verified_def Let_def split: prod.split)

lemma versions_step:
  assumes "memory_exec rt a (h, w) = Some (h', w')" and "memory_ok h"
  shows "mh_next_version h' \<in> {mh_next_version h, mh_next_version h + 1}
    \<and> job_versions h' \<subseteq> insert (mh_next_version h') (job_versions h)"
proof (cases a)
  case (DoVerified m)
  then show ?thesis
    using assms(1) next_version_verified [of h m no_metadata] versions_verified [of h m no_metadata] by auto
next
  case (DispatchTake now)
  then show ?thesis using assms next_version_take versions_take by fastforce
next
  case DispatchSend
  then show ?thesis using assms(1) next_version_dispatch(1) versions_dispatch(1) by fastforce
next
  case DispatchReturn
  then show ?thesis using assms(1) next_version_dispatch(2) versions_dispatch(2) by fastforce
next
  case DeliverOne
  then show ?thesis using assms(1) next_version_deliver_one versions_deliver by fastforce
qed (use assms(1) in \<open>auto simp: close_updates_def versions_closed
  intro: subsetD [OF versions_callbacks(1)] subsetD [OF versions_callbacks(2)]
    subsetD [OF versions_callbacks(3)] subsetD [OF versions_callbacks(4)]\<close>)

lemma unat_plus_one: "unat (n :: 64 word) + 1 < 2 ^ 64 \<Longrightarrow> unat (n + 1) = unat n + 1"
  by (simp add: unat_word_ariths)

fun memory_run :: "'o round_trip \<Rightarrow> memory_action list \<Rightarrow> memory_hub \<times> 'o \<Rightarrow> (memory_hub \<times> 'o) option" where
  "memory_run rt [] s = Some s"
| "memory_run rt (a # as) s = (case memory_exec rt a s of None \<Rightarrow> None | Some s' \<Rightarrow> memory_run rt as s')"

lemma memory_run_versions:
  assumes "memory_run rt as (h, w) = Some (h', w')" and "memory_ok h" and "versions_ok h"
    and "unat (mh_next_version h) + length as < 2 ^ 64"
  shows "memory_ok h' \<and> versions_ok h' \<and> unat (mh_next_version h') \<le> unat (mh_next_version h) + length as"
  using assms
proof (induction as arbitrary: h w)
  case (Cons a as)
  then obtain h1 w1 where step: "memory_exec rt a (h, w) = Some (h1, w1)" "memory_run rt as (h1, w1) = Some (h', w')"
    by (auto split: option.splits)
  have ok: "memory_ok h1" using memory_exec_ok step(1) Cons.prems(2) .
  have next1: "unat (mh_next_version h + 1) = unat (mh_next_version h) + 1"
    using Cons.prems(4) by (intro unat_plus_one) simp
  have moved: "mh_next_version h1 \<in> {mh_next_version h, mh_next_version h + 1}"
    and jobs: "job_versions h1 \<subseteq> insert (mh_next_version h1) (job_versions h)"
    using versions_step [OF step(1) Cons.prems(2)] by auto
  have le: "mh_next_version h \<le> mh_next_version h1" and bound: "unat (mh_next_version h1) \<le> unat (mh_next_version h) + 1"
    using moved next1 by (auto simp: word_le_nat_alt)
  have "versions_ok h1"
    using Cons.prems(3) jobs le unfolding versions_ok_def by (auto intro: order_trans)
  with Cons.IH [OF step(2) ok] bound Cons.prems(4) show ?case by simp
qed simp

lemma new_versions_ok: "newMemoryHub options = Inr h \<Longrightarrow> versions_ok h \<and> mh_next_version h = 0"
  by (auto simp: newMemoryHub_def versions_ok_def job_versions_def stored_versions_def
      dispatcher_jobs_def Let_def split: if_splits)

lemma memory_run_reachable:
  "memory_run rt as (h, w) = Some (h', w') \<Longrightarrow> memory_reachable options rt h w \<Longrightarrow> memory_reachable options rt h' w'"
  by (induction as arbitrary: h w) (auto split: option.splits intro: memory_step)

text \<open>A renewal gets a version that no stored, queued or pending job has.\<close>

lemma renewal_version_fresh:
  assumes "versions_ok h" and "unat (mh_next_version h) + 1 < 2 ^ 64" and "v \<in> job_versions h"
  shows "v \<noteq> mh_next_version h + 1"
proof -
  have "unat v \<le> unat (mh_next_version h)"
    using assms(1,3) by (simp add: versions_ok_def word_le_nat_alt)
  then show ?thesis using unat_plus_one [OF assms(2)] by auto
qed

lemma store_verified_get:
  "nested_get (mh_subscriptions (store_verified h m n)) t c =
    (if t = sub_topic (vs_subscription m) \<and> c = sub_callback (vs_subscription m)
     then Some \<lparr>st_subscription = cloneSubscription (vs_subscription m),
                st_expires = vs_lease_started m + wrap64 (n * second), st_version = mh_next_version h + 1\<rparr>
     else nested_get (mh_subscriptions h) t c)"
  by (simp add: store_verified_def Let_def)

lemma onSubscriptionVerified_returns:
  "onSubscriptionVerified h m md = (h', Returned None) \<longleftrightarrow>
     (\<exists>n. parse_int (vs_effective_lease m) = (n, None) \<and> 0 < n
        \<and> hasTopic h (sub_topic (vs_subscription m)) \<and> h' = store_verified h m n)"
  by (auto simp: onSubscriptionVerified_def denied_def split: prod.split)

lemma removeSubscription_get:
  "nested_get (mh_subscriptions (removeSubscription t c v h)) t' c' =
    (case nested_get (mh_subscriptions h) t' c' of
       None \<Rightarrow> None
     | Some s \<Rightarrow> if t' = t \<and> c' = c \<and> st_version s = v then None else Some s)"
  by (auto simp: removeSubscription_def split: option.splits)

lemma gone_keeps_renewal_aux:
  assumes "versions_ok h" and "unat (mh_next_version h) + 1 < 2 ^ 64"
    and "st_version (dj_stored job) \<in> job_versions h"
    and "onSubscriptionVerified h m md = (h', Returned None)"
  shows "nested_get (mh_subscriptions (fst (deliver_job rt job h' w)))
      (sub_topic (vs_subscription m)) (sub_callback (vs_subscription m)) =
    nested_get (mh_subscriptions h') (sub_topic (vs_subscription m)) (sub_callback (vs_subscription m))"
proof -
  obtain n where h': "h' = store_verified h m n"
    using assms(4) by (auto simp: onSubscriptionVerified_returns)
  have "st_version (dj_stored job) \<noteq> mh_next_version h + 1"
    using renewal_version_fresh [OF assms(1-3)] .
  then show ?thesis
    using deliver_job_state [of rt job h' w] by (auto simp: removeSubscription_get h' store_verified_get)
qed

end
