(* ===== verification/KafkaState.thy ===== *)
theory KafkaState
  imports Service GoStrings NestedMap
begin

text \<open>
  The state of the Kafka example (\<open>examples/kafka-websubhub/internal/state/state.go\<close>): the
  subscriptions it keeps, its snapshots, the decoded state events and the \<open>Consumer\<close> interface
  they are applied to.

  \<open>spec_event\<close> is the abstract state machine both consumers implement, on a view of two maps
  (topics; subscriptions by topic and callback): \<open>None\<close> for an invalid event. The locale
  \<open>event_consumer\<close> is the contract of \<open>Consumer\<close>: each method does to the view what \<open>spec_event\<close>
  says. It is interpreted by the consolidator and by the hub. The main fact about the log is
  \<open>spec_log_idem\<close>: applying a log again to the state it led to changes nothing, which is what
  makes a snapshot followed by a replay of the retained log right.
\<close>

definition SubscriptionStatusStale :: string where
  "SubscriptionStatusStale = ''stale''"

record kafka_subscription =
  ks_verified :: verified_subscription
  ks_server_id :: string
  ks_status :: string

definition ks_topic :: "kafka_subscription \<Rightarrow> string" where
  "ks_topic s = sub_topic (vs_subscription (ks_verified s))"

definition ks_callback :: "kafka_subscription \<Rightarrow> string" where
  "ks_callback s = sub_callback (vs_subscription (ks_verified s))"

definition NewSubscription :: "verified_subscription \<Rightarrow> string \<Rightarrow> kafka_subscription" where
  "NewSubscription verified serverID =
     \<lparr>ks_verified = verified, ks_server_id = serverID, ks_status = []\<rparr>"

definition NewStaleSubscription :: "verified_subscription \<Rightarrow> string \<Rightarrow> kafka_subscription" where
  "NewStaleSubscription verified serverID =
     \<lparr>ks_verified = verified, ks_server_id = serverID, ks_status = SubscriptionStatusStale\<rparr>"

record snapshot =
  sn_revision :: "64 word"
  sn_topics :: "topic_registration list"
  sn_subscriptions :: "kafka_subscription list"

section \<open>Events and consumers\<close>

datatype state_event =
    EventRegister topic_registration
  | EventDeregister topic_deregistration
  | EventSubscribe kafka_subscription
  | EventStale kafka_subscription
  | EventUnsubscribe verified_unsubscription

text \<open>The \<open>Consumer\<close> interface: a method changes the consumer or returns an error.\<close>

record 's event_methods =
  ApplyTopicRegistration :: "topic_registration \<Rightarrow> 's \<Rightarrow> 's \<times> error option"
  ApplyTopicDeregistration :: "topic_deregistration \<Rightarrow> 's \<Rightarrow> 's \<times> error option"
  ApplySubscription :: "kafka_subscription \<Rightarrow> 's \<Rightarrow> 's \<times> error option"
  ApplyStaleSubscription :: "kafka_subscription \<Rightarrow> 's \<Rightarrow> 's \<times> error option"
  ApplyUnsubscription :: "verified_unsubscription \<Rightarrow> 's \<Rightarrow> 's \<times> error option"

text \<open>The dispatch of \<open>ApplyEvent\<close>, after decoding.\<close>

fun dispatch_event :: "'s event_methods \<Rightarrow> state_event \<Rightarrow> 's \<Rightarrow> 's \<times> error option" where
  "dispatch_event c (EventRegister m) s = ApplyTopicRegistration c m s"
| "dispatch_event c (EventDeregister m) s = ApplyTopicDeregistration c m s"
| "dispatch_event c (EventSubscribe m) s = ApplySubscription c m s"
| "dispatch_event c (EventStale m) s = ApplyStaleSubscription c m s"
| "dispatch_event c (EventUnsubscribe m) s = ApplyUnsubscription c m s"

text \<open>A log applied up to the first error.\<close>

fun dispatch_log :: "'s event_methods \<Rightarrow> state_event list \<Rightarrow> 's \<Rightarrow> 's \<times> error option" where
  "dispatch_log c [] s = (s, None)"
| "dispatch_log c (e # es) s =
     (case dispatch_event c e s of
        (s', None) \<Rightarrow> dispatch_log c es s'
      | (s', Some err) \<Rightarrow> (s', Some err))"

text \<open>\<open>applySnapshot\<close> and \<open>restore\<close>: the topics, then each subscription as a fresh one,
  followed by its status.\<close>

definition restore_events :: "snapshot \<Rightarrow> state_event list" where
  "restore_events sn =
     map EventRegister (sn_topics sn)
     @ concat (map (\<lambda>s. EventSubscribe (s\<lparr>ks_status := []\<rparr>) #
                 (if ks_status s \<noteq> [] then [EventStale s] else [])) (sn_subscriptions sn))"

definition restore :: "'s event_methods \<Rightarrow> snapshot \<Rightarrow> 's \<Rightarrow> 's \<times> error option" where
  "restore c sn s = dispatch_log c (restore_events sn) s"

section \<open>The abstract state machine\<close>

record replica =
  rp_topics :: "string \<Rightarrow> topic_registration option"
  rp_subs :: "string \<Rightarrow> string \<Rightarrow> kafka_subscription option"

definition empty_replica :: replica where
  "empty_replica = \<lparr>rp_topics = (\<lambda>_. None), rp_subs = (\<lambda>_ _. None)\<rparr>"

definition register_valid :: "topic_registration \<Rightarrow> bool" where
  "register_valid m \<longleftrightarrow> reg_mode m = ModeRegister \<and> reg_topic m \<noteq> []"

definition deregister_valid :: "topic_deregistration \<Rightarrow> bool" where
  "deregister_valid m \<longleftrightarrow> dereg_mode m = ModeDeregister \<and> dereg_topic m \<noteq> []"

definition subscribe_valid :: "kafka_subscription \<Rightarrow> bool" where
  "subscribe_valid s \<longleftrightarrow>
     snd (parse_int (vs_effective_lease (ks_verified s))) = None
     \<and> 0 < fst (parse_int (vs_effective_lease (ks_verified s)))
     \<and> sub_mode (vs_subscription (ks_verified s)) = ModeSubscribe
     \<and> ks_topic s \<noteq> [] \<and> ks_callback s \<noteq> [] \<and> sub_hub (vs_subscription (ks_verified s)) \<noteq> []
     \<and> vs_lease_started (ks_verified s) \<noteq> 0 \<and> ks_server_id s \<noteq> [] \<and> ks_status s = []"

definition stale_valid :: "kafka_subscription \<Rightarrow> bool" where
  "stale_valid s \<longleftrightarrow>
     ks_status s = SubscriptionStatusStale \<and> sub_mode (vs_subscription (ks_verified s)) = ModeSubscribe
     \<and> ks_topic s \<noteq> [] \<and> ks_callback s \<noteq> [] \<and> ks_server_id s \<noteq> []"

definition unsubscribe_valid :: "verified_unsubscription \<Rightarrow> bool" where
  "unsubscribe_valid m \<longleftrightarrow>
     unsub_mode (vu_unsubscription m) = ModeUnsubscribe
     \<and> unsub_topic (vu_unsubscription m) \<noteq> [] \<and> unsub_callback (vu_unsubscription m) \<noteq> []"

fun event_valid :: "state_event \<Rightarrow> bool" where
  "event_valid (EventRegister m) = register_valid m"
| "event_valid (EventDeregister m) = deregister_valid m"
| "event_valid (EventSubscribe m) = subscribe_valid m"
| "event_valid (EventStale m) = stale_valid m"
| "event_valid (EventUnsubscribe m) = unsubscribe_valid m"

text \<open>What an event does to one topic, and to one subscription.\<close>

fun topic_step :: "string \<Rightarrow> state_event \<Rightarrow> topic_registration option \<Rightarrow> topic_registration option" where
  "topic_step t (EventRegister m) x = (if reg_topic m = t then Some m else x)"
| "topic_step t (EventDeregister m) x = (if dereg_topic m = t then None else x)"
| "topic_step t _ x = x"

definition is_stale :: "kafka_subscription \<Rightarrow> bool" where
  "is_stale s \<longleftrightarrow> ks_status s = SubscriptionStatusStale"

definition same_lease :: "kafka_subscription \<Rightarrow> kafka_subscription \<Rightarrow> bool" where
  "same_lease s s' \<longleftrightarrow>
     ks_server_id s = ks_server_id s' \<and> vs_lease_started (ks_verified s) = vs_lease_started (ks_verified s')"

fun sub_step :: "string \<Rightarrow> string \<Rightarrow> state_event \<Rightarrow> kafka_subscription option \<Rightarrow> kafka_subscription option" where
  "sub_step t c (EventRegister m) x = x"
| "sub_step t c (EventDeregister m) x = (if dereg_topic m = t then None else x)"
| "sub_step t c (EventSubscribe s) x =
     (if ks_topic s = t \<and> ks_callback s = c
      then (case x of None \<Rightarrow> Some s | Some old \<Rightarrow> if is_stale old then Some (old\<lparr>ks_status := []\<rparr>) else Some old)
      else x)"
| "sub_step t c (EventStale s) x =
     (if ks_topic s = t \<and> ks_callback s = c
      then (case x of None \<Rightarrow> None
            | Some old \<Rightarrow> if same_lease old s then Some (old\<lparr>ks_status := SubscriptionStatusStale\<rparr>) else Some old)
      else x)"
| "sub_step t c (EventUnsubscribe m) x =
     (if unsub_topic (vu_unsubscription m) = t \<and> unsub_callback (vu_unsubscription m) = c then None else x)"

definition replica_step :: "state_event \<Rightarrow> replica \<Rightarrow> replica" where
  "replica_step e v =
     \<lparr>rp_topics = (\<lambda>t. topic_step t e (rp_topics v t)), rp_subs = (\<lambda>t c. sub_step t c e (rp_subs v t c))\<rparr>"

definition spec_event :: "state_event \<Rightarrow> replica \<Rightarrow> replica option" where
  "spec_event e v = (if event_valid e then Some (replica_step e v) else None)"

fun spec_log :: "state_event list \<Rightarrow> replica \<Rightarrow> replica option" where
  "spec_log [] v = Some v"
| "spec_log (e # es) v = (case spec_event e v of None \<Rightarrow> None | Some v' \<Rightarrow> spec_log es v')"

lemma spec_log_append:
  "spec_log (es @ fs) v = (case spec_log es v of None \<Rightarrow> None | Some v' \<Rightarrow> spec_log fs v')"
  by (induction es arbitrary: v) (simp_all split: option.split)

lemma spec_log_fold:
  "spec_log es v = (if list_all event_valid es then Some (fold replica_step es v) else None)"
  by (induction es arbitrary: v) (simp_all add: spec_event_def)

lemma fold_replica_step:
  "rp_topics (fold replica_step es v) t = fold (topic_step t) es (rp_topics v t)"
  "rp_subs (fold replica_step es v) t c = fold (sub_step t c) es (rp_subs v t c)"
  by (induction es arbitrary: v) (simp_all add: replica_step_def)

section \<open>Replaying a log\<close>

text \<open>On one topic a log is constant or does nothing.\<close>

lemma topic_log_cases:
  "(\<forall>x y. fold (topic_step t) es x = fold (topic_step t) es y) \<or> (\<forall>x. fold (topic_step t) es x = x)"
proof (induction es rule: rev_induct)
  case (snoc e es)
  then show ?case by (cases e) auto
qed simp

lemma topic_log_idem: "fold (topic_step t) es (fold (topic_step t) es x) = fold (topic_step t) es x"
  using topic_log_cases [of t es] by metis

text \<open>A stored subscription is its core and whether it is stale.\<close>

definition with_stale :: "bool \<Rightarrow> kafka_subscription \<Rightarrow> kafka_subscription" where
  "with_stale b s = s\<lparr>ks_status := (if b then SubscriptionStatusStale else [])\<rparr>"

definition status_ok :: "kafka_subscription \<Rightarrow> bool" where
  "status_ok s \<longleftrightarrow> ks_status s = [] \<or> ks_status s = SubscriptionStatusStale"

lemma with_stale_simps [simp]:
  "is_stale (with_stale b s) = b" "ks_topic (with_stale b s) = ks_topic s"
  "ks_callback (with_stale b s) = ks_callback s" "same_lease (with_stale b s) s' = same_lease s s'"
  "(with_stale b s)\<lparr>ks_status := []\<rparr> = with_stale False s"
  "(with_stale b s)\<lparr>ks_status := SubscriptionStatusStale\<rparr> = with_stale True s"
  "with_stale b (with_stale b' s) = with_stale b s"
  by (simp_all add: with_stale_def is_stale_def SubscriptionStatusStale_def ks_topic_def ks_callback_def
      same_lease_def)

lemma with_stale_same: "ks_status s = [] \<Longrightarrow> with_stale False s = s"
  "status_ok s \<Longrightarrow> with_stale (is_stale s) s = s"
  by (auto simp: with_stale_def status_ok_def is_stale_def SubscriptionStatusStale_def)

text \<open>What a log can do to one subscription: reset it to a fixed value; or keep the core of a
  stored one, with a staleness that is fixed or unchanged, and store a core whose staleness is
  then fixed.\<close>

definition steady :: "(kafka_subscription option \<Rightarrow> kafka_subscription option) \<Rightarrow> bool" where
  "steady f \<longleftrightarrow>
     (\<forall>v. \<exists>h. (\<forall>b. f (Some (with_stale b v)) = Some (with_stale (h b) v)) \<and> (\<forall>b b'. h b = h b' \<or> h b = b))
     \<and> (f None = None \<or> (\<exists>v b0. f None = Some (with_stale b0 v)
          \<and> (\<forall>b. f (Some (with_stale b v)) = Some (with_stale b0 v))))"

lemma steady_id: "steady (\<lambda>x. x)"
  unfolding steady_def by (auto intro: exI [of _ "\<lambda>b. b"])

lemma steady_compose_const:
  assumes "steady f"
    and "\<And>v. (\<forall>b. g (Some (with_stale b v)) = Some (with_stale b v)) \<or> (\<exists>k. \<forall>b. g (Some (with_stale b v)) = Some (with_stale k v))"
    and "g None = None \<or> (\<exists>v k. g None = Some (with_stale k v) \<and> (\<forall>b w. g (Some (with_stale b w)) = Some (with_stale k w)))"
  shows "steady (\<lambda>x. g (f x))"
  unfolding steady_def
proof (intro conjI allI)
  fix v
  obtain h where h: "\<And>b. f (Some (with_stale b v)) = Some (with_stale (h b) v)" "\<And>b b'. h b = h b' \<or> h b = b"
    using assms(1) unfolding steady_def by metis
  from assms(2) [of v] show "\<exists>h. (\<forall>b. g (f (Some (with_stale b v))) = Some (with_stale (h b) v)) \<and> (\<forall>b b'. h b = h b' \<or> h b = b)"
  proof
    assume "\<forall>b. g (Some (with_stale b v)) = Some (with_stale b v)"
    then show ?thesis using h by (intro exI [of _ h]) simp
  next
    assume "\<exists>k. \<forall>b. g (Some (with_stale b v)) = Some (with_stale k v)"
    then obtain k where "\<And>b. g (Some (with_stale b v)) = Some (with_stale k v)" by blast
    then show ?thesis using h by (intro exI [of _ "\<lambda>_. k"]) simp
  qed
next
  consider "f None = None" | v b0 where "f None = Some (with_stale b0 v)" "\<And>b. f (Some (with_stale b v)) = Some (with_stale b0 v)"
    using assms(1) unfolding steady_def by auto
  then show "g (f None) = None \<or> (\<exists>v b0. g (f None) = Some (with_stale b0 v)
      \<and> (\<forall>b. g (f (Some (with_stale b v))) = Some (with_stale b0 v)))"
  proof cases
    case 1
    from assms(3) show ?thesis
    proof
      assume "\<exists>v k. g None = Some (with_stale k v) \<and> (\<forall>b w. g (Some (with_stale b w)) = Some (with_stale k w))"
      then obtain v k where g: "g None = Some (with_stale k v)" "\<And>b w. g (Some (with_stale b w)) = Some (with_stale k w)"
        by blast
      obtain h where "\<And>b. f (Some (with_stale b v)) = Some (with_stale (h b) v)"
        using assms(1) unfolding steady_def by metis
      then show ?thesis using 1 g by (intro disjI2 exI [of _ v] exI [of _ k]) simp
    qed (simp add: 1)
  next
    case 2
    from assms(2) [of v] 2 show ?thesis by metis
  qed
qed

lemma sub_log_cases:
  assumes "list_all event_valid es"
  shows "(\<exists>k. \<forall>x. fold (sub_step t c) es x = k) \<or> steady (fold (sub_step t c) es)"
  using assms
proof (induction es rule: rev_induct)
  case Nil
  then show ?case using steady_id by (simp add: id_def)
next
  case (snoc e es)
  let ?f = "fold (sub_step t c) es"
  have cases: "(\<exists>k. \<forall>x. ?f x = k) \<or> steady ?f"
    using snoc by simp
  have valid: "event_valid e" using snoc.prems by simp
  have comp: "fold (sub_step t c) (es @ [e]) = (\<lambda>x. sub_step t c e (?f x))"
    by (simp add: fun_eq_iff)
  have step: "(\<exists>k. \<forall>x. sub_step t c e (?f x) = k) \<or> steady (\<lambda>x. sub_step t c e (?f x))" if "steady ?f"
  proof (cases e)
    case (EventSubscribe s)
    have "ks_status s = []" using valid EventSubscribe by (simp add: subscribe_valid_def)
    then have "Some s = Some (with_stale False s)" by (simp add: with_stale_same)
    show ?thesis
    proof (cases "ks_topic s = t \<and> ks_callback s = c")
      case True
      then have some: "sub_step t c e (Some (with_stale b v)) = Some (with_stale False v)" for b v
        using EventSubscribe by simp
      have none: "sub_step t c e None = Some (with_stale False s)"
        using EventSubscribe True \<open>Some s = _\<close> by simp
      have "steady (\<lambda>x. sub_step t c e (?f x))"
        by (rule steady_compose_const [OF that]) (use some none in blast)+
      then show ?thesis ..
    next
      case False
      then have "sub_step t c e x = x" for x using EventSubscribe by auto
      then show ?thesis using that by simp
    qed
  next
    case (EventStale s)
    have some: "sub_step t c e (Some (with_stale b v)) =
        (if ks_topic s = t \<and> ks_callback s = c \<and> same_lease v s then Some (with_stale True v)
         else Some (with_stale b v))" for b v
      using EventStale by simp
    have "steady (\<lambda>x. sub_step t c e (?f x))"
      by (rule steady_compose_const [OF that]) (use some EventStale in auto)
    then show ?thesis ..
  next
    case (EventDeregister m)
    then show ?thesis using that by auto
  next
    case (EventUnsubscribe m)
    then show ?thesis using that by auto
  next
    case (EventRegister m)
    then show ?thesis using that by simp
  qed
  from cases show ?case
    unfolding comp using step by auto
qed

lemma sub_log_idem:
  assumes "list_all event_valid es" and "\<And>s. x = Some s \<Longrightarrow> status_ok s"
  shows "fold (sub_step t c) es (fold (sub_step t c) es x) = fold (sub_step t c) es x"
  using sub_log_cases [OF assms(1), of t c]
proof
  assume "steady (fold (sub_step t c) es)"
  then show ?thesis
  proof (cases x)
    case None
    with \<open>steady _\<close> show ?thesis unfolding steady_def by auto
  next
    case (Some s)
    then have s: "x = Some (with_stale (is_stale s) s)" using assms(2) with_stale_same(2) by simp
    obtain h where h: "\<And>b. fold (sub_step t c) es (Some (with_stale b s)) = Some (with_stale (h b) s)"
        "\<And>b b'. h b = h b' \<or> h b = b"
      using \<open>steady _\<close> unfolding steady_def by metis
    have "h (h b) = h b" for b using h(2) by blast
    then show ?thesis using h(1) by (simp add: s)
  qed
qed auto

definition replica_ok :: "replica \<Rightarrow> bool" where
  "replica_ok v \<longleftrightarrow> (\<forall>t c s. rp_subs v t c = Some s \<longrightarrow> status_ok s)"

lemma sub_step_status_ok:
  assumes "event_valid e" and "\<And>s. x = Some s \<Longrightarrow> status_ok s" and "sub_step t c e x = Some s"
  shows "status_ok s"
  using assms
  by (cases e) (auto simp: status_ok_def subscribe_valid_def split: if_splits option.splits)

lemma replica_step_ok: "event_valid e \<Longrightarrow> replica_ok v \<Longrightarrow> replica_ok (replica_step e v)"
  using sub_step_status_ok unfolding replica_ok_def replica_step_def by simp blast

lemma empty_replica_ok [simp]: "replica_ok empty_replica"
  by (simp add: replica_ok_def empty_replica_def)

lemma spec_log_ok: "spec_log es v = Some v' \<Longrightarrow> replica_ok v \<Longrightarrow> replica_ok v'"
  by (induction es arbitrary: v) (auto simp: spec_event_def replica_step_ok split: option.splits if_splits)

theorem spec_log_idem:
  assumes "spec_log es v = Some v'" and "replica_ok v"
  shows "spec_log es v' = Some v'"
proof -
  have valid: "list_all event_valid es" and v': "v' = fold replica_step es v"
    using assms(1) by (auto simp: spec_log_fold split: if_splits)
  have "rp_topics (fold replica_step es v') = rp_topics v'"
    by (rule ext) (simp add: v' fold_replica_step topic_log_idem)
  moreover have "rp_subs (fold replica_step es v') = rp_subs v'"
    using assms(2) unfolding replica_ok_def
    by (intro ext) (simp add: v' fold_replica_step sub_log_idem [OF valid])
  ultimately have "fold replica_step es v' = v'" by simp
  with valid show ?thesis by (simp add: spec_log_fold)
qed

text \<open>So a state built from a prefix of the log, and then from the whole log again, is the
  state of the log.\<close>

lemma spec_log_replay:
  assumes "spec_log (es @ fs) v = Some v'" and "replica_ok v" and "spec_log es v = Some u"
  shows "spec_log (es @ fs) u = Some v'"
  using assms spec_log_idem [OF assms(3,2)] by (simp add: spec_log_append)

end
