(* ===== verification/KafkaReplay.thy ===== *)
theory KafkaReplay
  imports KafkaState
begin

text \<open>
  The contract of \<open>state.Consumer\<close> as a locale, and snapshots against the abstract state
  machine of \<open>KafkaState\<close>: what restoring a snapshot gives, and that a consumer which starts
  from a snapshot and then replays the retained log ends in the state of the log.
\<close>

section \<open>The contract of a consumer\<close>

locale event_consumer =
  fixes methods :: "'s event_methods"
    and view :: "'s \<Rightarrow> replica"
    and inv :: "'s \<Rightarrow> bool"
    and admissible :: "state_event \<Rightarrow> bool"
  assumes apply_register: "inv s \<Longrightarrow> ApplyTopicRegistration methods m s = (s', err) \<Longrightarrow>
      if register_valid m then err = None \<and> inv s' \<and> view s' = replica_step (EventRegister m) (view s)
      else err \<noteq> None \<and> s' = s"
    and apply_deregister: "inv s \<Longrightarrow> ApplyTopicDeregistration methods d s = (s', err) \<Longrightarrow>
      if deregister_valid d then err = None \<and> inv s' \<and> view s' = replica_step (EventDeregister d) (view s)
      else err \<noteq> None \<and> s' = s"
    and apply_subscribe: "inv s \<Longrightarrow> admissible (EventSubscribe u) \<Longrightarrow> ApplySubscription methods u s = (s', err) \<Longrightarrow>
      if subscribe_valid u then err = None \<and> inv s' \<and> view s' = replica_step (EventSubscribe u) (view s)
      else err \<noteq> None \<and> s' = s"
    and apply_stale: "inv s \<Longrightarrow> admissible (EventStale u) \<Longrightarrow> ApplyStaleSubscription methods u s = (s', err) \<Longrightarrow>
      if stale_valid u then err = None \<and> inv s' \<and> view s' = replica_step (EventStale u) (view s)
      else err \<noteq> None \<and> s' = s"
    and apply_unsubscribe: "inv s \<Longrightarrow> admissible (EventUnsubscribe q) \<Longrightarrow> ApplyUnsubscription methods q s = (s', err) \<Longrightarrow>
      if unsubscribe_valid q then err = None \<and> inv s' \<and> view s' = replica_step (EventUnsubscribe q) (view s)
      else err \<noteq> None \<and> s' = s"
begin

lemma dispatch_contract:
  assumes "inv s" and "admissible e" and "dispatch_event methods e s = (s', err)"
  shows "if event_valid e then err = None \<and> inv s' \<and> view s' = replica_step e (view s)
    else err \<noteq> None \<and> s' = s"
proof (cases e)
  case (EventRegister m)
  then show ?thesis using apply_register [OF assms(1)] assms(3) by simp
next
  case (EventDeregister m)
  then show ?thesis using apply_deregister [OF assms(1)] assms(3) by simp
next
  case (EventSubscribe m)
  then show ?thesis using apply_subscribe [OF assms(1)] assms(2,3) by simp
next
  case (EventStale m)
  then show ?thesis using apply_stale [OF assms(1)] assms(2,3) by simp
next
  case (EventUnsubscribe m)
  then show ?thesis using apply_unsubscribe [OF assms(1)] assms(2,3) by simp
qed

text \<open>A log is applied exactly as the state machine says, or stops at its first invalid event.\<close>

lemma log_contract:
  assumes "inv s" and "list_all admissible es" and "dispatch_log methods es s = (s', err)"
  shows "inv s' \<and> (case spec_log es (view s) of None \<Rightarrow> err \<noteq> None | Some v \<Rightarrow> err = None \<and> view s' = v)"
  using assms
proof (induction es arbitrary: s)
  case (Cons e es)
  obtain s1 err1 where step: "dispatch_event methods e s = (s1, err1)" by fastforce
  have contract: "if event_valid e then err1 = None \<and> inv s1 \<and> view s1 = replica_step e (view s)
      else err1 \<noteq> None \<and> s1 = s"
    using dispatch_contract [OF Cons.prems(1) _ step] Cons.prems(2) by simp
  show ?case
  proof (cases "event_valid e")
    case True
    then have "err1 = None" "inv s1" "view s1 = replica_step e (view s)" using contract by simp_all
    then show ?thesis
      using Cons.IH [of s1] Cons.prems(2,3) True by (simp add: step spec_event_def)
  next
    case False
    then show ?thesis using contract Cons.prems(1,3) by (auto simp: step spec_event_def)
  qed
qed simp

lemma log_contract_error:
  assumes "inv s" and "list_all admissible es" and "dispatch_log methods es s = (s', err)"
  shows "err = None \<longleftrightarrow> list_all event_valid es"
  using log_contract [OF assms] by (simp add: spec_log_fold split: if_splits)

text \<open>In either case the events before the first invalid one have been applied.\<close>

lemma log_view:
  assumes "inv s" and "list_all admissible es" and "dispatch_log methods es s = (s', err)"
  shows "view s' = fold replica_step (takeWhile event_valid es) (view s)"
  using assms
proof (induction es arbitrary: s)
  case (Cons e es)
  obtain s1 err1 where step: "dispatch_event methods e s = (s1, err1)" by fastforce
  have contract: "if event_valid e then err1 = None \<and> inv s1 \<and> view s1 = replica_step e (view s)
      else err1 \<noteq> None \<and> s1 = s"
    using dispatch_contract [OF Cons.prems(1) _ step] Cons.prems(2) by simp
  show ?case
  proof (cases "event_valid e")
    case True
    then have "err1 = None" "inv s1" "view s1 = replica_step e (view s)" using contract by simp_all
    then show ?thesis using Cons.IH [of s1] Cons.prems(2,3) True by (simp add: step)
  next
    case False
    then show ?thesis using contract Cons.prems(3) by (auto simp: step)
  qed
qed simp

text \<open>Starting from the state of a prefix of the log, the replay of the log from its start
  leads to the state of the log.\<close>

lemma replay_contract:
  assumes "inv s" and "list_all admissible (es @ fs)" and "replica_ok v"
    and "spec_log es v = Some (view s)" and "dispatch_log methods (es @ fs) s = (s', None)"
  shows "spec_log (es @ fs) v = Some (view s')"
proof -
  have "spec_log (es @ fs) (view s) = Some (view s')"
    using log_contract [OF assms(1,2,5)] by (simp split: option.splits)
  moreover have "spec_log es (view s) = Some (view s)"
    using spec_log_idem [OF assms(4,3)] .
  ultimately show ?thesis using assms(4) by (simp add: spec_log_append)
qed

end

section \<open>Valid states\<close>

definition entry_valid :: "kafka_subscription \<Rightarrow> bool" where
  "entry_valid s \<longleftrightarrow> subscribe_valid (s\<lparr>ks_status := []\<rparr>) \<and> status_ok s"

definition replica_valid :: "replica \<Rightarrow> bool" where
  "replica_valid v \<longleftrightarrow>
     (\<forall>t m. rp_topics v t = Some m \<longrightarrow> register_valid m \<and> reg_topic m = t)
     \<and> (\<forall>t c s. rp_subs v t c = Some s \<longrightarrow> entry_valid s \<and> ks_topic s = t \<and> ks_callback s = c)"

lemma empty_replica_valid [simp]: "replica_valid empty_replica"
  by (simp add: replica_valid_def empty_replica_def)

lemma ks_update_simps [simp]:
  "ks_topic (s\<lparr>ks_status := x\<rparr>) = ks_topic s" "ks_callback (s\<lparr>ks_status := x\<rparr>) = ks_callback s"
  by (simp_all add: ks_topic_def ks_callback_def)

lemma entry_valid_new: "subscribe_valid s \<Longrightarrow> entry_valid s"
proof -
  assume v: "subscribe_valid s"
  then have "ks_status s = []" by (simp add: subscribe_valid_def)
  then have "s\<lparr>ks_status := []\<rparr> = s" "status_ok s" by (simp_all add: status_ok_def)
  with v show ?thesis by (simp add: entry_valid_def)
qed

lemma entry_valid_status:
  "entry_valid s \<Longrightarrow> entry_valid (s\<lparr>ks_status := []\<rparr>)"
  "entry_valid s \<Longrightarrow> entry_valid (s\<lparr>ks_status := SubscriptionStatusStale\<rparr>)"
  by (simp_all add: entry_valid_def status_ok_def)

lemma replica_step_valid:
  assumes "event_valid e" and "replica_valid v"
  shows "replica_valid (replica_step e v)"
proof -
  have topic: "register_valid m \<and> reg_topic m = t" if "topic_step t e (rp_topics v t) = Some m" for t m
    using that assms by (cases e) (auto simp: replica_valid_def split: if_splits)
  have sub: "entry_valid s \<and> ks_topic s = t \<and> ks_callback s = c"
    if "sub_step t c e (rp_subs v t c) = Some s" for t c s
    using that assms entry_valid_new entry_valid_status
    by (cases e) (auto simp: replica_valid_def split: if_splits option.splits)
  show ?thesis
    using topic sub by (simp add: replica_valid_def replica_step_def)
qed

lemma spec_log_valid: "spec_log es v = Some v' \<Longrightarrow> replica_valid v \<Longrightarrow> replica_valid v'"
  by (induction es arbitrary: v) (auto simp: spec_event_def replica_step_valid split: option.splits if_splits)

lemma replica_valid_ok: "replica_valid v \<Longrightarrow> replica_ok v"
  by (auto simp: replica_valid_def replica_ok_def entry_valid_def)

section \<open>Snapshots\<close>

text \<open>The snapshot lists exactly the entries of the state, each once.\<close>

definition snapshot_of :: "snapshot \<Rightarrow> replica \<Rightarrow> bool" where
  "snapshot_of sn v \<longleftrightarrow>
     distinct (map reg_topic (sn_topics sn))
     \<and> distinct (map (\<lambda>s. (ks_topic s, ks_callback s)) (sn_subscriptions sn))
     \<and> (\<forall>t m. rp_topics v t = Some m \<longleftrightarrow> m \<in> set (sn_topics sn) \<and> reg_topic m = t)
     \<and> (\<forall>t c s. rp_subs v t c = Some s \<longleftrightarrow>
          s \<in> set (sn_subscriptions sn) \<and> ks_topic s = t \<and> ks_callback s = c)"

lemma option_eqI: "(\<And>v. x = Some v \<longleftrightarrow> y = Some v) \<Longrightarrow> x = y"
  by (cases x; cases y) auto

lemma case_option_self: "(case x of None \<Rightarrow> None | Some y \<Rightarrow> Some y) = x"
  by (cases x) simp_all

lemma find_key_iff:
  "distinct (map f xs) \<Longrightarrow> find (\<lambda>x. f x = k) xs = Some x \<longleftrightarrow> x \<in> set xs \<and> f x = k"
  by (induction xs) (auto simp: rev_image_eqI)

lemma fold_topic_registers:
  "distinct (map reg_topic ms) \<Longrightarrow>
     fold (topic_step t) (map EventRegister ms) x =
       (case find (\<lambda>m. reg_topic m = t) ms of None \<Rightarrow> x | Some m \<Rightarrow> Some m)"
proof (induction ms arbitrary: x)
  case (Cons m ms)
  have "reg_topic m = t \<Longrightarrow> find (\<lambda>m. reg_topic m = t) ms = None"
    using Cons.prems by (auto simp: find_None_iff intro: rev_image_eqI)
  with Cons show ?case by auto
qed simp

definition sub_events :: "kafka_subscription \<Rightarrow> state_event list" where
  "sub_events s = EventSubscribe (s\<lparr>ks_status := []\<rparr>) # (if ks_status s \<noteq> [] then [EventStale s] else [])"

lemma restore_events_alt:
  "restore_events sn = map EventRegister (sn_topics sn) @ concat (map sub_events (sn_subscriptions sn))"
  by (simp add: restore_events_def sub_events_def [abs_def])

lemma fold_topic_subs: "fold (topic_step t) (concat (map sub_events ss)) x = x"
  by (induction ss arbitrary: x) (simp_all add: sub_events_def)

lemma fold_sub_registers: "fold (sub_step t c) (map EventRegister ms) x = x"
  by (induction ms arbitrary: x) simp_all

lemma fold_sub_events_none:
  assumes "status_ok s"
  shows "fold (sub_step t c) (sub_events s) None = (if ks_topic s = t \<and> ks_callback s = c then Some s else None)"
  using assms
  by (auto simp: sub_events_def status_ok_def same_lease_def SubscriptionStatusStale_def)

lemma fold_sub_events_other:
  "\<not> (ks_topic s = t \<and> ks_callback s = c) \<Longrightarrow> fold (sub_step t c) (sub_events s) x = x"
  by (auto simp: sub_events_def)

lemma fold_sub_snapshot:
  "distinct (map (\<lambda>s. (ks_topic s, ks_callback s)) ss) \<Longrightarrow> \<forall>s \<in> set ss. status_ok s \<Longrightarrow>
     fold (sub_step t c) (concat (map sub_events ss)) None =
       find (\<lambda>s. ks_topic s = t \<and> ks_callback s = c) ss"
proof (induction ss)
  case (Cons s ss)
  show ?case
  proof (cases "ks_topic s = t \<and> ks_callback s = c")
    case True
    have "fold (sub_step t c) (concat (map sub_events ss')) (Some s) = Some s"
      if "\<forall>r \<in> set ss'. \<not> (ks_topic r = t \<and> ks_callback r = c)" for ss'
      using that by (induction ss') (simp_all add: fold_sub_events_other)
    moreover have "\<forall>r \<in> set ss. \<not> (ks_topic r = t \<and> ks_callback r = c)"
      using Cons.prems(1) True by (simp add: image_iff) metis
    ultimately show ?thesis
      using True Cons.prems(2) by (simp add: fold_sub_events_none)
  next
    case False
    then have "fold (sub_step t c) (sub_events s) None = None"
      by (rule fold_sub_events_other)
    moreover have "find (\<lambda>s. ks_topic s = t \<and> ks_callback s = c) (s # ss) =
        find (\<lambda>s. ks_topic s = t \<and> ks_callback s = c) ss"
      using False by auto
    ultimately show ?thesis using Cons False by auto
  qed
qed simp

text \<open>Restoring a snapshot of a valid state gives that state.\<close>

lemma spec_restore:
  assumes "snapshot_of sn v" and "replica_valid v"
  shows "spec_log (restore_events sn) empty_replica = Some v"
proof -
  have topics: "\<And>t m. rp_topics v t = Some m \<longleftrightarrow> m \<in> set (sn_topics sn) \<and> reg_topic m = t"
    and subs: "\<And>t c s. rp_subs v t c = Some s \<longleftrightarrow> s \<in> set (sn_subscriptions sn) \<and> ks_topic s = t \<and> ks_callback s = c"
    and dist: "distinct (map reg_topic (sn_topics sn))"
      "distinct (map (\<lambda>s. (ks_topic s, ks_callback s)) (sn_subscriptions sn))"
    using assms(1) by (simp_all add: snapshot_of_def)
  have reg: "register_valid m" if "m \<in> set (sn_topics sn)" for m
    using that topics assms(2) unfolding replica_valid_def by blast
  have entry: "entry_valid s" if "s \<in> set (sn_subscriptions sn)" for s
    using that subs assms(2) unfolding replica_valid_def by blast
  have stale: "stale_valid s" if "entry_valid s" "ks_status s \<noteq> []" for s
    using that by (auto simp: entry_valid_def status_ok_def subscribe_valid_def stale_valid_def)
  have "list_all event_valid (restore_events sn)"
    using reg entry stale
    by (auto simp: restore_events_alt sub_events_def list_all_iff entry_valid_def split: if_splits)
  moreover have "fold replica_step (restore_events sn) empty_replica = v"
  proof (rule replica.equality)
    have find_topic: "find (\<lambda>m. reg_topic m = t) (sn_topics sn) = rp_topics v t" for t
      by (rule option_eqI) (simp add: topics find_key_iff [OF dist(1)])
    have find_sub: "find (\<lambda>s. ks_topic s = t \<and> ks_callback s = c) (sn_subscriptions sn) = rp_subs v t c" for t c
      using find_key_iff [OF dist(2), of "(t, c)"] by (intro option_eqI) (simp add: subs)
    show "rp_topics (fold replica_step (restore_events sn) empty_replica) = rp_topics v"
    proof
      fix t
      show "rp_topics (fold replica_step (restore_events sn) empty_replica) t = rp_topics v t"
        by (simp add: fold_replica_step restore_events_alt fold_topic_subs fold_topic_registers [OF dist(1)]
            empty_replica_def find_topic case_option_self)
    qed
    show "rp_subs (fold replica_step (restore_events sn) empty_replica) = rp_subs v"
    proof (intro ext)
      fix t c
      let ?p = "\<lambda>s. ks_topic s = t \<and> ks_callback s = c"
      have "rp_subs (fold replica_step (restore_events sn) empty_replica) t c = find ?p (sn_subscriptions sn)"
        using fold_sub_snapshot [OF dist(2)] entry
        by (simp add: fold_replica_step restore_events_alt fold_sub_registers empty_replica_def entry_valid_def)
      also have "\<dots> = rp_subs v t c"
        by (rule find_sub)
      finally show "rp_subs (fold replica_step (restore_events sn) empty_replica) t c = rp_subs v t c" .
    qed
  qed simp
  ultimately show ?thesis by (simp add: spec_log_fold)
qed

text \<open>A snapshot of the state after a log, restored and then given what is retained of that log
  (its part from \<open>base\<close> on) and what follows, is the state of the whole log.\<close>

definition state_of :: "state_event list \<Rightarrow> replica" where
  "state_of es = fold replica_step es empty_replica"

lemma spec_log_state_of: "list_all event_valid es \<Longrightarrow> spec_log es empty_replica = Some (state_of es)"
  by (simp add: spec_log_fold state_of_def)

lemma state_of_valid: "list_all event_valid es \<Longrightarrow> replica_valid (state_of es)"
  using spec_log_valid [OF spec_log_state_of empty_replica_valid] .

lemma fold_replay:
  assumes "list_all event_valid (es @ fs)" and "base \<le> length es"
  shows "fold replica_step (drop base es @ fs) (state_of es) = state_of (es @ fs)"
proof -
  let ?v = "state_of (take base es)"
  have split: "state_of es = fold replica_step (drop base es) ?v"
    by (simp add: state_of_def) (metis append_take_drop_id comp_apply fold_append)
  have valid: "list_all event_valid (take base es)" "list_all event_valid (drop base es)"
    using assms(1) by (metis append_take_drop_id list_all_append)+
  have "spec_log (drop base es) ?v = Some (state_of es)"
    using valid(2) by (simp add: spec_log_fold split)
  then have "spec_log (drop base es) (state_of es) = Some (state_of es)"
    by (rule spec_log_idem) (use state_of_valid [OF valid(1)] replica_valid_ok in blast)
  then have "fold replica_step (drop base es) (state_of es) = state_of es"
    using valid(2) by (simp add: spec_log_fold)
  then show ?thesis by (simp add: state_of_def)
qed

text \<open>A property of the callbacks of a log holds of its state.\<close>

fun event_callback :: "state_event \<Rightarrow> string option" where
  "event_callback (EventSubscribe s) = Some (ks_callback s)"
| "event_callback (EventStale s) = Some (ks_callback s)"
| "event_callback (EventUnsubscribe m) = Some (unsub_callback (vu_unsubscription m))"
| "event_callback _ = None"

definition callbacks_in :: "(string \<Rightarrow> bool) \<Rightarrow> state_event \<Rightarrow> bool" where
  "callbacks_in P e \<longleftrightarrow> (case event_callback e of None \<Rightarrow> True | Some c \<Rightarrow> P c)"

lemma callbacks_in_simps [simp]:
  "callbacks_in P (EventRegister m)" "callbacks_in P (EventDeregister d)"
  "callbacks_in P (EventSubscribe s) = P (ks_callback s)"
  "callbacks_in P (EventStale s) = P (ks_callback s)"
  "callbacks_in P (EventUnsubscribe q) = P (unsub_callback (vu_unsubscription q))"
  by (simp_all add: callbacks_in_def)

lemma state_of_callbacks:
  assumes "list_all (callbacks_in P) es" and "rp_subs (state_of es) t c = Some s"
  shows "P c"
  using assms
proof (induction es arbitrary: s rule: rev_induct)
  case (snoc e es)
  have "sub_step t c e (rp_subs (state_of es) t c) = Some s"
    using snoc.prems(2) by (simp add: state_of_def replica_step_def)
  then show ?case
    using snoc by (cases e) (auto split: if_splits option.splits)
qed (simp add: state_of_def empty_replica_def)

lemma restore_callbacks:
  assumes "snapshot_of sn (state_of es)" and "list_all (callbacks_in P) es"
  shows "list_all (callbacks_in P) (restore_events sn)"
proof -
  have "P (ks_callback s)" if "s \<in> set (sn_subscriptions sn)" for s
    using assms that state_of_callbacks [OF assms(2)] unfolding snapshot_of_def by blast
  then show ?thesis
    by (auto simp: restore_events_alt sub_events_def list_all_iff split: if_splits)
qed

context event_consumer
begin

text \<open>So a consumer that starts empty, restores such a snapshot and applies the retained log is
  in the state of the log, and no step of it fails.\<close>

lemma restore_contract:
  assumes "inv s" and "view s = empty_replica" and "list_all event_valid es"
    and "snapshot_of sn (state_of es)" and "list_all admissible (restore_events sn)"
    and "restore methods sn s = (s', err)"
  shows "err = None \<and> inv s' \<and> view s' = state_of es"
  using log_contract [OF assms(1,5) assms(6) [unfolded restore_def]] assms(2)
    spec_restore [OF assms(4) state_of_valid [OF assms(3)]] by simp

lemma startup_contract:
  assumes "inv s" and "view s = empty_replica" and "list_all event_valid (es @ fs)"
    and "snapshot_of sn (state_of es)" and "list_all admissible (restore_events sn)"
    and "list_all admissible (drop base es @ fs)" and "base \<le> length es"
    and "restore methods sn s = (s', err)" and "dispatch_log methods (drop base es @ fs) s' = (s'', err')"
  shows "err = None \<and> err' = None \<and> inv s'' \<and> view s'' = state_of (es @ fs)"
proof -
  have valid: "list_all event_valid es" "list_all event_valid (drop base es @ fs)"
    using assms(3) by (auto simp: list_all_iff dest: in_set_dropD)
  have r: "err = None" "inv s'" "view s' = state_of es"
    using restore_contract [OF assms(1,2) valid(1) assms(4,5,8)] by simp_all
  show ?thesis
    using log_contract [OF r(2) assms(6,9)] valid(2) r fold_replay [OF assms(3,7)]
    by (simp add: spec_log_fold)
qed

end

end
