(* ===== verification/StateCodec.thy ===== *)
theory StateCodec
  imports KafkaReplay
begin

text \<open>
  \<open>ApplyEvent\<close> of \<open>internal/state/state.go\<close>: a record is decoded twice, first its
  discriminator (mode and status) and then the event it names, and dispatched. The text
  grammar of \<open>encoding/json\<close> is a parameter, one function per type the code decodes into or
  encodes; \<open>decodes_to\<close> says that a payload decodes to an event, which is what the code relies
  on for the records it produced itself.
\<close>

record event_codec =
  json_discriminator :: "bytes \<Rightarrow> error + mode \<times> string"
  json_registration :: "bytes \<Rightarrow> error + topic_registration"
  json_deregistration :: "bytes \<Rightarrow> error + topic_deregistration"
  json_subscription :: "bytes \<Rightarrow> error + kafka_subscription"
  json_unsubscription :: "bytes \<Rightarrow> error + verified_unsubscription"
  json_snapshot :: "bytes \<Rightarrow> error + snapshot"
  marshal_event :: "state_event \<Rightarrow> error + bytes"
  marshal_snapshot :: "snapshot \<Rightarrow> error + bytes"
  json_valid :: "bytes \<Rightarrow> bool"

definition ApplyEvent :: "event_codec \<Rightarrow> bytes \<Rightarrow> 's event_methods \<Rightarrow> 's \<Rightarrow> 's \<times> error option" where
  "ApplyEvent codec payload consumer s =
     (case json_discriminator codec payload of
        Inl e \<Rightarrow> (s, Some (Prefixed ''decode event discriminator'' e))
      | Inr (mode, status) \<Rightarrow>
          if status \<noteq> [] then
            if mode \<noteq> ModeSubscribe \<or> status \<noteq> SubscriptionStatusStale
            then (s, Some (AppError ''unsupported subscription status''))
            else (case json_subscription codec payload of
                Inl e \<Rightarrow> (s, Some (Prefixed ''decode stale subscription'' e))
              | Inr subscription \<Rightarrow> ApplyStaleSubscription consumer subscription s)
          else if mode = ModeRegister then
            (case json_registration codec payload of
               Inl e \<Rightarrow> (s, Some (Prefixed ''decode topic registration'' e))
             | Inr registration \<Rightarrow> ApplyTopicRegistration consumer registration s)
          else if mode = ModeDeregister then
            (case json_deregistration codec payload of
               Inl e \<Rightarrow> (s, Some (Prefixed ''decode topic deregistration'' e))
             | Inr deregistration \<Rightarrow> ApplyTopicDeregistration consumer deregistration s)
          else if mode = ModeSubscribe then
            (case json_subscription codec payload of
               Inl e \<Rightarrow> (s, Some (Prefixed ''decode verified subscription'' e))
             | Inr subscription \<Rightarrow> ApplySubscription consumer subscription s)
          else if mode = ModeUnsubscribe then
            (case json_unsubscription codec payload of
               Inl e \<Rightarrow> (s, Some (Prefixed ''decode verified unsubscription'' e))
             | Inr unsubscription \<Rightarrow> ApplyUnsubscription consumer unsubscription s)
          else (s, Some (AppError ''unsupported event mode'')))"

text \<open>A payload that decodes to an event, as the code reads it.\<close>

fun event_mode :: "state_event \<Rightarrow> mode" where
  "event_mode (EventRegister m) = reg_mode m"
| "event_mode (EventDeregister m) = dereg_mode m"
| "event_mode (EventSubscribe s) = sub_mode (vs_subscription (ks_verified s))"
| "event_mode (EventStale s) = sub_mode (vs_subscription (ks_verified s))"
| "event_mode (EventUnsubscribe m) = unsub_mode (vu_unsubscription m)"

fun event_status :: "state_event \<Rightarrow> string" where
  "event_status (EventSubscribe s) = ks_status s"
| "event_status (EventStale s) = ks_status s"
| "event_status _ = []"

fun decodes_to :: "event_codec \<Rightarrow> bytes \<Rightarrow> state_event \<Rightarrow> bool" where
  "decodes_to codec p (EventRegister m) \<longleftrightarrow>
     json_discriminator codec p = Inr (reg_mode m, []) \<and> json_registration codec p = Inr m"
| "decodes_to codec p (EventDeregister m) \<longleftrightarrow>
     json_discriminator codec p = Inr (dereg_mode m, []) \<and> json_deregistration codec p = Inr m"
| "decodes_to codec p (EventSubscribe s) \<longleftrightarrow>
     json_discriminator codec p = Inr (sub_mode (vs_subscription (ks_verified s)), ks_status s)
     \<and> json_subscription codec p = Inr s"
| "decodes_to codec p (EventStale s) \<longleftrightarrow>
     json_discriminator codec p = Inr (sub_mode (vs_subscription (ks_verified s)), ks_status s)
     \<and> json_subscription codec p = Inr s"
| "decodes_to codec p (EventUnsubscribe m) \<longleftrightarrow>
     json_discriminator codec p = Inr (unsub_mode (vu_unsubscription m), [])
     \<and> json_unsubscription codec p = Inr m"

lemmas mode_defs = ModeSubscribe_def ModeUnsubscribe_def ModeRegister_def ModeDeregister_def ModePublish_def

text \<open>A valid event is applied as itself: two different events never decode from the mode and
  status of one of them.\<close>

lemma ApplyEvent_decoded:
  assumes "decodes_to codec p e" and "event_valid e"
  shows "ApplyEvent codec p consumer s = dispatch_event consumer e s"
  using assms
  by (cases e)
    (auto simp: ApplyEvent_def register_valid_def deregister_valid_def subscribe_valid_def stale_valid_def
      unsubscribe_valid_def mode_defs SubscriptionStatusStale_def)

text \<open>A payload that cannot be decoded, or names no event, changes nothing.\<close>

lemma ApplyEvent_undecoded:
  assumes "(\<exists>e. json_discriminator codec p = Inl e)
      \<or> (\<exists>mode status. json_discriminator codec p = Inr (mode, status) \<and>
          (status \<noteq> [] \<and> (mode \<noteq> ModeSubscribe \<or> status \<noteq> SubscriptionStatusStale)
           \<or> status = [] \<and> mode \<notin> {ModeRegister, ModeDeregister, ModeSubscribe, ModeUnsubscribe}))"
  shows "fst (ApplyEvent codec p consumer s) = s \<and> snd (ApplyEvent codec p consumer s) \<noteq> None"
  using assms by (auto simp: ApplyEvent_def)

text \<open>A log of records.\<close>

fun apply_payloads :: "event_codec \<Rightarrow> 's event_methods \<Rightarrow> bytes list \<Rightarrow> 's \<Rightarrow> 's \<times> error option" where
  "apply_payloads codec consumer [] s = (s, None)"
| "apply_payloads codec consumer (p # ps) s =
     (case ApplyEvent codec p consumer s of
        (s', None) \<Rightarrow> apply_payloads codec consumer ps s'
      | (s', Some err) \<Rightarrow> (s', Some err))"

lemma apply_payloads_decoded:
  "list_all2 (decodes_to codec) ps es \<Longrightarrow> list_all event_valid es \<Longrightarrow>
     apply_payloads codec consumer ps s = dispatch_log consumer es s"
proof (induction arbitrary: s rule: list_all2_induct)
  case (Cons p ps e es)
  then show ?case by (simp add: ApplyEvent_decoded split: prod.split option.split)
qed simp

lemmas state_codec_eval [go_eval] = ApplyEvent_def SubscriptionStatusStale_def

end
