(* ===== verification/KafkaHubInv.thy ===== *)
theory KafkaHubInv
  imports KafkaHub
begin

text \<open>
  The invariant of the Kafka hub's subscriptions and workers, its preservation by the five
  methods, and the interpretation of \<open>event_consumer\<close> on them.
\<close>

definition workers_ok ::
    "string \<Rightarrow> (string \<Rightarrow> string \<Rightarrow> kafka_stored option) \<Rightarrow> nat \<Rightarrow> kafka_worker list \<Rightarrow> bool" where
  "workers_ok server g n ws \<longleftrightarrow>
     (\<forall>t c s. g t c = Some s \<longrightarrow> kst_topic s = t \<and> kst_callback s = c \<and> kst_id s < n)
     \<and> (\<forall>t c s t' c' s'. g t c = Some s \<longrightarrow> g t' c' = Some s' \<longrightarrow> kst_id s = kst_id s' \<longrightarrow> t = t' \<and> c = c')
     \<and> distinct (map kw_id ws) \<and> (\<forall>w \<in> set ws. kw_id w < n)
     \<and> (\<forall>w \<in> set ws. \<not> kw_cancelled w \<longrightarrow>
          (\<exists>t c s. g t c = Some s \<and> kst_id s = kw_id w \<and> kst_cancel s \<and> kw_verified w = kst_verified s))
     \<and> (\<forall>t c s. g t c = Some s \<longrightarrow> kst_cancel s \<longrightarrow>
          kst_status s \<noteq> SubscriptionStatusStale \<and> kst_server_id s = server \<and> kst_id s \<in> kw_id ` set ws)
     \<and> (\<forall>t c s. g t c = Some s \<longrightarrow> \<not> kst_cancel s \<longrightarrow> kst_status s \<noteq> SubscriptionStatusStale \<longrightarrow>
          kst_id s \<notin> kw_id ` set ws)"

lemma workers_okD:
  assumes "workers_ok server g n ws"
  shows "g t c = Some s \<Longrightarrow> kst_topic s = t \<and> kst_callback s = c \<and> kst_id s < n"
    and "g t c = Some s \<Longrightarrow> g t' c' = Some s' \<Longrightarrow> kst_id s = kst_id s' \<Longrightarrow> t = t' \<and> c = c'"
    and "distinct (map kw_id ws)" and "w \<in> set ws \<Longrightarrow> kw_id w < n"
    and "w \<in> set ws \<Longrightarrow> \<not> kw_cancelled w \<Longrightarrow>
      \<exists>t c s. g t c = Some s \<and> kst_id s = kw_id w \<and> kst_cancel s \<and> kw_verified w = kst_verified s"
    and "g t c = Some s \<Longrightarrow> kst_cancel s \<Longrightarrow>
      kst_status s \<noteq> SubscriptionStatusStale \<and> kst_server_id s = server \<and> kst_id s \<in> kw_id ` set ws"
    and "g t c = Some s \<Longrightarrow> \<not> kst_cancel s \<Longrightarrow> kst_status s \<noteq> SubscriptionStatusStale \<Longrightarrow>
      kst_id s \<notin> kw_id ` set ws"
  using assms unfolding workers_ok_def by meson+

lemma workers_okI:
  assumes "\<And>t c s. g t c = Some s \<Longrightarrow> kst_topic s = t \<and> kst_callback s = c \<and> kst_id s < n"
    and "\<And>t c s t' c' s'. g t c = Some s \<Longrightarrow> g t' c' = Some s' \<Longrightarrow> kst_id s = kst_id s' \<Longrightarrow> t = t' \<and> c = c'"
    and "distinct (map kw_id ws)" and "\<And>w. w \<in> set ws \<Longrightarrow> kw_id w < n"
    and "\<And>w. w \<in> set ws \<Longrightarrow> \<not> kw_cancelled w \<Longrightarrow>
      \<exists>t c s. g t c = Some s \<and> kst_id s = kw_id w \<and> kst_cancel s \<and> kw_verified w = kst_verified s"
    and "\<And>t c s. g t c = Some s \<Longrightarrow> kst_cancel s \<Longrightarrow>
      kst_status s \<noteq> SubscriptionStatusStale \<and> kst_server_id s = server \<and> kst_id s \<in> kw_id ` set ws"
    and "\<And>t c s. g t c = Some s \<Longrightarrow> \<not> kst_cancel s \<Longrightarrow> kst_status s \<noteq> SubscriptionStatusStale \<Longrightarrow>
      kst_id s \<notin> kw_id ` set ws"
  shows "workers_ok server g n ws"
  unfolding workers_ok_def using assms by meson

definition set_entry ::
    "string \<Rightarrow> string \<Rightarrow> kafka_stored \<Rightarrow> (string \<Rightarrow> string \<Rightarrow> kafka_stored option) \<Rightarrow> string \<Rightarrow> string \<Rightarrow> kafka_stored option" where
  "set_entry t c s g = (\<lambda>t' c'. if t' = t \<and> c' = c then Some s else g t' c')"

lemma set_entry_iff:
  "set_entry t c s g t' c' = Some s' \<longleftrightarrow> t' = t \<and> c' = c \<and> s' = s \<or> (t' \<noteq> t \<or> c' \<noteq> c) \<and> g t' c' = Some s'"
  by (auto simp: set_entry_def)

lemma set_entry_inj:
  assumes "\<And>t' c' s'. g t' c' = Some s' \<Longrightarrow> kst_id s' = kst_id s \<Longrightarrow> t' = t \<and> c' = c"
    and "\<And>t1 c1 s1 t2 c2 s2. g t1 c1 = Some s1 \<Longrightarrow> g t2 c2 = Some s2 \<Longrightarrow> kst_id s1 = kst_id s2 \<Longrightarrow> t1 = t2 \<and> c1 = c2"
    and "set_entry t c s g t1 c1 = Some s1" and "set_entry t c s g t2 c2 = Some s2" and "kst_id s1 = kst_id s2"
  shows "t1 = t2 \<and> c1 = c2"
proof (cases "t1 = t \<and> c1 = c")
  case True
  then have "s1 = s" using assms(3) by (simp add: set_entry_def)
  then show ?thesis
    using True assms(1) [of t2 c2 s2] assms(4,5) by (auto simp: set_entry_def split: if_splits)
next
  case False
  then have g: "g t1 c1 = Some s1" using assms(3) unfolding set_entry_def by metis
  show ?thesis
  proof (cases "t2 = t \<and> c2 = c")
    case True
    then have "s2 = s" using assms(4) by (simp add: set_entry_def)
    then show ?thesis using assms(1) [OF g] assms(5) True by simp
  next
    case other: False
    then have "g t2 c2 = Some s2" using assms(4) unfolding set_entry_def by metis
    then show ?thesis using assms(2) [OF g _ assms(5)] by simp
  qed
qed

text \<open>Entries removed with their workers.\<close>

lemma workers_ok_remove:
  assumes ok: "workers_ok server g n ws" and ids: "map kw_id ws' = map kw_id ws"
    and sub: "\<And>t c s. g' t c = Some s \<Longrightarrow> g t c = Some s"
    and live: "\<And>w. w \<in> set ws' \<Longrightarrow> \<not> kw_cancelled w \<Longrightarrow> w \<in> set ws"
    and keep: "\<And>w t c s. w \<in> set ws' \<Longrightarrow> \<not> kw_cancelled w \<Longrightarrow> g t c = Some s \<Longrightarrow> kst_cancel s \<Longrightarrow>
      kst_id s = kw_id w \<Longrightarrow> g' t c = Some s"
  shows "workers_ok server g' n ws'"
proof -
  note D = workers_okD [OF ok]
  have set: "kw_id ` set ws' = kw_id ` set ws" using ids by (metis set_map)
  show ?thesis
  proof (rule workers_okI)
    show "distinct (map kw_id ws')" using D(3) ids by simp
    show "kw_id w < n" if "w \<in> set ws'" for w
    proof -
      have "kw_id w \<in> kw_id ` set ws" using that set by blast
      then show ?thesis using D(4) by auto
    qed
    show "\<exists>t c s. g' t c = Some s \<and> kst_id s = kw_id w \<and> kst_cancel s \<and> kw_verified w = kst_verified s"
      if w: "w \<in> set ws'" "\<not> kw_cancelled w" for w
      using D(5) [OF live [OF w] w(2)] keep [OF w] by meson
    show "t = t' \<and> c = c'" if "g' t c = Some s" "g' t' c' = Some s'" "kst_id s = kst_id s'" for t c s t' c' s'
      using D(2) [OF sub [OF that(1)] sub [OF that(2)] that(3)] .
    show "kst_status s \<noteq> SubscriptionStatusStale \<and> kst_server_id s = server \<and> kst_id s \<in> kw_id ` set ws'"
      if "g' t c = Some s" "kst_cancel s" for t c s
      using D(6) [OF sub [OF that(1)] that(2)] set by simp
    show "kst_id s \<notin> kw_id ` set ws'" if "g' t c = Some s" "\<not> kst_cancel s" "kst_status s \<noteq> SubscriptionStatusStale" for t c s
      using D(7) [OF sub [OF that(1)] that(2,3)] set by simp
  qed (use D(1) sub in blast)
qed

text \<open>A live worker's entry is not the one at a place whose entry has no worker.\<close>

lemma live_elsewhere:
  assumes "workers_ok server g n ws" and "\<And>old. g t c = Some old \<Longrightarrow> \<not> kst_cancel old"
    and "w \<in> set ws" and "\<not> kw_cancelled w"
  shows "\<exists>t' c' s'. set_entry t c s g t' c' = Some s' \<and> kst_id s' = kw_id w \<and> kst_cancel s'
    \<and> kw_verified w = kst_verified s'"
proof -
  obtain t' c' s' where s': "g t' c' = Some s'" "kst_id s' = kw_id w" "kst_cancel s'" "kw_verified w = kst_verified s'"
    using workers_okD(5) [OF assms(1,3,4)] by blast
  then have "t' \<noteq> t \<or> c' \<noteq> c" using assms(2) by auto
  then show ?thesis using s' by (intro exI [of _ t'] exI [of _ c'] exI [of _ s']) (simp add: set_entry_iff)
qed

text \<open>An entry under a new number.\<close>

lemma workers_ok_put:
  assumes ok: "workers_ok server g n ws" and old: "\<And>old. g t c = Some old \<Longrightarrow> \<not> kst_cancel old"
    and s: "kst_topic s = t" "kst_callback s = c" "kst_id s = n" "\<not> kst_cancel s"
  shows "workers_ok server (set_entry t c s g) (Suc n) ws"
proof -
  note D = workers_okD [OF ok]
  have other: "kst_id s' \<noteq> n" if "g t' c' = Some s'" for t' c' s' using D(1) [OF that] by simp
  have fresh: "n \<notin> kw_id ` set ws" using D(4) by blast
  show ?thesis
  proof (rule workers_okI)
    show "kw_id w < Suc n" if "w \<in> set ws" for w using D(4) [OF that] by simp
    show "kst_topic s' = t' \<and> kst_callback s' = c' \<and> kst_id s' < Suc n" if "set_entry t c s g t' c' = Some s'" for t' c' s'
      using that D(1) [of t' c' s'] s by (auto simp: set_entry_iff)
    show "t1 = t2 \<and> c1 = c2" if "set_entry t c s g t1 c1 = Some s1" "set_entry t c s g t2 c2 = Some s2"
      "kst_id s1 = kst_id s2" for t1 c1 s1 t2 c2 s2
      by (rule set_entry_inj [of g s t c, OF _ D(2) that]) (use s(3) other in blast)
    show "distinct (map kw_id ws)" by (rule D(3))
    show "\<exists>t' c' s'. set_entry t c s g t' c' = Some s' \<and> kst_id s' = kw_id w \<and> kst_cancel s'
        \<and> kw_verified w = kst_verified s'" if "w \<in> set ws" "\<not> kw_cancelled w" for w
      using live_elsewhere [OF ok old that] .
    show "kst_status s' \<noteq> SubscriptionStatusStale \<and> kst_server_id s' = server \<and> kst_id s' \<in> kw_id ` set ws"
      if "set_entry t c s g t' c' = Some s'" "kst_cancel s'" for t' c' s'
      using that s(4) D(6) [of t' c' s'] by (auto simp: set_entry_iff)
    show "kst_id s' \<notin> kw_id ` set ws"
      if "set_entry t c s g t' c' = Some s'" "\<not> kst_cancel s'" "kst_status s' \<noteq> SubscriptionStatusStale" for t' c' s'
      using that s(3) fresh D(7) [of t' c' s'] unfolding set_entry_iff by metis
  qed
qed

lemma cancel_worker_ids: "map kw_id (cancel_worker s ws) = map kw_id ws"
  by (simp add: cancel_worker_def)

lemma cancel_worker_live:
  "w \<in> set (cancel_worker s ws) \<Longrightarrow> \<not> kw_cancelled w \<Longrightarrow> w \<in> set ws \<and> \<not> (kst_cancel s \<and> kw_id w = kst_id s)"
  by (auto simp: cancel_worker_def split: if_splits)

lemma cancel_workers_ids: "map kw_id (fold cancel_worker ss ws) = map kw_id ws"
  by (induction ss arbitrary: ws) (simp_all add: cancel_worker_ids)

lemma cancel_workers_live:
  "w \<in> set (fold cancel_worker ss ws) \<Longrightarrow> \<not> kw_cancelled w \<Longrightarrow>
     w \<in> set ws \<and> (\<forall>s \<in> set ss. \<not> (kst_cancel s \<and> kw_id w = kst_id s))"
proof (induction ss arbitrary: ws)
  case (Cons s ss)
  then show ?case using cancel_worker_live [of w s ws] by auto
qed simp

text \<open>An entry made stale, its worker cancelled.\<close>

lemma workers_ok_cancel:
  assumes ok: "workers_ok server g n ws" and s: "g t c = Some s"
  shows "workers_ok server (\<lambda>t' c'. if t' = t \<and> c' = c then None else g t' c') n (cancel_worker s ws)"
proof (rule workers_ok_remove [OF ok cancel_worker_ids])
  show "(if t' = t \<and> c' = c then None else g t' c') = Some s'"
    if "w \<in> set (cancel_worker s ws)" "\<not> kw_cancelled w" "g t' c' = Some s'" "kst_cancel s'"
      "kst_id s' = kw_id w" for w t' c' s'
    using cancel_worker_live [OF that(1,2)] that(3-5) s by auto
qed (use cancel_worker_live in \<open>auto split: if_splits\<close>)

lemma workers_ok_stale:
  assumes ok: "workers_ok server g n ws" and s: "g t c = Some s"
  shows "workers_ok server (set_entry t c (s\<lparr>kst_status := SubscriptionStatusStale, kst_cancel := False\<rparr>) g) n
    (cancel_worker s ws)"
proof -
  let ?s = "s\<lparr>kst_status := SubscriptionStatusStale, kst_cancel := False\<rparr>"
  have same: "set_entry t c ?s (\<lambda>t' c'. if t' = t \<and> c' = c then None else g t' c') = set_entry t c ?s g"
    by (auto simp: set_entry_def fun_eq_iff)
  note base = workers_ok_cancel [OF ok s]
  note D = workers_okD [OF base]
  have live: "\<exists>t' c' s'. set_entry t c ?s g t' c' = Some s' \<and> kst_id s' = kw_id w \<and> kst_cancel s'
      \<and> kw_verified w = kst_verified s'" if "w \<in> set (cancel_worker s ws)" "\<not> kw_cancelled w" for w
  proof -
    have "set_entry t c ?s (\<lambda>t' c'. if t' = t \<and> c' = c then None else g t' c') = set_entry t c ?s g"
      by (rule same)
    then show ?thesis using live_elsewhere [OF base _ that, of t c ?s] by (simp only: if_True simp_thms option.distinct)
  qed
  have key: "kst_topic s = t \<and> kst_callback s = c \<and> kst_id s < n" using workers_okD(1) [OF ok s] .
  have uniq: "t' = t \<and> c' = c" if "g t' c' = Some s'" "kst_id s' = kst_id ?s" for t' c' s'
    using workers_okD(2) [OF ok that(1) s] that(2) by simp
  have other: "kst_topic s' = t' \<and> kst_callback s' = c' \<and> kst_id s' < n"
      "kst_cancel s' \<Longrightarrow> kst_status s' \<noteq> SubscriptionStatusStale \<and> kst_server_id s' = server
        \<and> kst_id s' \<in> kw_id ` set (cancel_worker s ws)"
      "\<not> kst_cancel s' \<Longrightarrow> kst_status s' \<noteq> SubscriptionStatusStale \<Longrightarrow> kst_id s' \<notin> kw_id ` set (cancel_worker s ws)"
    if "g t' c' = Some s'" "t' \<noteq> t \<or> c' \<noteq> c" for t' c' s'
  proof -
    have g': "(if t' = t \<and> c' = c then None else g t' c') = Some s'" using that by auto
    show "kst_topic s' = t' \<and> kst_callback s' = c' \<and> kst_id s' < n" using D(1) [OF g'] .
    show "kst_cancel s' \<Longrightarrow> kst_status s' \<noteq> SubscriptionStatusStale \<and> kst_server_id s' = server
        \<and> kst_id s' \<in> kw_id ` set (cancel_worker s ws)" using D(6) [OF g'] .
    show "\<not> kst_cancel s' \<Longrightarrow> kst_status s' \<noteq> SubscriptionStatusStale \<Longrightarrow> kst_id s' \<notin> kw_id ` set (cancel_worker s ws)"
      using D(7) [OF g'] .
  qed
  show ?thesis
  proof (rule workers_okI)
    show "kst_topic s' = t' \<and> kst_callback s' = c' \<and> kst_id s' < n" if "set_entry t c ?s g t' c' = Some s'" for t' c' s'
      using that other(1) [of t' c' s'] key by (auto simp: set_entry_iff kst_topic_def kst_callback_def)
    show "t1 = t2 \<and> c1 = c2" if "set_entry t c ?s g t1 c1 = Some s1" "set_entry t c ?s g t2 c2 = Some s2"
      "kst_id s1 = kst_id s2" for t1 c1 s1 t2 c2 s2
      by (rule set_entry_inj [of g ?s t c, OF uniq workers_okD(2) [OF ok] that])
    show "distinct (map kw_id (cancel_worker s ws))" by (rule D(3))
    show "kw_id w < n" if "w \<in> set (cancel_worker s ws)" for w using D(4) [OF that] .
    show "\<exists>t' c' s'. set_entry t c ?s g t' c' = Some s' \<and> kst_id s' = kw_id w \<and> kst_cancel s'
        \<and> kw_verified w = kst_verified s'" if "w \<in> set (cancel_worker s ws)" "\<not> kw_cancelled w" for w
      using live [OF that] .
    show "kst_status s' \<noteq> SubscriptionStatusStale \<and> kst_server_id s' = server
        \<and> kst_id s' \<in> kw_id ` set (cancel_worker s ws)"
      if "set_entry t c ?s g t' c' = Some s'" "kst_cancel s'" for t' c' s'
      using that other(2) [of t' c' s'] by (auto simp: set_entry_iff)
    show "kst_id s' \<notin> kw_id ` set (cancel_worker s ws)"
      if "set_entry t c ?s g t' c' = Some s'" "\<not> kst_cancel s'" "kst_status s' \<noteq> SubscriptionStatusStale" for t' c' s'
      using that other(3) [of t' c' s'] by (auto simp: set_entry_iff)
  qed
qed

text \<open>A worker started.\<close>

lemma workers_ok_start:
  assumes ok: "workers_ok server g n ws" and s: "g t c = Some s" "\<not> kst_cancel s"
    "kst_status s \<noteq> SubscriptionStatusStale" "kst_server_id s = server"
    and w: "kw_id w = kst_id s" "kw_verified w = kst_verified s"
  shows "workers_ok server (set_entry t c (s\<lparr>kst_cancel := True\<rparr>) g) n (ws @ [w])"
proof -
  let ?s = "s\<lparr>kst_cancel := True\<rparr>"
  note D = workers_okD [OF ok]
  have key: "kst_topic s = t \<and> kst_callback s = c \<and> kst_id s < n" using D(1) [OF s(1)] .
  have uniq: "t' = t \<and> c' = c" if "g t' c' = Some s'" "kst_id s' = kst_id ?s" for t' c' s'
    using D(2) [OF that(1) s(1)] that(2) by simp
  have fresh: "kst_id s \<notin> kw_id ` set ws" using D(7) [OF s(1-3)] .
  have live: "\<exists>t' c' s'. set_entry t c ?s g t' c' = Some s' \<and> kst_id s' = kw_id v \<and> kst_cancel s'
      \<and> kw_verified v = kst_verified s'" if "v \<in> set (ws @ [w])" "\<not> kw_cancelled v" for v
  proof (cases "v = w")
    case True
    then show ?thesis using w by (intro exI [of _ t] exI [of _ c] exI [of _ ?s]) (simp add: set_entry_iff)
  next
    case False
    then have "v \<in> set ws" using that(1) by simp
    then show ?thesis using live_elsewhere [OF ok _ _ that(2), of t c ?s] s(1,2) by simp
  qed
  show ?thesis
  proof (rule workers_okI)
    show "kst_topic s' = t' \<and> kst_callback s' = c' \<and> kst_id s' < n" if "set_entry t c ?s g t' c' = Some s'" for t' c' s'
      using that D(1) [of t' c' s'] key by (auto simp: set_entry_iff kst_topic_def kst_callback_def)
    show "t1 = t2 \<and> c1 = c2" if "set_entry t c ?s g t1 c1 = Some s1" "set_entry t c ?s g t2 c2 = Some s2"
      "kst_id s1 = kst_id s2" for t1 c1 s1 t2 c2 s2
      by (rule set_entry_inj [of g ?s t c, OF uniq D(2) that])
    show "kst_id s' \<notin> kw_id ` set (ws @ [w])" if "set_entry t c ?s g t' c' = Some s'" "\<not> kst_cancel s'"
      "kst_status s' \<noteq> SubscriptionStatusStale" for t' c' s'
      using that D(7) [of t' c' s'] uniq [of t' c' s'] w(1) by (fastforce simp: set_entry_iff)
    show "kst_status s' \<noteq> SubscriptionStatusStale \<and> kst_server_id s' = server \<and> kst_id s' \<in> kw_id ` set (ws @ [w])"
      if "set_entry t c ?s g t' c' = Some s'" "kst_cancel s'" for t' c' s'
      using that D(6) [of t' c' s'] s w(1) by (auto simp: set_entry_iff)
    show "kw_id v < n" if "v \<in> set (ws @ [w])" for v
      using that D(4) [of v] key w(1) by auto
    show "distinct (map kw_id (ws @ [w]))" using D(3) fresh w(1) by simp
    show "\<exists>t' c' s'. set_entry t c ?s g t' c' = Some s' \<and> kst_id s' = kw_id v \<and> kst_cancel s'
        \<and> kw_verified v = kst_verified s'" if "v \<in> set (ws @ [w])" "\<not> kw_cancelled v" for v
      using live [OF that] .
  qed
qed

section \<open>The contract\<close>

definition stored_entry :: "kafka_stored \<Rightarrow> kafka_subscription" where
  "stored_entry s = \<lparr>ks_verified = kst_verified s, ks_server_id = kst_server_id s, ks_status = kst_status s\<rparr>"

definition hub_view :: "kafka_hub \<Rightarrow> replica" where
  "hub_view h = \<lparr>rp_topics = map_get (kh_topics h), rp_subs = (\<lambda>t c. map_option stored_entry (kh_get h t c))\<rparr>"

definition hub_ok :: "kafka_hub \<Rightarrow> bool" where
  "hub_ok h \<longleftrightarrow> nested_ok (kh_subscribers h)
     \<and> workers_ok (kh_server_id h) (kh_get h) (kh_next h) (kh_workers h)"

lemma stored_entry_simps [simp]:
  "ks_topic (stored_entry s) = kst_topic s" "ks_callback (stored_entry s) = kst_callback s"
  "is_stale (stored_entry s) \<longleftrightarrow> kst_status s = SubscriptionStatusStale"
  "same_lease (stored_entry s) r \<longleftrightarrow> kst_server_id s = ks_server_id r
     \<and> vs_lease_started (kst_verified s) = vs_lease_started (ks_verified r)"
  "stored_entry (s\<lparr>kst_cancel := b\<rparr>) = stored_entry s"
  "stored_entry (s\<lparr>kst_status := x\<rparr>) = (stored_entry s)\<lparr>ks_status := x\<rparr>"
  "stored_entry (s\<lparr>kst_status := x, kst_cancel := b\<rparr>) = (stored_entry s)\<lparr>ks_status := x\<rparr>"
  by (simp_all add: stored_entry_def ks_topic_def ks_callback_def kst_topic_def kst_callback_def is_stale_def
      same_lease_def)

lemma kst_update_simps [simp]:
  "kst_topic (s\<lparr>kst_cancel := b\<rparr>) = kst_topic s" "kst_callback (s\<lparr>kst_cancel := b\<rparr>) = kst_callback s"
  "kst_topic (s\<lparr>kst_status := x\<rparr>) = kst_topic s" "kst_callback (s\<lparr>kst_status := x\<rparr>) = kst_callback s"
  by (simp_all add: kst_topic_def kst_callback_def)

lemma kh_get_fields [simp]:
  "kh_get (h\<lparr>kh_topics := x\<rparr>) = kh_get h" "kh_get (h\<lparr>kh_workers := ws\<rparr>) = kh_get h"
  "kh_get (h\<lparr>kh_next := n\<rparr>) = kh_get h"
  by (simp_all add: kh_get_def fun_eq_iff)

lemma kh_get_subscribers [simp]: "kh_get (h\<lparr>kh_subscribers := m\<rparr>) = nested_get m"
  by (simp add: kh_get_def fun_eq_iff)

lemma nested_get_hub [simp]:
  "nested_get (nested_put t c s (kh_subscribers h)) = set_entry t c s (kh_get h)"
  "nested_get (nested_del t c (kh_subscribers h)) = (\<lambda>t' c'. if t' = t \<and> c' = c then None else kh_get h t' c')"
  "nested_get (map_del t (kh_subscribers h)) = (\<lambda>t' c'. if t' = t then None else kh_get h t' c')"
  by (simp_all add: kh_get_def set_entry_def fun_eq_iff)

lemma kh_get_inner: "kh_get h t c = Some s \<Longrightarrow> s \<in> set (map snd (inner (kh_subscribers h) t))"
  by (force simp: kh_get_def nested_get_def dest: map_get_in)

lemma hub_view_simps [simp]:
  "rp_topics (hub_view h) = map_get (kh_topics h)"
  "rp_subs (hub_view h) t c = map_option stored_entry (kh_get h t c)"
  by (simp_all add: hub_view_def)

lemma hub_view_eqI:
  assumes "\<And>t. map_get (kh_topics h) t = topic_step t e (rp_topics v t)"
    and "\<And>t c. map_option stored_entry (kh_get h t c) = sub_step t c e (rp_subs v t c)"
  shows "hub_view h = replica_step e v"
  using assms by (simp add: hub_view_def replica_step_def fun_eq_iff)

text \<open>Starting a worker keeps the invariant and the view.\<close>

lemma start_worker_ok:
  assumes "hub_ok h"
  shows "hub_ok (startSubscriptionWorker stored h)"
    and "hub_view (startSubscriptionWorker stored h) = hub_view h"
proof -
  let ?t = "kst_topic stored" and ?c = "kst_callback stored"
  have "hub_ok (startSubscriptionWorker stored h) \<and> hub_view (startSubscriptionWorker stored h) = hub_view h"
  proof (cases "startSubscriptionWorker stored h = h")
    case False
    then obtain s where s: "kh_get h ?t ?c = Some s" "\<not> kst_cancel s" "kst_status s \<noteq> SubscriptionStatusStale"
        "kst_server_id s = kh_server_id h"
      and start: "startSubscriptionWorker stored h = h\<lparr>kh_subscribers := nested_put ?t ?c (s\<lparr>kst_cancel := True\<rparr>)
          (kh_subscribers h), kh_workers := kh_workers h @ [\<lparr>kw_id = kst_id s, kw_verified = kst_verified s,
            kw_server_id = kst_server_id s, kw_group = kst_group s, kw_cancelled = False\<rparr>]\<rparr>"
      by (auto simp: startSubscriptionWorker_def split: option.splits if_splits)
    have "nested_ok (nested_put ?t ?c (s\<lparr>kst_cancel := True\<rparr>) (kh_subscribers h))"
      using assms by (simp add: hub_ok_def nmap.ok_store)
    moreover have "workers_ok (kh_server_id h) (set_entry ?t ?c (s\<lparr>kst_cancel := True\<rparr>) (kh_get h)) (kh_next h)
        (kh_workers h @ [\<lparr>kw_id = kst_id s, kw_verified = kst_verified s,
            kw_server_id = kst_server_id s, kw_group = kst_group s, kw_cancelled = False\<rparr>])"
      using assms s by (intro workers_ok_start) (simp_all add: hub_ok_def)
    moreover have "map_option stored_entry (set_entry ?t ?c (s\<lparr>kst_cancel := True\<rparr>) (kh_get h) t c) =
        map_option stored_entry (kh_get h t c)" for t c
      using s(1) by (simp add: set_entry_def)
    ultimately show ?thesis by (simp add: start hub_ok_def hub_view_def)
  qed (simp add: assms)
  then show "hub_ok (startSubscriptionWorker stored h)" "hub_view (startSubscriptionWorker stored h) = hub_view h"
    by simp_all
qed

lemma hub_register_contract:
  assumes "hub_ok h" and "ApplyTopicRegistration hub_methods m h = (h', err)"
  shows "if register_valid m then err = None \<and> hub_ok h' \<and> hub_view h' = replica_step (EventRegister m) (hub_view h)
    else err \<noteq> None \<and> h' = h"
proof (cases "register_valid m")
  case True
  then have "err = None" "h' = h\<lparr>kh_topics := map_put (reg_topic m) m (kh_topics h)\<rparr>"
    using assms(2) by (simp_all add: hub_methods_def hub_register_def register_valid_def)
  then show ?thesis
    using True assms(1) by (auto simp: hub_ok_def gmap.get_put intro!: hub_view_eqI)
next
  case False
  then show ?thesis
    using assms(2) by (auto simp: hub_methods_def hub_register_def register_valid_def)
qed

lemma hub_deregister_contract:
  assumes "hub_ok h" and "ApplyTopicDeregistration hub_methods m h = (h', err)"
  shows "if deregister_valid m then err = None \<and> hub_ok h' \<and> hub_view h' = replica_step (EventDeregister m) (hub_view h)
    else err \<noteq> None \<and> h' = h"
proof (cases "deregister_valid m")
  case True
  let ?t = "dereg_topic m"
  let ?ws = "fold cancel_worker (map snd (inner (kh_subscribers h) ?t)) (kh_workers h)"
  have h': "err = None" "h' = h\<lparr>kh_topics := map_del ?t (kh_topics h),
      kh_subscribers := map_del ?t (kh_subscribers h), kh_workers := ?ws\<rparr>"
    using True assms(2) by (simp_all add: hub_methods_def hub_deregister_def deregister_valid_def Let_def)
  have ok: "workers_ok (kh_server_id h) (kh_get h) (kh_next h) (kh_workers h)"
    using assms(1) by (simp add: hub_ok_def)
  have "workers_ok (kh_server_id h) (\<lambda>t' c'. if t' = ?t then None else kh_get h t' c') (kh_next h) ?ws"
  proof (rule workers_ok_remove [OF ok cancel_workers_ids])
    show "(if t = ?t then None else kh_get h t c) = Some s"
      if "w \<in> set ?ws" "\<not> kw_cancelled w" "kh_get h t c = Some s" "kst_cancel s" "kst_id s = kw_id w" for w t c s
      using cancel_workers_live [OF that(1,2)] kh_get_inner [OF that(3)] that(3-5) by auto
  qed (use cancel_workers_live in \<open>auto split: if_splits\<close>)
  moreover have "nested_ok (map_del ?t (kh_subscribers h))"
    using assms(1) by (simp add: hub_ok_def nmap.ok_remove_all)
  ultimately show ?thesis
    using True by (auto simp: h' hub_ok_def gmap.get_del intro!: hub_view_eqI)
next
  case False
  then show ?thesis
    using assms(2) by (auto simp: hub_methods_def hub_deregister_def deregister_valid_def)
qed

text \<open>A subscription stored under a new number, and its worker.\<close>

lemma put_stored_ok:
  assumes "hub_ok h" and "\<And>old. kh_get h t c = Some old \<Longrightarrow> \<not> kst_cancel old"
    and "kst_topic s = t" "kst_callback s = c" "kst_id s = kh_next h" "\<not> kst_cancel s"
  shows "hub_ok (h\<lparr>kh_subscribers := nested_put t c s (kh_subscribers h), kh_next := Suc (kh_next h)\<rparr>)"
  using assms workers_ok_put [of "kh_server_id h" "kh_get h" "kh_next h" "kh_workers h" t c s]
  by (simp add: hub_ok_def nmap.ok_store)

lemma stale_no_worker:
  "hub_ok h \<Longrightarrow> kh_get h t c = Some s \<Longrightarrow> kst_status s = SubscriptionStatusStale \<Longrightarrow> \<not> kst_cancel s"
  using workers_okD(6) unfolding hub_ok_def by blast

lemma hub_get_key: "hub_ok h \<Longrightarrow> kh_get h t c = Some s \<Longrightarrow> kst_topic s = t \<and> kst_callback s = c"
  using workers_okD(1) unfolding hub_ok_def by blast

lemma hub_subscribe_contract:
  assumes ok: "hub_ok h" and run: "ApplySubscription hub_methods u h = (h', err)"
  shows "if subscribe_valid u then err = None \<and> hub_ok h' \<and> hub_view h' = replica_step (EventSubscribe u) (hub_view h)
    else err \<noteq> None \<and> h' = h"
proof (cases "subscribe_valid u")
  case False
  then show ?thesis
    using run by (auto simp: hub_methods_def hub_subscribe_def subscribe_valid_def split: prod.splits)
next
  case valid: True
  let ?t = "ks_topic u" and ?c = "ks_callback u"
  let ?new = "\<lambda>v server. \<lparr>kst_verified = v, kst_server_id = server, kst_status = [],
      kst_group = subscriptionGroupName v, kst_cancel = False, kst_id = kh_next h\<rparr>"
  let ?put = "\<lambda>s. h\<lparr>kh_subscribers := nested_put ?t ?c s (kh_subscribers h), kh_next := Suc (kh_next h)\<rparr>"
  let ?start = "\<lambda>s. if kh_replaying h then ?put s else startSubscriptionWorker s (?put s)"
  have err: "err = None" and h': "h' = (case kh_get h ?t ?c of
      None \<Rightarrow> ?start (?new (ks_verified u) (ks_server_id u))
    | Some old \<Rightarrow> if kst_status old = SubscriptionStatusStale
        then ?start (?new (kst_verified old) (kst_server_id old)) else h)"
    using run valid
    by (auto simp: hub_methods_def hub_subscribe_def subscribe_valid_def Let_def split: prod.splits option.splits if_splits)
  have started: "hub_ok (?start s) \<and> hub_view (?start s) = hub_view (?put s)"
    if "hub_ok (?put s)" for s
    using start_worker_ok [OF that, of s] that by simp
  show ?thesis
  proof (cases "kh_get h ?t ?c")
    case None
    let ?s = "?new (ks_verified u) (ks_server_id u)"
    have put: "hub_ok (?put ?s)"
      using ok None by (intro put_stored_ok) (simp_all add: kst_topic_def kst_callback_def ks_topic_def ks_callback_def)
    have "stored_entry ?s = u"
      using valid by (simp add: stored_entry_def subscribe_valid_def)
    then have "hub_view (?put ?s) = replica_step (EventSubscribe u) (hub_view h)"
      using None by (auto simp: set_entry_def intro!: hub_view_eqI)
    then show ?thesis using valid err h' None started [OF put] by simp
  next
    case (Some old)
    note key = hub_get_key [OF ok Some]
    show ?thesis
    proof (cases "kst_status old = SubscriptionStatusStale")
      case True
      let ?s = "?new (kst_verified old) (kst_server_id old)"
      have put: "hub_ok (?put ?s)"
        using ok Some key stale_no_worker [OF ok Some True]
        by (intro put_stored_ok) (simp_all add: kst_topic_def kst_callback_def)
      have "stored_entry ?s = (stored_entry old)\<lparr>ks_status := []\<rparr>" by (simp add: stored_entry_def)
      then have "hub_view (?put ?s) = replica_step (EventSubscribe u) (hub_view h)"
        using Some True by (auto simp: set_entry_def intro!: hub_view_eqI)
      then show ?thesis using valid err h' Some True started [OF put] by simp
    next
      case False
      then have "hub_view h = replica_step (EventSubscribe u) (hub_view h)"
        using Some by (auto intro!: hub_view_eqI)
      then show ?thesis using valid err h' Some False ok by simp
    qed
  qed
qed

lemma hub_stale_contract:
  assumes ok: "hub_ok h" and run: "ApplyStaleSubscription hub_methods u h = (h', err)"
  shows "if stale_valid u then err = None \<and> hub_ok h' \<and> hub_view h' = replica_step (EventStale u) (hub_view h)
    else err \<noteq> None \<and> h' = h"
proof (cases "stale_valid u")
  case False
  then show ?thesis
    using run by (auto simp: hub_methods_def hub_stale_def stale_valid_def)
next
  case valid: True
  let ?t = "ks_topic u" and ?c = "ks_callback u"
  have err: "err = None" and h': "h' = (case kh_get h ?t ?c of None \<Rightarrow> h
      | Some s \<Rightarrow> if same_lease (stored_entry s) u
          then h\<lparr>kh_subscribers := nested_put ?t ?c (s\<lparr>kst_status := SubscriptionStatusStale, kst_cancel := False\<rparr>)
                   (kh_subscribers h), kh_workers := cancel_worker s (kh_workers h)\<rparr>
          else h)"
    using run valid
    by (auto simp: hub_methods_def hub_stale_def stale_valid_def split: option.splits if_splits)
  show ?thesis
  proof (cases "\<exists>s. kh_get h ?t ?c = Some s \<and> same_lease (stored_entry s) u")
    case True
    then obtain s where s: "kh_get h ?t ?c = Some s" "same_lease (stored_entry s) u" by blast
    have "workers_ok (kh_server_id h) (set_entry ?t ?c (s\<lparr>kst_status := SubscriptionStatusStale, kst_cancel := False\<rparr>)
        (kh_get h)) (kh_next h) (cancel_worker s (kh_workers h))"
      using ok s(1) by (intro workers_ok_stale) (simp_all add: hub_ok_def)
    then have "hub_ok h'" using ok s h' by (simp add: hub_ok_def nmap.ok_store)
    moreover have "hub_view h' = replica_step (EventStale u) (hub_view h)"
      using s h' by (auto simp: set_entry_def intro!: hub_view_eqI)
    ultimately show ?thesis using valid err by simp
  next
    case False
    then have "h' = h" using h' by (auto split: option.splits)
    moreover have "hub_view h = replica_step (EventStale u) (hub_view h)"
      using False by (auto split: option.splits intro!: hub_view_eqI)
    ultimately show ?thesis using valid err ok by simp
  qed
qed

lemma hub_unsubscribe_contract:
  assumes ok: "hub_ok h" and run: "ApplyUnsubscription hub_methods q h = (h', err)"
  shows "if unsubscribe_valid q then err = None \<and> hub_ok h' \<and> hub_view h' = replica_step (EventUnsubscribe q) (hub_view h)
    else err \<noteq> None \<and> h' = h"
proof (cases "unsubscribe_valid q")
  case False
  then show ?thesis
    using run by (auto simp: hub_methods_def hub_unsubscribe_def unsubscribe_valid_def Let_def)
next
  case True
  let ?t = "unsub_topic (vu_unsubscription q)" and ?c = "unsub_callback (vu_unsubscription q)"
  let ?ws = "case kh_get h ?t ?c of None \<Rightarrow> kh_workers h | Some s \<Rightarrow> cancel_worker s (kh_workers h)"
  have h': "err = None" "h' = h\<lparr>kh_subscribers := nested_del ?t ?c (kh_subscribers h), kh_workers := ?ws\<rparr>"
    using True run by (simp_all add: hub_methods_def hub_unsubscribe_def unsubscribe_valid_def Let_def)
  have w: "workers_ok (kh_server_id h) (kh_get h) (kh_next h) (kh_workers h)"
    using ok by (simp add: hub_ok_def)
  have "workers_ok (kh_server_id h) (\<lambda>t c. if t = ?t \<and> c = ?c then None else kh_get h t c) (kh_next h) ?ws"
  proof (cases "kh_get h ?t ?c")
    case None
    then have "(\<lambda>t c. if t = ?t \<and> c = ?c then None else kh_get h t c) = kh_get h" by (auto simp: fun_eq_iff)
    then show ?thesis using w None by simp
  next
    case (Some s)
    then show ?thesis using workers_ok_cancel [OF w Some] by simp
  qed
  then show ?thesis
    using True ok by (auto simp: h' hub_ok_def nmap.ok_remove intro!: hub_view_eqI)
qed

interpretation hub: event_consumer hub_methods hub_view hub_ok "\<lambda>_. True"
  by unfold_locales
    (rule hub_register_contract hub_deregister_contract hub_subscribe_contract hub_stale_contract
      hub_unsubscribe_contract; assumption)+

end
