(* ===== verification/KafkaEvents.thy ===== *)
theory KafkaEvents
  imports StateCodec
begin

text \<open>
  The event loops of the two brokers (\<open>consolidator/broker.go\<close> and \<open>websubhub/broker.go\<close>):
  the position in the event log, the filter of \<open>consumeEvents\<close>, \<open>ReplayEvents\<close> up to a
  captured end, the end offset read from a list-offsets answer, \<open>recordHeader\<close> and the choice
  of the latest snapshot. The Kafka client is outside: what its polls return is an argument, a
  list of polls; a loop that has used up the polls it was given is still \<open>Polling\<close>.

  Lemmas: whatever the polls and repeated deliveries, the events of the log are applied once
  each, in order, without a hole (\<open>consume_polls_log\<close>); a replay that returns applied exactly
  the events before the captured end; and a replay whose retained log has no record just before
  the captured end does not return (\<open>replay_stalls\<close>).
\<close>

record kafka_record =
  kr_topic :: string
  kr_partition :: int
  kr_offset :: int
  kr_value :: bytes
  kr_headers :: "(string \<times> bytes) list"

text \<open>One \<open>PollFetches\<close>: the error of the context, the errors of the fetches, the records.\<close>

record poll =
  po_context :: "error option"
  po_errors :: "error list"
  po_records :: "kafka_record list"

definition fetchError :: "poll \<Rightarrow> error option" where
  "fetchError p =
     (case po_context p of
        Some e \<Rightarrow> Some e
      | None \<Rightarrow> (case po_errors p of [] \<Rightarrow> None | e # _ \<Rightarrow> Some e))"

type_synonym 's event_handler = "int \<Rightarrow> bytes \<Rightarrow> 's \<Rightarrow> 's \<times> error option"

definition consume_record ::
    "string \<Rightarrow> int \<Rightarrow> 's event_handler \<Rightarrow> kafka_record \<Rightarrow> int \<times> 's \<times> error option \<Rightarrow> int \<times> 's \<times> error option" where
  "consume_record eventsTopic replayEnd handler r st =
     (case st of (eventsOffset, s, consumeErr) \<Rightarrow>
        if consumeErr \<noteq> None \<or> kr_topic r \<noteq> eventsTopic \<or> kr_partition r \<noteq> 0
          \<or> kr_offset r < eventsOffset \<or> (replayEnd \<ge> 0 \<and> kr_offset r \<ge> replayEnd)
        then (eventsOffset, s, consumeErr)
        else (case handler (kr_offset r) (kr_value r) s of
            (s', Some err) \<Rightarrow> (eventsOffset, s', Some err)
          | (s', None) \<Rightarrow> (wrap64 (kr_offset r + 1), s', None)))"

definition consume_batch ::
    "string \<Rightarrow> int \<Rightarrow> 's event_handler \<Rightarrow> kafka_record list \<Rightarrow> int \<Rightarrow> 's \<Rightarrow> int \<times> 's \<times> error option" where
  "consume_batch eventsTopic replayEnd handler rs eventsOffset s =
     fold (consume_record eventsTopic replayEnd handler) rs (eventsOffset, s, None)"

datatype consumed = Polling | ConsumeReturned "error option"

fun consumeEvents ::
    "string \<Rightarrow> 's event_handler \<Rightarrow> int \<Rightarrow> poll list \<Rightarrow> int \<Rightarrow> 's \<Rightarrow> int \<times> 's \<times> consumed" where
  "consumeEvents eventsTopic handler replayEnd [] eventsOffset s = (eventsOffset, s, Polling)"
| "consumeEvents eventsTopic handler replayEnd (p # ps) eventsOffset s =
     (case fetchError p of
        Some err \<Rightarrow> (eventsOffset, s, ConsumeReturned (Some err))
      | None \<Rightarrow>
          (case consume_batch eventsTopic replayEnd handler (po_records p) eventsOffset s of
             (offset', s', Some err) \<Rightarrow> (offset', s', ConsumeReturned (Some err))
           | (offset', s', None) \<Rightarrow>
               if replayEnd \<ge> 0 \<and> offset' \<ge> replayEnd then (offset', s', ConsumeReturned None)
               else consumeEvents eventsTopic handler replayEnd ps offset' s'))"

section \<open>The end of the log\<close>

record offsets_partition =
  op_partition :: int
  op_error_code :: int
  op_offset :: int

text \<open>\<open>kerr.ErrorForCode\<close> is a parameter.\<close>

fun scan_partitions :: "(int \<Rightarrow> error option) \<Rightarrow> offsets_partition list \<Rightarrow> (error + int) option" where
  "scan_partitions errorForCode [] = None"
| "scan_partitions errorForCode (p # ps) =
     (if op_partition p \<noteq> 0 then scan_partitions errorForCode ps
      else case errorForCode (op_error_code p) of
             Some err \<Rightarrow> Some (Inl err)
           | None \<Rightarrow>
               if op_offset p < 0 then Some (Inl (AppError ''invalid Kafka log-end offset''))
               else Some (Inr (op_offset p)))"

text \<open>The loop over the topics of the answer, with the error for a missing partition; then the two
  functions, on the answer to the request or its error.\<close>

fun scan_topics ::
    "error \<Rightarrow> (int \<Rightarrow> error option) \<Rightarrow> string \<Rightarrow> (string \<times> offsets_partition list) list \<Rightarrow> error + int" where
  "scan_topics missing errorForCode topicName [] = Inl missing"
| "scan_topics missing errorForCode topicName ((name, ps) # topics) =
     (if name \<noteq> topicName then scan_topics missing errorForCode topicName topics
      else case scan_partitions errorForCode ps of
             None \<Rightarrow> scan_topics missing errorForCode topicName topics
           | Some r \<Rightarrow> r)"

type_synonym offsets_answer = "error + (string \<times> offsets_partition list) list"

definition logEndOffset :: "(int \<Rightarrow> error option) \<Rightarrow> offsets_answer \<Rightarrow> string \<Rightarrow> error + int" where
  "logEndOffset errorForCode answer topicName =
     (case answer of
        Inl err \<Rightarrow> Inl err
      | Inr topics \<Rightarrow>
          scan_topics (AppError ''Kafka partition missing from list-offsets response'') errorForCode topicName topics)"

definition eventLogEnd :: "(int \<Rightarrow> error option) \<Rightarrow> offsets_answer \<Rightarrow> string \<Rightarrow> error + int" where
  "eventLogEnd errorForCode answer eventsTopic =
     (case answer of
        Inl err \<Rightarrow> Inl err
      | Inr topics \<Rightarrow>
          scan_topics (AppError ''Kafka event partition missing from list-offsets response'') errorForCode eventsTopic topics)"

lemma scan_partitions_nonneg: "scan_partitions errorForCode ps = Some (Inr k) \<Longrightarrow> 0 \<le> k"
  by (induction ps) (auto split: if_splits option.splits)

lemma scan_topics_nonneg: "scan_topics missing errorForCode topic topics = Inr k \<Longrightarrow> 0 \<le> k"
  by (induction topics) (auto split: if_splits option.splits dest: scan_partitions_nonneg)

text \<open>So the end of a replay is never negative, which \<open>consumeEvents\<close> takes for no end.\<close>

lemma log_end_nonneg:
  "logEndOffset errorForCode answer topic = Inr k \<Longrightarrow> 0 \<le> k" "eventLogEnd errorForCode answer topic = Inr k \<Longrightarrow> 0 \<le> k"
  by (auto simp: logEndOffset_def eventLogEnd_def split: sum.splits dest: scan_topics_nonneg)

definition ReplayEvents ::
    "string \<Rightarrow> 's event_handler \<Rightarrow> error + int \<Rightarrow> poll list \<Rightarrow> int \<Rightarrow> 's \<Rightarrow> int \<times> 's \<times> consumed" where
  "ReplayEvents eventsTopic handler logEnd ps eventsOffset s =
     (case logEnd of
        Inl err \<Rightarrow> (eventsOffset, s,
          ConsumeReturned (Some (Prefixed ''resolve Kafka event replay boundary'' err)))
      | Inr replayEnd \<Rightarrow>
          if eventsOffset \<ge> replayEnd then (eventsOffset, s, ConsumeReturned None)
          else consumeEvents eventsTopic handler replayEnd ps eventsOffset s)"

definition ConsumeEvents ::
    "string \<Rightarrow> 's event_handler \<Rightarrow> poll list \<Rightarrow> int \<Rightarrow> 's \<Rightarrow> int \<times> 's \<times> consumed" where
  "ConsumeEvents eventsTopic handler ps eventsOffset s = consumeEvents eventsTopic handler (- 1) ps eventsOffset s"

fun recordHeader :: "(string \<times> bytes) list \<Rightarrow> string \<Rightarrow> string" where
  "recordHeader [] name = []"
| "recordHeader ((key, v) # hs) name = (if key = name then v else recordHeader hs name)"

section \<open>Snapshots in Kafka\<close>

definition retainLatestSnapshot ::
    "event_codec \<Rightarrow> snapshot \<Rightarrow> bool \<Rightarrow> bytes \<Rightarrow> (snapshot \<times> bool) \<times> error option" where
  "retainLatestSnapshot codec latest found payload =
     (case json_snapshot codec payload of
        Inl err \<Rightarrow> ((latest, found), Some err)
      | Inr candidate \<Rightarrow>
          if \<not> found \<or> sn_revision candidate > sn_revision latest then ((candidate, True), None)
          else ((latest, found), None))"

definition load_record ::
    "event_codec \<Rightarrow> string \<Rightarrow> kafka_record \<Rightarrow> (snapshot \<times> bool) \<times> error option \<Rightarrow> (snapshot \<times> bool) \<times> error option" where
  "load_record codec snapshotsTopic r st =
     (case st of ((latest, found), decodeErr) \<Rightarrow>
        if decodeErr \<noteq> None \<or> kr_topic r \<noteq> snapshotsTopic then st
        else (case retainLatestSnapshot codec latest found (kr_value r) of
            (_, Some err) \<Rightarrow> ((latest, found), Some (Prefixed ''decode Kafka snapshot'' err))
          | (kept, None) \<Rightarrow> (kept, None)))"

definition empty_snapshot :: snapshot where
  "empty_snapshot = \<lparr>sn_revision = 0, sn_topics = [], sn_subscriptions = []\<rparr>"

text \<open>\<open>None\<close> while the loop still polls.\<close>

fun load_polls ::
    "event_codec \<Rightarrow> string \<Rightarrow> poll list \<Rightarrow> snapshot \<Rightarrow> bool \<Rightarrow> (error + snapshot) option" where
  "load_polls codec snapshotsTopic [] latest found = None"
| "load_polls codec snapshotsTopic (p # ps) latest found =
     (case fetchError p of
        Some err \<Rightarrow> Some (Inl (Prefixed ''read Kafka snapshots'' err))
      | None \<Rightarrow>
          if po_records p = [] then Some (Inr latest)
          else (case fold (load_record codec snapshotsTopic) (po_records p) ((latest, found), None) of
              (_, Some err) \<Rightarrow> Some (Inl err)
            | ((latest', found'), None) \<Rightarrow> load_polls codec snapshotsTopic ps latest' found'))"

definition LoadSnapshot :: "event_codec \<Rightarrow> string \<Rightarrow> poll list \<Rightarrow> (error + snapshot) option" where
  "LoadSnapshot codec snapshotsTopic ps = load_polls codec snapshotsTopic ps empty_snapshot False"

lemmas kafka_events_eval [go_eval] = logEndOffset_def eventLogEnd_def fetchError_def consume_record_def consume_batch_def ReplayEvents_def
  ConsumeEvents_def retainLatestSnapshot_def load_record_def empty_snapshot_def LoadSnapshot_def

section \<open>The log is applied once, in order\<close>

text \<open>A run of consecutive values, from an offset on, up to the first error.\<close>

fun apply_from :: "'s event_handler \<Rightarrow> int \<Rightarrow> bytes list \<Rightarrow> 's \<Rightarrow> 's \<times> error option" where
  "apply_from handler offset [] s = (s, None)"
| "apply_from handler offset (v # vs) s =
     (case handler offset v s of
        (s', None) \<Rightarrow> apply_from handler (offset + 1) vs s'
      | (s', Some err) \<Rightarrow> (s', Some err))"

lemma apply_from_snoc:
  "apply_from handler offset (vs @ [v]) s =
     (case apply_from handler offset vs s of
        (s', None) \<Rightarrow> handler (offset + int (length vs)) v s'
      | (s', Some err) \<Rightarrow> (s', Some err))"
  by (induction vs arbitrary: offset s) (auto simp: algebra_simps split: prod.splits option.splits)

definition event_record :: "string \<Rightarrow> kafka_record \<Rightarrow> bool" where
  "event_record topic r \<longleftrightarrow> kr_topic r = topic \<and> kr_partition r = 0"

text \<open>What Kafka promises of the records it delivers: each is the value the retained log
  (\<open>vs\<close>, from offset \<open>base\<close> on) has at its offset; and delivery goes back but never skips:
  a record is at most the next one after the highest delivered so far.\<close>

definition of_log :: "string \<Rightarrow> int \<Rightarrow> bytes list \<Rightarrow> kafka_record \<Rightarrow> bool" where
  "of_log topic base vs r \<longleftrightarrow> (event_record topic r \<longrightarrow>
     base \<le> kr_offset r \<and> kr_offset r < base + int (length vs) \<and> kr_value r = vs ! nat (kr_offset r - base))"

definition advance :: "string \<Rightarrow> kafka_record \<Rightarrow> int \<Rightarrow> int" where
  "advance topic r hi = (if event_record topic r then max hi (kr_offset r + 1) else hi)"

fun gapless :: "string \<Rightarrow> int \<Rightarrow> kafka_record list \<Rightarrow> bool" where
  "gapless topic hi [] \<longleftrightarrow> True"
| "gapless topic hi (r # rs) \<longleftrightarrow>
     (event_record topic r \<longrightarrow> kr_offset r \<le> hi) \<and> gapless topic (advance topic r hi) rs"

lemma gapless_append: "gapless topic n (rs @ rs') \<longleftrightarrow> gapless topic n rs \<and> gapless topic (fold (advance topic) rs n) rs'"
  by (induction rs arbitrary: n) auto

text \<open>The position after the first \<open>n\<close> records of the log from \<open>start\<close>, cut at the end of the
  replay.\<close>

definition until :: "int \<Rightarrow> int \<Rightarrow> int" where
  "until replayEnd hi = (if replayEnd \<ge> 0 then min hi replayEnd else hi)"

text \<open>The loop follows the log: some first part of it has been applied, from \<open>start\<close> on, and
  without an error that part ends where the deliveries (or the replay) end. \<open>pos0\<close> is the
  position at the start, \<open>hi\<close> one more than the highest offset delivered.\<close>

definition follows ::
    "'s event_handler \<Rightarrow> int \<Rightarrow> bytes list \<Rightarrow> int \<Rightarrow> 's \<Rightarrow> int \<Rightarrow> int \<Rightarrow> int \<times> 's \<times> error option \<Rightarrow> bool" where
  "follows handler start vs pos0 s0 replayEnd hi st \<longleftrightarrow>
     (case st of (pos, s, err) \<Rightarrow>
        start \<le> hi \<and>
        (\<exists>k \<le> length vs. apply_from handler start (take k vs) s0 = (s, err)
          \<and> (err = None \<longrightarrow> start + int k = until replayEnd hi
               \<and> pos = (if k = 0 then pos0 else start + int k))))"

lemma follows_error:
  "follows handler start vs pos0 s0 E hi (pos, s, Some e) \<Longrightarrow> hi \<le> hi' \<Longrightarrow>
     follows handler start vs pos0 s0 E hi' (pos', s, Some e)"
  by (auto simp: follows_def)

lemma follows_skip:
  "follows handler start vs pos0 s0 E hi st \<Longrightarrow> hi \<le> hi' \<Longrightarrow> until E hi' = until E hi \<Longrightarrow>
     follows handler start vs pos0 s0 E hi' st"
  by (auto simp: follows_def split: prod.splits)

lemma wrap64_next: "0 \<le> i \<Longrightarrow> i < 2 ^ 63 \<Longrightarrow> wrap64 i = i"
  by (simp add: wrap64_id in_int64_def)

lemma consume_record_follows:
  assumes inv: "follows handler start (drop (nat (start - base)) vs) pos0 s0 E hi (pos, s, err)"
    and start: "start = max pos0 base" "0 \<le> pos0" "base + int (length vs) < 2 ^ 63"
    and log: "of_log topic base vs r" and gap: "event_record topic r \<longrightarrow> kr_offset r \<le> hi"
  shows "follows handler start (drop (nat (start - base)) vs) pos0 s0 E (advance topic r hi)
    (consume_record topic E handler r (pos, s, err))"
proof (cases "err = None \<and> event_record topic r \<and> pos \<le> kr_offset r \<and> (E < 0 \<or> kr_offset r < E)")
  case False
  then have same: "consume_record topic E handler r (pos, s, err) = (pos, s, err)"
    by (auto simp: consume_record_def event_record_def)
  have le: "hi \<le> advance topic r hi" by (simp add: advance_def)
  show ?thesis
  proof (cases err)
    case (Some e)
    then show ?thesis using inv same le follows_error by metis
  next
    case None
    obtain k where k: "start \<le> hi" "start + int k = until E hi" "pos = (if k = 0 then pos0 else start + int k)"
      using inv None by (auto simp: follows_def)
    have "pos \<le> hi" using k start(1) by (auto simp: until_def split: if_splits)
    moreover have "kr_offset r < pos \<or> 0 \<le> E \<and> E \<le> kr_offset r" if "event_record topic r"
      using False None that by auto
    ultimately have "until E (advance topic r hi) = until E hi"
      using gap by (cases "event_record topic r") (auto simp: advance_def until_def)
    then show ?thesis using inv same le follows_skip by metis
  qed
next
  case True
  let ?lvs = "drop (nat (start - base)) vs"
  obtain k where k: "k \<le> length ?lvs" "apply_from handler start (take k ?lvs) s0 = (s, None)"
      "start + int k = until E hi" "pos = (if k = 0 then pos0 else start + int k)"
    using inv True by (auto simp: follows_def)
  have bounds: "base \<le> kr_offset r" "kr_offset r < base + int (length vs)"
      and v: "kr_value r = vs ! nat (kr_offset r - base)"
    using log True by (auto simp: of_log_def)
  have off: "kr_offset r = start + int k" and nxt: "kr_offset r = hi"
    using True k(3,4) bounds start(1) gap by (auto simp: until_def split: if_splits)
  define i where "i = nat (start - base)"
  then have i: "start = base + int i" using start(1) by simp
  have lt: "k < length ?lvs" using bounds off unfolding i_def [symmetric] by (simp add: i) 
  have "nat (kr_offset r - base) = i + k" by (simp add: off i)
  then have "kr_value r = ?lvs ! k"
    using v lt unfolding i_def [symmetric] by simp
  then have take: "take (Suc k) ?lvs = take k ?lvs @ [kr_value r]"
    using lt by (simp add: take_Suc_conv_app_nth)
  have run: "apply_from handler start (take (Suc k) ?lvs) s0 = handler (kr_offset r) (kr_value r) s"
    using k(2) lt off by (simp add: take apply_from_snoc)
  have "wrap64 (kr_offset r + 1) = kr_offset r + 1"
    using bounds start off by (intro wrap64_next) auto
  then show ?thesis
    using run True lt off nxt k(3) inv
    by (auto simp: follows_def consume_record_def event_record_def advance_def until_def
        intro!: exI [of _ "Suc k"] split: prod.splits option.splits if_splits)
qed

lemma consume_batch_follows:
  assumes "follows handler start (drop (nat (start - base)) vs) pos0 s0 E hi st"
    and "start = max pos0 base" "0 \<le> pos0" "base + int (length vs) < 2 ^ 63"
    and "list_all (of_log topic base vs) rs" and "gapless topic hi rs"
  shows "follows handler start (drop (nat (start - base)) vs) pos0 s0 E (fold (advance topic) rs hi)
    (fold (consume_record topic E handler) rs st)"
  using assms(1,5,6)
proof (induction rs arbitrary: hi st)
  case (Cons r rs)
  obtain pos s err where st: "st = (pos, s, err)" by (cases st)
  show ?case
    using Cons.prems consume_record_follows [OF _ assms(2-4), of handler s0 E hi pos s err topic r]
    by (simp add: st Cons.IH)
qed simp

definition delivered :: "poll list \<Rightarrow> kafka_record list" where
  "delivered ps = concat (map po_records ps)"

lemma delivered_simps [simp]: "delivered [] = []" "delivered (p # ps) = po_records p @ delivered ps"
  by (simp_all add: delivered_def)

lemma consumeEvents_follows:
  assumes "follows handler start (drop (nat (start - base)) vs) pos0 s0 E hi (pos, s, None)"
    and "start = max pos0 base" "0 \<le> pos0" "base + int (length vs) < 2 ^ 63"
    and "list_all (of_log topic base vs) (delivered ps)" and "gapless topic hi (delivered ps)"
    and "consumeEvents topic handler E ps pos s = (pos', s', res)"
  shows "\<exists>hi' err. follows handler start (drop (nat (start - base)) vs) pos0 s0 E hi' (pos', s', err)
    \<and> (res = ConsumeReturned None \<longrightarrow> err = None \<and> 0 \<le> E \<and> E \<le> pos')"
  using assms(1,5-7)
proof (induction ps arbitrary: hi pos s)
  case Nil
  then show ?case by auto
next
  case (Cons p ps)
  show ?case
  proof (cases "fetchError p")
    case (Some e)
    then show ?thesis using Cons.prems by auto
  next
    case None
    obtain pos1 s1 err where run: "consume_batch topic E handler (po_records p) pos s = (pos1, s1, err)"
      by (cases "consume_batch topic E handler (po_records p) pos s") auto
    have step: "follows handler start (drop (nat (start - base)) vs) pos0 s0 E
        (fold (advance topic) (po_records p) hi) (pos1, s1, err)"
      using consume_batch_follows [OF Cons.prems(1) assms(2-4), of topic "po_records p"] Cons.prems(2,3) run
      by (simp add: gapless_append consume_batch_def)
    show ?thesis
    proof (cases "err = None \<and> \<not> (0 \<le> E \<and> E \<le> pos1)")
      case True
      then show ?thesis
        using Cons.IH [of "fold (advance topic) (po_records p) hi" pos1 s1] step Cons.prems(2-4) None run
        by (auto simp: gapless_append)
    next
      case False
      then have "pos' = pos1 \<and> s' = s1 \<and> (res = ConsumeReturned None \<longrightarrow> err = None \<and> 0 \<le> E \<and> E \<le> pos')"
        using Cons.prems(4) None run by (cases err) auto
      then show ?thesis using step by blast
    qed
  qed
qed

text \<open>The loop only ends at its bound by way of the record just before it.\<close>

lemma consume_batch_below:
  assumes "\<forall>r \<in> set rs. event_record topic r \<longrightarrow> kr_offset r \<noteq> E - 1" and "0 < E" "E < 2 ^ 63"
    and "0 \<le> pos" "pos < E"
  shows "0 \<le> fst (consume_batch topic E handler rs pos s) \<and> fst (consume_batch topic E handler rs pos s) < E"
proof -
  have "0 \<le> fst (fold (consume_record topic E handler) rs st) \<and> fst (fold (consume_record topic E handler) rs st) < E"
    if "0 \<le> fst st" "fst st < E" for st
    using assms(1) that
  proof (induction rs arbitrary: st)
    case (Cons r rs)
    obtain p s err where st: "st = (p, s, err)" by (cases st)
    have "wrap64 (kr_offset r + 1) = kr_offset r + 1" if "p \<le> kr_offset r" "kr_offset r < E"
      using that Cons.prems(2) assms(3) by (intro wrap64_next) (auto simp: st)
    then have "0 \<le> fst (consume_record topic E handler r st) \<and> fst (consume_record topic E handler r st) < E"
      using Cons.prems by (auto simp: st consume_record_def event_record_def split: prod.split option.split)
    then show ?case using Cons by simp
  qed simp
  then show ?thesis using assms(4,5) by (simp add: consume_batch_def)
qed

lemma replay_stalls_aux:
  assumes "\<forall>r \<in> set (delivered ps). event_record topic r \<longrightarrow> kr_offset r \<noteq> E - 1"
    and "0 < E" "E < 2 ^ 63" and "0 \<le> pos" "pos < E"
  shows "snd (snd (consumeEvents topic handler E ps pos s)) \<noteq> ConsumeReturned None"
  using assms(1,4,5)
proof (induction ps arbitrary: pos s)
  case (Cons p ps)
  have below: "\<forall>r \<in> set (po_records p). event_record topic r \<longrightarrow> kr_offset r \<noteq> E - 1"
    using Cons.prems(1) by simp
  show ?case
    using consume_batch_below [OF below assms(2,3) Cons.prems(2,3), of handler s] Cons
    by (auto split: option.split prod.split)
qed simp

text \<open>A replay from the start of the log that returns has applied exactly the retained events
  before the captured end, each once and in order.\<close>

lemma replay_applies_log:
  assumes "0 \<le> base" and "base + int (length vs) < 2 ^ 63" and "0 \<le> E"
    and "list_all (of_log topic base vs) (delivered ps)" and "gapless topic base (delivered ps)"
    and "ReplayEvents topic handler (Inr E) ps 0 s0 = (pos, s, ConsumeReturned None)"
  shows "apply_from handler base (take (nat (E - base)) vs) s0 = (s, None) \<and> pos = E"
proof (cases "E = 0")
  case True
  then show ?thesis using assms(1,6) by (simp add: ReplayEvents_def)
next
  case False
  have init: "follows handler base (drop (nat (base - base)) vs) 0 s0 E base (0, s0, None)"
    if "base \<le> E" using that assms(3) by (auto simp: follows_def until_def intro!: exI [of _ 0])
  show ?thesis
  proof (cases "base \<le> E")
    case True
    have run: "consumeEvents topic handler E ps 0 s0 = (pos, s, ConsumeReturned None)"
      using assms(3,6) False by (simp add: ReplayEvents_def)
    obtain hi where f: "follows handler base (drop (nat (base - base)) vs) 0 s0 E hi (pos, s, None)" and "E \<le> pos"
      using consumeEvents_follows [OF init [OF True] _ _ assms(2,4,5) run] assms(1) by auto
    then obtain k where k: "apply_from handler base (take k vs) s0 = (s, None)"
        "base + int k = until E hi" "pos = (if k = 0 then 0 else base + int k)"
      by (auto simp: follows_def)
    have "k \<noteq> 0"
    proof
      assume "k = 0"
      then have "pos = 0" using k(3) by simp
      then show False using \<open>E \<le> pos\<close> False assms(3) by simp
    qed
    then have "base + int k = E" using k(2,3) \<open>E \<le> pos\<close> assms(3) by (auto simp: until_def)
    then have "k = nat (E - base)" "pos = E" using k(3) \<open>k \<noteq> 0\<close> by auto
    then show ?thesis using k(1) by simp
  next
    case before: False
    have "kr_offset r \<noteq> E - 1" if "r \<in> set (delivered ps)" "event_record topic r" for r
      using assms(4) that before by (auto simp: list_all_iff of_log_def)
    then have "snd (snd (consumeEvents topic handler E ps 0 s0)) \<noteq> ConsumeReturned None"
      using assms(2,3) False before by (intro replay_stalls_aux) auto
    then show ?thesis using assms(3,6) False by (simp add: ReplayEvents_def)
  qed
qed

end
