(* ===== verification/KafkaService.thy ===== *)
theory KafkaService
  imports KafkaHubInv KafkaEvents
begin

text \<open>
  The Kafka hub at work (\<open>websubhub/hub.go\<close>, \<open>broker.go\<close>, \<open>snapshot.go\<close>): publishing to Kafka,
  the callbacks given to the library, delivery with bounded retries, the consumption of a
  subscription's content, the end of a worker, the start of a hub and the snapshot source.

  The outside (Kafka, the network, timers) is one state \<open>'b\<close>; \<open>kafka_env\<close> holds what the code
  calls there: producing a record, a round trip, waiting, committing. The callbacks have the
  types of \<open>Service\<close> on the hub paired with that state. Logging is left out.
\<close>

record 'b kafka_env =
  ke_codec :: event_codec
  ke_events_topic :: string
  ke_produce :: "kafka_record \<Rightarrow> 'b \<Rightarrow> 'b \<times> error option"
  ke_round_trip :: "'b round_trip"
  ke_wait :: "'b \<Rightarrow> 'b \<times> error option"
  ke_commit :: "kafka_record list \<Rightarrow> 'b \<Rightarrow> 'b \<times> error option"

record content_message =
  cm_content_type :: string
  cm_body :: "bytes option"

section \<open>Publishing\<close>

definition produceJSON :: "'b kafka_env \<Rightarrow> string \<Rightarrow> state_event \<Rightarrow> 'b \<Rightarrow> 'b \<times> error option" where
  "produceJSON env topic e b =
     (case marshal_event (ke_codec env) e of
        Inl err \<Rightarrow> (b, Some (Prefixed (''encode Kafka record for '' @ topic) err))
      | Inr payload \<Rightarrow>
          (case ke_produce env \<lparr>kr_topic = topic, kr_partition = 0, kr_offset = 0, kr_value = payload,
                 kr_headers = []\<rparr> b of
             (b', Some err) \<Rightarrow> (b', Some (Prefixed (''produce Kafka record to '' @ topic) err))
           | (b', None) \<Rightarrow> (b', None)))"

definition publish_event :: "'b kafka_env \<Rightarrow> state_event \<Rightarrow> 'b \<Rightarrow> 'b \<times> error option" where
  "publish_event env e b = produceJSON env (ke_events_topic env) e b"

definition kafkaContentTypeHeader :: string where
  "kafkaContentTypeHeader = ''Content-Type''"

definition content_record :: "string \<Rightarrow> content_message \<Rightarrow> kafka_record" where
  "content_record topic content =
     \<lparr>kr_topic = topic, kr_partition = 0, kr_offset = 0, kr_value = bytes_of (cm_body content),
      kr_headers = [(kafkaContentTypeHeader, cm_content_type content)]\<rparr>"

definition PublishContent :: "'b kafka_env \<Rightarrow> string \<Rightarrow> content_message \<Rightarrow> 'b \<Rightarrow> 'b \<times> error option" where
  "PublishContent env topic content b =
     (case ke_produce env (content_record topic content) b of
        (b', Some err) \<Rightarrow> (b', Some (Prefixed (''produce Kafka content to '' @ topic) err))
      | (b', None) \<Rightarrow> (b', None))"

section \<open>Content\<close>

definition validateJSONContent :: "event_codec \<Rightarrow> content_message \<Rightarrow> error option" where
  "validateJSONContent codec content =
     (case mime_parse_media_type (cm_content_type content) of
        None \<Rightarrow> Some (AppError ''content must have the application/json media type'')
      | Some (mediaType, _) \<Rightarrow>
          if mediaType \<noteq> ''application/json''
          then Some (AppError ''content must have the application/json media type'')
          else if \<not> json_valid codec (bytes_of (cm_body content))
          then Some (AppError ''content must contain valid JSON'') else None)"

definition checked :: "event_codec \<Rightarrow> content_message \<Rightarrow> error + content_message" where
  "checked codec content =
     (case validateJSONContent codec content of Some err \<Rightarrow> Inl err | None \<Rightarrow> Inr content)"

definition materializeContent ::
    "'b kafka_env \<Rightarrow> kafka_hub \<Rightarrow> update_message \<Rightarrow> 'b \<Rightarrow> 'b \<times> (error + content_message)" where
  "materializeContent env h update b =
     (if upd_kind update = UpdateContent
      then (b, checked (ke_codec env)
                 \<lparr>cm_content_type = upd_content_type update, cm_body = cloneBytes (upd_body update)\<rparr>)
      else case new_request ''GET'' (upd_topic update) [] of
        None \<Rightarrow> (b, Inl transport_error)
      | Some request \<Rightarrow>
          (case client_do (kh_client h) (ke_round_trip env) b request of
             (b', None) \<Rightarrow> (b', Inl transport_error)
           | (b', Some response) \<Rightarrow>
               (b',
                if rs_status response < 200 \<or> rs_status response \<ge> 300
                then Inl (AppError (''topic returned HTTP '' @ format_int (rs_status response)))
                else case read_all (limit_reader (rs_body response) (wrap64 (kh_max_topic_body h + 1))) of
                       None \<Rightarrow> Inl io_error
                     | Some body \<Rightarrow>
                         if int (length body) > kh_max_topic_body h
                         then Inl (AppError (''topic response exceeds '' @ format_int (kh_max_topic_body h) @ '' bytes''))
                         else checked (ke_codec env)
                                \<lparr>cm_content_type = header_get (rs_header response) ''Content-Type'',
                                 cm_body = Some body\<rparr>)))"

section \<open>Callbacks\<close>

type_synonym 'b hub_state = "kafka_hub \<times> 'b"

definition refused :: "string \<Rightarrow> error option" where
  "refused why = Some (DeniedError why None)"

definition kafka_hasTopic :: "kafka_hub \<Rightarrow> string \<Rightarrow> bool" where
  "kafka_hasTopic h topic = map_has (kh_topics h) topic"

definition kafka_hasSubscription :: "kafka_hub \<Rightarrow> string \<Rightarrow> string \<Rightarrow> bool" where
  "kafka_hasSubscription h topic callback = (kh_get h topic callback \<noteq> None)"

definition kafka_onRegisterTopic :: "'b kafka_env \<Rightarrow> 'b hub_state \<Rightarrow> topic_registration \<Rightarrow> request_metadata
    \<Rightarrow> 'b hub_state \<times> (result \<times> error option) outcome" where
  "kafka_onRegisterTopic env hb registration _ =
     (case hb of (h, b) \<Rightarrow>
        if kafka_hasTopic h (reg_topic registration)
        then ((h, b), Returned (zero_result, refused ''topic is already registered''))
        else case publish_event env (EventRegister registration) b of
               (b', err) \<Rightarrow> ((h, b'), Returned (zero_result, err)))"

definition kafka_onDeregisterTopic :: "'b kafka_env \<Rightarrow> 'b hub_state \<Rightarrow> topic_deregistration \<Rightarrow> request_metadata
    \<Rightarrow> 'b hub_state \<times> (result \<times> error option) outcome" where
  "kafka_onDeregisterTopic env hb deregistration _ =
     (case hb of (h, b) \<Rightarrow>
        if \<not> kafka_hasTopic h (dereg_topic deregistration)
        then ((h, b), Returned (zero_result, refused ''topic is not registered''))
        else case publish_event env (EventDeregister deregistration) b of
               (b', err) \<Rightarrow> ((h, b'), Returned (zero_result, err)))"

definition kafka_onUpdateMessage :: "'b kafka_env \<Rightarrow> 'b hub_state \<Rightarrow> update_message \<Rightarrow> request_metadata
    \<Rightarrow> 'b hub_state \<times> (result \<times> error option) outcome" where
  "kafka_onUpdateMessage env hb update _ =
     (case hb of (h, b) \<Rightarrow>
        if \<not> kafka_hasTopic h (upd_topic update)
        then ((h, b), Returned (zero_result, refused ''topic is not registered''))
        else case materializeContent env h update b of
               (b', Inl err) \<Rightarrow> ((h, b'), Returned (zero_result, Some err))
             | (b', Inr content) \<Rightarrow>
                 (case PublishContent env (kafkaTopicName (upd_topic update)) content b' of
                    (b'', err) \<Rightarrow> ((h, b''), Returned (zero_result, err))))"

definition kafka_onSubscriptionValidation :: "'b hub_state \<Rightarrow> subscription \<Rightarrow> request_metadata
    \<Rightarrow> 'b hub_state \<times> error option outcome" where
  "kafka_onSubscriptionValidation hb subscription _ =
     (case hb of (h, b) \<Rightarrow>
        if \<not> kafka_hasTopic h (sub_topic subscription)
        then ((h, b), Returned (refused ''topic is not registered''))
        else case kh_get h (sub_topic subscription) (sub_callback subscription) of
               None \<Rightarrow> ((h, b), Returned None)
             | Some stored \<Rightarrow>
                 if kst_status stored \<noteq> SubscriptionStatusStale
                 then ((h, b), Returned (refused ''subscriber is already registered''))
                 else ((h, b), Returned None))"

definition kafka_onSubscriptionVerified :: "'b kafka_env \<Rightarrow> 'b hub_state \<Rightarrow> verified_subscription \<Rightarrow> request_metadata
    \<Rightarrow> 'b hub_state \<times> error option outcome" where
  "kafka_onSubscriptionVerified env hb verified _ =
     (case hb of (h, b) \<Rightarrow>
     (case parse_int (vs_effective_lease verified) of (leaseSeconds, err) \<Rightarrow>
        if err \<noteq> None \<or> leaseSeconds \<le> 0
        then ((h, b), Returned (Some (AppError ''invalid effective lease'')))
        else if \<not> kafka_hasTopic h (sub_topic (vs_subscription verified))
        then ((h, b), Returned (refused ''topic is not registered''))
        else
          let existing = kh_get h (sub_topic (vs_subscription verified)) (sub_callback (vs_subscription verified))
          in if (case existing of None \<Rightarrow> False | Some s \<Rightarrow> kst_status s \<noteq> SubscriptionStatusStale)
             then ((h, b), Returned (refused ''subscriber is already registered''))
             else
               let kept = (case existing of None \<Rightarrow> verified | Some s \<Rightarrow> kst_verified s);
                   serverID = (case existing of None \<Rightarrow> kh_server_id h | Some s \<Rightarrow> kst_server_id s)
               in case publish_event env (EventSubscribe (NewSubscription kept serverID)) b of
                    (b', err') \<Rightarrow> ((h, b'), Returned err')))"

definition kafka_onUnsubscriptionValidation :: "'b hub_state \<Rightarrow> unsubscription \<Rightarrow> request_metadata
    \<Rightarrow> 'b hub_state \<times> error option outcome" where
  "kafka_onUnsubscriptionValidation hb unsubscription _ =
     (case hb of (h, b) \<Rightarrow>
        if \<not> kafka_hasTopic h (unsub_topic unsubscription)
        then ((h, b), Returned (refused ''topic is not registered''))
        else if \<not> kafka_hasSubscription h (unsub_topic unsubscription) (unsub_callback unsubscription)
        then ((h, b), Returned (refused ''subscription does not exist''))
        else ((h, b), Returned None))"

definition kafka_onUnsubscriptionVerified :: "'b kafka_env \<Rightarrow> 'b hub_state \<Rightarrow> verified_unsubscription \<Rightarrow> request_metadata
    \<Rightarrow> 'b hub_state \<times> error option outcome" where
  "kafka_onUnsubscriptionVerified env hb verified _ =
     (case hb of (h, b) \<Rightarrow>
        case publish_event env (EventUnsubscribe verified) b of (b', err) \<Rightarrow> ((h, b'), Returned err))"

definition kafka_service :: "'b kafka_env \<Rightarrow> 'b hub_state service" where
  "kafka_service env =
     \<lparr>OnRegisterTopic = Some (kafka_onRegisterTopic env), OnDeregisterTopic = Some (kafka_onDeregisterTopic env),
      OnUpdateMessage = Some (kafka_onUpdateMessage env),
      OnSubscription = None, OnSubscriptionValidation = Some kafka_onSubscriptionValidation,
      OnSubscriptionVerified = Some (kafka_onSubscriptionVerified env),
      OnUnsubscription = None, OnUnsubscriptionValidation = Some kafka_onUnsubscriptionValidation,
      OnUnsubscriptionVerified = Some (kafka_onUnsubscriptionVerified env)\<rparr>"

section \<open>Delivery\<close>

definition errSubscriptionGone :: error where
  "errSubscriptionGone = AppError ''subscription callback is gone''"

text \<open>The loop of \<open>deliverContent\<close> with the attempts that are left, the error of the last one,
  and the exchanges made; \<open>fmt.Errorf\<close> writes a nil error as text.\<close>

fun deliver_attempts ::
    "'b kafka_env \<Rightarrow> delivery_client \<Rightarrow> verified_subscription \<Rightarrow> content_message \<Rightarrow> int \<Rightarrow> nat \<Rightarrow> error option
     \<Rightarrow> 'b \<Rightarrow> 'b \<times> exchange list \<times> error option" where
  "deliver_attempts env client verified message attempts 0 deliveryErr b =
     (b, [], Some (case deliveryErr of
        None \<Rightarrow> AppError ''content delivery failed''
      | Some err \<Rightarrow> Prefixed (''content delivery failed after '' @ format_int attempts @ '' attempts'') err))"
| "deliver_attempts env client verified message attempts (Suc left) deliveryErr b =
     (case Deliver (Some client) (ke_round_trip env) b
          \<lparr>cd_content_type = cm_content_type message, cd_body = cloneBytes (cm_body message), cd_header = None\<rparr> of
        (b1, exs, _, None) \<Rightarrow> (b1, exs, None)
      | (b1, exs, _, Some err) \<Rightarrow>
          if errors_is err (Sentinel ErrSubscriptionGone) then
            (case publish_event env (EventUnsubscribe
                \<lparr>vu_unsubscription = \<lparr>unsub_mode = ModeUnsubscribe,
                   unsub_callback = sub_callback (vs_subscription verified),
                   unsub_topic = sub_topic (vs_subscription verified),
                   unsub_secret = [], unsub_parameters = None\<rparr>\<rparr>) b1 of
               (b2, Some err2) \<Rightarrow> (b2, exs, Some err2)
             | (b2, None) \<Rightarrow> (b2, exs, Some errSubscriptionGone))
          else if left > 0 then
            (case ke_wait env b1 of
               (b2, Some err2) \<Rightarrow> (b2, exs, Some err2)
             | (b2, None) \<Rightarrow>
                 (case deliver_attempts env client verified message attempts left (Some err) b2 of
                    (b3, exs', res) \<Rightarrow> (b3, exs @ exs', res)))
          else
            (case deliver_attempts env client verified message attempts left (Some err) b1 of
               (b3, exs', res) \<Rightarrow> (b3, exs @ exs', res)))"

definition deliverContent ::
    "'b kafka_env \<Rightarrow> kafka_hub \<Rightarrow> delivery_client \<Rightarrow> verified_subscription \<Rightarrow> content_message \<Rightarrow> 'b
     \<Rightarrow> 'b \<times> exchange list \<times> error option" where
  "deliverContent env h client verified message b =
     deliver_attempts env client verified message (kh_attempts h) (nat (kh_attempts h)) None b"

fun deliver_messages ::
    "'b kafka_env \<Rightarrow> kafka_hub \<Rightarrow> delivery_client \<Rightarrow> verified_subscription \<Rightarrow> content_message list \<Rightarrow> 'b
     \<Rightarrow> 'b \<times> exchange list \<times> error option" where
  "deliver_messages env h client verified [] b = (b, [], None)"
| "deliver_messages env h client verified (m # ms) b =
     (case deliverContent env h client verified m b of
        (b1, exs, Some err) \<Rightarrow> (b1, exs, Some err)
      | (b1, exs, None) \<Rightarrow>
          (case deliver_messages env h client verified ms b1 of (b2, exs', res) \<Rightarrow> (b2, exs @ exs', res)))"

definition deliverBatch ::
    "'b kafka_env \<Rightarrow> kafka_hub \<Rightarrow> verified_subscription \<Rightarrow> content_message list \<Rightarrow> 'b
     \<Rightarrow> 'b \<times> exchange list \<times> error option" where
  "deliverBatch env h verified messages b =
     (case NewDeliveryClient (vs_subscription verified) (kh_delivery_config h) of
        Inl err \<Rightarrow> (b, [], Some err)
      | Inr client \<Rightarrow> deliver_messages env h client verified messages b)"

section \<open>A subscription's content\<close>

definition message_of :: "kafka_record \<Rightarrow> content_message" where
  "message_of r =
     \<lparr>cm_content_type = recordHeader (kr_headers r) kafkaContentTypeHeader,
      cm_body = cloneBytes (Some (kr_value r))\<rparr>"

text \<open>\<open>ConsumeSubscription\<close>, with the batches it committed, in order. \<open>consume\<close> is the batch
  consumer of the hub.\<close>

fun ConsumeSubscription ::
    "'b kafka_env \<Rightarrow> (content_message list \<Rightarrow> 'b \<Rightarrow> 'b \<times> error option) \<Rightarrow> poll list \<Rightarrow> 'b
     \<Rightarrow> 'b \<times> kafka_record list list \<times> consumed" where
  "ConsumeSubscription env consume [] b = (b, [], Polling)"
| "ConsumeSubscription env consume (p # ps) b =
     (case fetchError p of
        Some err \<Rightarrow> (b, [], ConsumeReturned (Some (Prefixed ''poll Kafka content'' err)))
      | None \<Rightarrow>
          if po_records p = [] then ConsumeSubscription env consume ps b
          else (case consume (map message_of (po_records p)) b of
              (b1, Some err) \<Rightarrow> (b1, [], ConsumeReturned (Some (Prefixed ''deliver Kafka content batch'' err)))
            | (b1, None) \<Rightarrow>
                (case ke_commit env (po_records p) b1 of
                   (b2, Some err) \<Rightarrow> (b2, [], ConsumeReturned (Some (Prefixed ''commit Kafka content batch'' err)))
                 | (b2, None) \<Rightarrow>
                     (case ConsumeSubscription env consume ps b2 of
                        (b3, committed, res) \<Rightarrow> (b3, po_records p # committed, res)))))"

text \<open>The batch consumer that the goroutine of \<open>startSubscriptionWorker\<close> passes.\<close>

definition worker_consume ::
    "'b kafka_env \<Rightarrow> kafka_hub \<Rightarrow> verified_subscription \<Rightarrow> content_message list \<Rightarrow> 'b \<Rightarrow> 'b \<times> error option" where
  "worker_consume env h verified messages b =
     (case deliverBatch env h verified messages b of (b', _, err) \<Rightarrow> (b', err))"

text \<open>What the goroutine of \<open>startSubscriptionWorker\<close> does when the consumption returned \<open>err\<close>;
  \<open>cancelled\<close> is the worker's context. The result is what it reports.\<close>

definition worker_end ::
    "'b kafka_env \<Rightarrow> bool \<Rightarrow> verified_subscription \<Rightarrow> string \<Rightarrow> error option \<Rightarrow> 'b \<Rightarrow> 'b \<times> error option" where
  "worker_end env cancelled verified serverID err b =
     (if cancelled \<or> (case err of None \<Rightarrow> False | Some e \<Rightarrow> errors_is e errSubscriptionGone) then (b, None)
      else case err of
        None \<Rightarrow> (b, None)
      | Some _ \<Rightarrow>
          (case publish_event env (EventStale (NewStaleSubscription verified serverID)) b of
             (b', Some publishErr) \<Rightarrow> (b', Some (Prefixed ''persist stale subscription'' publishErr))
           | (b', None) \<Rightarrow> (b', None)))"

section \<open>The start\<close>

record kafka_options =
  kop_hub_url :: string
  kop_server_id :: string
  kop_broker :: bool
  kop_snapshot_source :: bool
  kop_delivery_attempts :: int
  kop_retry_backoff :: duration
  kop_max_topic_body :: int
  kop_client :: "http_client option"

definition kafka_default_client :: http_client where
  "kafka_default_client =
     \<lparr>cl_transport = None, cl_check_redirect = UseLastResponse, cl_jar = None, cl_timeout = 15 * second\<rparr>"

definition new_kafka_hub :: "kafka_options \<Rightarrow> error + kafka_hub" where
  "new_kafka_hub options =
     (if kop_hub_url options = [] then Inl (AppError ''hub URL is required'')
      else if kop_server_id options = [] then Inl (AppError ''server ID is required'')
      else if \<not> kop_broker options then Inl (AppError ''message broker is required'')
      else if \<not> kop_snapshot_source options then Inl (AppError ''snapshot source is required'')
      else if kop_retry_backoff options < 0 then Inl (AppError ''retry backoff must not be negative'')
      else
        let client = (case kop_client options of None \<Rightarrow> kafka_default_client | Some c \<Rightarrow> c)
        in Inr \<lparr>kh_topics = [], kh_subscribers = [], kh_replaying = True,
             kh_server_id = kop_server_id options,
             kh_delivery_config = \<lparr>dcfg_client = Some client, dcfg_timeout = 15 * second, dcfg_max_body = 0\<rparr>,
             kh_attempts = (if kop_delivery_attempts options \<le> 0 then 3 else kop_delivery_attempts options),
             kh_backoff = (if kop_retry_backoff options = 0 then second else kop_retry_backoff options),
             kh_max_topic_body = (if kop_max_topic_body options \<le> 0 then 1048576 else kop_max_topic_body options),
             kh_client = client, kh_cancelled = False, kh_next = 0, kh_workers = []\<rparr>)"

text \<open>The event loop of the hub's broker applies \<open>ApplyEvent\<close> and names the step that failed.\<close>

definition hub_handler :: "event_codec \<Rightarrow> kafka_hub event_handler" where
  "hub_handler codec offset payload h =
     (case ApplyEvent codec payload hub_methods h of
        (h', Some err) \<Rightarrow> (h', Some (Prefixed (''apply event at offset '' @ format_int offset) err))
      | (h', None) \<Rightarrow> (h', None))"

definition name_poll_errors :: "poll \<Rightarrow> poll" where
  "name_poll_errors p =
     p\<lparr>po_context := map_option (Prefixed ''consume Kafka events'') (po_context p),
       po_errors := map (Prefixed ''consume Kafka events'') (po_errors p)\<rparr>"

definition hub_ReplayEvents ::
    "event_codec \<Rightarrow> string \<Rightarrow> error + int \<Rightarrow> poll list \<Rightarrow> int \<Rightarrow> kafka_hub \<Rightarrow> int \<times> kafka_hub \<times> consumed" where
  "hub_ReplayEvents codec eventsTopic logEnd ps eventsOffset h =
     ReplayEvents eventsTopic (hub_handler codec) logEnd (map name_poll_errors ps) eventsOffset h"

definition hub_ConsumeEvents ::
    "event_codec \<Rightarrow> string \<Rightarrow> poll list \<Rightarrow> int \<Rightarrow> kafka_hub \<Rightarrow> int \<times> kafka_hub \<times> consumed" where
  "hub_ConsumeEvents codec eventsTopic ps eventsOffset h =
     ConsumeEvents eventsTopic (hub_handler codec) (map name_poll_errors ps) eventsOffset h"

datatype hub_started = HubPolling | HubFailed error | HubStarted kafka_hub int

text \<open>\<open>New\<close> up to the goroutines it starts; then their start, with no step of the event worker
  in between (the theory \<open>KafkaRun\<close> has the interleavings).\<close>

definition kafka_recover ::
    "event_codec \<Rightarrow> string \<Rightarrow> kafka_options \<Rightarrow> error + snapshot \<Rightarrow> error + int \<Rightarrow> poll list \<Rightarrow> hub_started" where
  "kafka_recover codec eventsTopic options fetched logEnd ps =
     (case new_kafka_hub options of
        Inl err \<Rightarrow> HubFailed err
      | Inr h \<Rightarrow>
     (case fetched of
        Inl err \<Rightarrow> HubFailed (Prefixed ''retrieve initial state snapshot'' err)
      | Inr sn \<Rightarrow>
     (case applySnapshot sn h of
        (_, Some err) \<Rightarrow> HubFailed (Prefixed ''apply initial state snapshot'' err)
      | (h1, None) \<Rightarrow>
     (case hub_ReplayEvents codec eventsTopic logEnd ps 0 h1 of
        (offset, h2, ConsumeReturned None) \<Rightarrow> HubStarted (h2\<lparr>kh_replaying := False\<rparr>) offset
      | (offset, h2, ConsumeReturned (Some err)) \<Rightarrow> HubFailed (Prefixed ''replay state events'' err)
      | (offset, h2, Polling) \<Rightarrow> HubPolling))))"

definition kafka_New ::
    "event_codec \<Rightarrow> string \<Rightarrow> kafka_options \<Rightarrow> error + snapshot \<Rightarrow> error + int \<Rightarrow> poll list \<Rightarrow> hub_started" where
  "kafka_New codec eventsTopic options fetched logEnd ps =
     (case kafka_recover codec eventsTopic options fetched logEnd ps of
        HubStarted h offset \<Rightarrow> HubStarted (startReplayedSubscriptionWorkers h) offset
      | stopped \<Rightarrow> stopped)"

section \<open>The snapshot source\<close>

definition maxSnapshotBody :: int where
  "maxSnapshotBody = 16777216"

record snapshot_source =
  ss_endpoint :: string
  ss_client :: http_client

definition NewHTTPSnapshotSource :: "string \<Rightarrow> http_client option \<Rightarrow> error + snapshot_source" where
  "NewHTTPSnapshotSource endpoint client =
     (case parse_url endpoint of
        None \<Rightarrow> Inl (AppError ''snapshot endpoint must be an absolute HTTP(S) URL'')
      | Some parsed \<Rightarrow>
          if u_scheme parsed \<noteq> ''http'' \<and> u_scheme parsed \<noteq> ''https'' \<or> u_host parsed = []
          then Inl (AppError ''snapshot endpoint must be an absolute HTTP(S) URL'')
          else
            let base = (case client of
                None \<Rightarrow> \<lparr>cl_transport = None, cl_check_redirect = FollowRedirects, cl_jar = None, cl_timeout = 0\<rparr>
              | Some c \<Rightarrow> c)
            in Inr \<lparr>ss_endpoint = endpoint, ss_client = base\<lparr>cl_check_redirect := UseLastResponse\<rparr>\<rparr>)"

definition fetch_snapshot :: "event_codec \<Rightarrow> snapshot_source \<Rightarrow> 'b round_trip \<Rightarrow> 'b \<Rightarrow> 'b \<times> (error + snapshot)" where
  "fetch_snapshot codec source rt b =
     (case new_request ''GET'' (ss_endpoint source) [] of
        None \<Rightarrow> (b, Inl (Prefixed ''create snapshot request'' transport_error))
      | Some request \<Rightarrow>
          (case client_do (ss_client source) rt b request of
             (b', None) \<Rightarrow> (b', Inl (Prefixed ''retrieve consolidator snapshot'' transport_error))
           | (b', Some response) \<Rightarrow>
               (b',
                if rs_status response \<noteq> 200
                then Inl (AppError (''consolidator returned HTTP '' @ format_int (rs_status response)))
                else case read_all (limit_reader (rs_body response) (maxSnapshotBody + 1)) of
                       None \<Rightarrow> Inl (Prefixed ''read consolidator snapshot'' io_error)
                     | Some payload \<Rightarrow>
                         if int (length payload) > maxSnapshotBody
                         then Inl (AppError ''consolidator snapshot exceeds 16777216 bytes'')
                         else (case json_snapshot codec payload of
                             Inl err \<Rightarrow> Inl (Prefixed ''decode consolidator snapshot'' err)
                           | Inr sn \<Rightarrow> Inr sn))))"

lemmas kafka_service_eval [go_eval] = produceJSON_def publish_event_def kafkaContentTypeHeader_def
  content_record_def PublishContent_def validateJSONContent_def checked_def materializeContent_def
  refused_def kafka_hasTopic_def kafka_hasSubscription_def kafka_onRegisterTopic_def
  kafka_onDeregisterTopic_def kafka_onUpdateMessage_def kafka_onSubscriptionValidation_def
  kafka_onSubscriptionVerified_def kafka_onUnsubscriptionValidation_def
  kafka_onUnsubscriptionVerified_def deliverContent_def deliverBatch_def message_of_def
  worker_consume_def worker_end_def new_kafka_hub_def kafka_default_client_def hub_handler_def name_poll_errors_def
  hub_ReplayEvents_def hub_ConsumeEvents_def kafka_recover_def kafka_New_def maxSnapshotBody_def
  NewHTTPSnapshotSource_def fetch_snapshot_def errSubscriptionGone_def

end
