(* ===== verification/KafkaWorkers.thy ===== *)
theory KafkaWorkers
  imports KafkaHubInv
begin

text \<open>
  The subscription workers of the Kafka hub: a worker that a stored subscription holds is not
  cancelled (\<open>live_ok\<close>), and, once the replay is over, every stored subscription that this
  server owns and that is not stale holds one (\<open>all_served\<close>). Both are kept by the five
  methods and set up by \<open>startReplayedSubscriptionWorkers\<close>; together with \<open>hub_ok\<close> they say
  that exactly the owned, not stale subscriptions have a worker with a context that is not
  cancelled, and one each (\<open>served_exactly\<close>). Which of these goroutines still run is a matter of
  \<open>KafkaRun\<close> (\<open>running_at\<close>).
\<close>

definition live_ok :: "(string \<Rightarrow> string \<Rightarrow> kafka_stored option) \<Rightarrow> kafka_worker list \<Rightarrow> bool" where
  "live_ok g ws \<longleftrightarrow>
     (\<forall>t c s. g t c = Some s \<longrightarrow> kst_cancel s \<longrightarrow> (\<forall>w \<in> set ws. kw_id w = kst_id s \<longrightarrow> \<not> kw_cancelled w))"

text \<open>While the workers of a replay are being started, some subscriptions (\<open>pending\<close>, each under
  its topic, callback and number) still wait for theirs.\<close>

definition all_served ::
    "(string \<times> string \<times> nat) set \<Rightarrow> string \<Rightarrow> (string \<Rightarrow> string \<Rightarrow> kafka_stored option) \<Rightarrow> bool" where
  "all_served pending server g \<longleftrightarrow>
     (\<forall>t c s. g t c = Some s \<longrightarrow> kst_server_id s = server \<longrightarrow> kst_status s \<noteq> SubscriptionStatusStale \<longrightarrow>
        (t, c, kst_id s) \<notin> pending \<longrightarrow> kst_cancel s)"

lemma live_okD: "live_ok g ws \<Longrightarrow> g t c = Some s \<Longrightarrow> kst_cancel s \<Longrightarrow> w \<in> set ws \<Longrightarrow> kw_id w = kst_id s \<Longrightarrow>
    \<not> kw_cancelled w"
  by (simp add: live_ok_def)

lemma live_ok_cancel:
  assumes "live_ok g ws"
    and "\<And>t c s. g' t c = Some s \<Longrightarrow> kst_cancel s \<Longrightarrow> g t c = Some s"
    and "\<And>w. w \<in> set ws' \<Longrightarrow> \<exists>v \<in> set ws. kw_id v = kw_id w \<and> (kw_cancelled w \<longrightarrow> kw_cancelled v \<or> w' w)"
    and "\<And>w t c s. w \<in> set ws' \<Longrightarrow> w' w \<Longrightarrow> g' t c = Some s \<Longrightarrow> kst_cancel s \<Longrightarrow> kst_id s = kw_id w \<Longrightarrow> False"
  shows "live_ok g' ws'"
  unfolding live_ok_def
proof (intro allI impI ballI)
  fix t c s w
  assume s: "g' t c = Some s" "kst_cancel s" and w: "w \<in> set ws'" "kw_id w = kst_id s"
  obtain v where v: "v \<in> set ws" "kw_id v = kw_id w" "kw_cancelled w \<longrightarrow> kw_cancelled v \<or> w' w"
    using assms(3) [OF w(1)] by blast
  moreover have "\<not> kw_cancelled v"
    using live_okD [OF assms(1) assms(2) [OF s] s(2) v(1)] v(2) w(2) by simp
  ultimately show "\<not> kw_cancelled w"
    using assms(4) [OF w(1) _ s] w(2) by metis
qed

lemma cancel_workers_from:
  "w \<in> set (fold cancel_worker ss ws) \<Longrightarrow>
     \<exists>v \<in> set ws. kw_id v = kw_id w \<and> (kw_cancelled w \<longrightarrow> kw_cancelled v \<or> (\<exists>s \<in> set ss. kst_id s = kw_id w))"
proof (induction ss arbitrary: ws)
  case (Cons s ss)
  then obtain v where v: "v \<in> set (cancel_worker s ws)" "kw_id v = kw_id w"
      "kw_cancelled w \<longrightarrow> kw_cancelled v \<or> (\<exists>s \<in> set ss. kst_id s = kw_id w)"
    by fastforce
  moreover have "\<exists>u \<in> set ws. kw_id u = kw_id v \<and> (kw_cancelled v \<longrightarrow> kw_cancelled u \<or> kst_id s = kw_id v)"
    using v(1) by (auto simp: cancel_worker_def split: if_splits)
  ultimately show ?case by auto
qed auto

lemmas cancel_worker_from = cancel_workers_from [of _ "[s]" for s, simplified]

lemma inner_stored:
  "nested_ok (kh_subscribers h) \<Longrightarrow> s \<in> set (map snd (inner (kh_subscribers h) t)) \<Longrightarrow> \<exists>c. kh_get h t c = Some s"
  using inner_ok [of "kh_subscribers h" t] by (force simp: kh_get_def nested_get_def map_get_iff)

lemma same_id:
  "hub_ok h \<Longrightarrow> kh_get h t c = Some s \<Longrightarrow> kh_get h t' c' = Some s' \<Longrightarrow> kst_id s = kst_id s' \<Longrightarrow> t = t' \<and> c = c'"
  using workers_okD(2) unfolding hub_ok_def by blast

section \<open>Starting a worker\<close>

lemma start_worker_fields [simp]:
  "kh_server_id (startSubscriptionWorker s h) = kh_server_id h"
  "kh_cancelled (startSubscriptionWorker s h) = kh_cancelled h"
  "kh_replaying (startSubscriptionWorker s h) = kh_replaying h"
  by (simp_all add: startSubscriptionWorker_def split: option.split)

lemma start_worker_cases:
  obtains "startSubscriptionWorker stored h = h"
      "\<And>s. kh_get h (kst_topic stored) (kst_callback stored) = Some s \<Longrightarrow> kst_id s = kst_id stored \<Longrightarrow>
        kst_server_id s = kh_server_id h \<Longrightarrow> kst_status s \<noteq> SubscriptionStatusStale \<Longrightarrow> \<not> kh_cancelled h \<Longrightarrow> kst_cancel s"
  | s w where "kh_get h (kst_topic stored) (kst_callback stored) = Some s" "\<not> kst_cancel s"
      "kst_status s \<noteq> SubscriptionStatusStale" "kw_id w = kst_id s" "\<not> kw_cancelled w"
      "kh_get (startSubscriptionWorker stored h) =
        set_entry (kst_topic stored) (kst_callback stored) (s\<lparr>kst_cancel := True\<rparr>) (kh_get h)"
      "kh_workers (startSubscriptionWorker stored h) = kh_workers h @ [w]"
proof (cases "startSubscriptionWorker stored h = h")
  case True
  have "kst_cancel s" if "kh_get h (kst_topic stored) (kst_callback stored) = Some s" "kst_id s = kst_id stored"
      "kst_server_id s = kh_server_id h" "kst_status s \<noteq> SubscriptionStatusStale" "\<not> kh_cancelled h" for s
  proof (rule ccontr)
    assume "\<not> kst_cancel s"
    then have "length (kh_workers (startSubscriptionWorker stored h)) = Suc (length (kh_workers h))"
      using that by (simp add: startSubscriptionWorker_def)
    then show False using True by simp
  qed
  then show ?thesis using True that(1) by blast
next
  case False
  then obtain s where s: "kh_get h (kst_topic stored) (kst_callback stored) = Some s" "\<not> kst_cancel s"
      "kst_status s \<noteq> SubscriptionStatusStale"
    and start: "startSubscriptionWorker stored h = h\<lparr>kh_subscribers := nested_put (kst_topic stored)
        (kst_callback stored) (s\<lparr>kst_cancel := True\<rparr>) (kh_subscribers h), kh_workers := kh_workers h @
        [\<lparr>kw_id = kst_id s, kw_verified = kst_verified s, kw_server_id = kst_server_id s, kw_group = kst_group s,
          kw_cancelled = False\<rparr>]\<rparr>"
    by (auto simp: startSubscriptionWorker_def split: option.splits if_splits)
  show ?thesis
    by (rule that(2) [OF s, of "\<lparr>kw_id = kst_id s, kw_verified = kst_verified s, kw_server_id = kst_server_id s,
        kw_group = kst_group s, kw_cancelled = False\<rparr>"]) (simp_all add: start)
qed

lemma start_worker_live:
  assumes "hub_ok h" and "live_ok (kh_get h) (kh_workers h)"
  shows "live_ok (kh_get (startSubscriptionWorker stored h)) (kh_workers (startSubscriptionWorker stored h))"
proof (cases rule: start_worker_cases [of stored h])
  case 1
  then show ?thesis using assms(2) by simp
next
  case (2 s w)
  have "kst_id s \<notin> kw_id ` set (kh_workers h)"
    using workers_okD(7) assms(1) 2(1-3) unfolding hub_ok_def by blast
  then show ?thesis
    using 2 assms(2) by (auto simp: live_ok_def set_entry_def image_iff)
qed

text \<open>Only \<open>kst_cancel\<close> of one subscription changes, and it is set.\<close>

lemma start_worker_entry:
  assumes "kh_get h t c = Some s"
  shows "\<exists>s'. kh_get (startSubscriptionWorker stored h) t c = Some s' \<and> s'\<lparr>kst_cancel := x\<rparr> = s\<lparr>kst_cancel := x\<rparr>
    \<and> (kst_cancel s \<longrightarrow> kst_cancel s')
    \<and> (kst_topic stored = t \<longrightarrow> kst_callback stored = c \<longrightarrow> kst_id stored = kst_id s \<longrightarrow>
        kst_server_id s = kh_server_id h \<longrightarrow> kst_status s \<noteq> SubscriptionStatusStale \<longrightarrow> \<not> kh_cancelled h \<longrightarrow> kst_cancel s')"
proof (cases rule: start_worker_cases [of stored h])
  case 1
  then show ?thesis using assms by auto
next
  case (2 r w)
  then show ?thesis using assms by (auto simp: set_entry_def)
qed

lemma start_worker_entry_only:
  "kh_get (startSubscriptionWorker stored h) t c = Some s' \<Longrightarrow> \<exists>s. kh_get h t c = Some s"
  by (cases rule: start_worker_cases [of stored h]) (auto simp: set_entry_def split: if_splits)

lemma cancel_only:
  assumes "s\<lparr>kst_cancel := x\<rparr> = s'\<lparr>kst_cancel := x\<rparr>"
  shows "kst_server_id s' = kst_server_id s" "kst_status s' = kst_status s" "kst_id s' = kst_id s"
  using arg_cong [OF assms, of kst_server_id] arg_cong [OF assms, of kst_status] arg_cong [OF assms, of kst_id]
  by simp_all

lemma fold_start_ok:
  assumes "hub_ok h" and "live_ok (kh_get h) (kh_workers h)"
  shows "hub_ok (fold startSubscriptionWorker ss h) \<and> hub_view (fold startSubscriptionWorker ss h) = hub_view h
    \<and> live_ok (kh_get (fold startSubscriptionWorker ss h)) (kh_workers (fold startSubscriptionWorker ss h))
    \<and> kh_server_id (fold startSubscriptionWorker ss h) = kh_server_id h
    \<and> kh_cancelled (fold startSubscriptionWorker ss h) = kh_cancelled h
    \<and> kh_replaying (fold startSubscriptionWorker ss h) = kh_replaying h"
  using assms by (induction ss arbitrary: h) (simp_all add: start_worker_ok start_worker_live)

section \<open>The methods keep them\<close>

text \<open>Removing entries, with the cancellation of their workers.\<close>

lemma live_ok_fold_cancel:
  assumes ok: "hub_ok h" and live: "live_ok (kh_get h) (kh_workers h)"
    and sub: "\<And>t c s. g' t c = Some s \<Longrightarrow> kst_cancel s \<Longrightarrow> kh_get h t c = Some s"
    and gone: "\<And>r. r \<in> set ss \<Longrightarrow> \<exists>t c. kh_get h t c = Some r \<and> (\<forall>s. g' t c = Some s \<longrightarrow> \<not> kst_cancel s)"
  shows "live_ok g' (fold cancel_worker ss (kh_workers h))"
proof (rule live_ok_cancel [OF live, where w' = "\<lambda>w. \<exists>r \<in> set ss. kst_id r = kw_id w"])
  show "\<exists>v \<in> set (kh_workers h). kw_id v = kw_id w \<and>
      (kw_cancelled w \<longrightarrow> kw_cancelled v \<or> (\<exists>r \<in> set ss. kst_id r = kw_id w))"
    if "w \<in> set (fold cancel_worker ss (kh_workers h))" for w
    using cancel_workers_from [OF that] .
  show False if w: "\<exists>r \<in> set ss. kst_id r = kw_id w" and s: "g' t c = Some s" "kst_cancel s" "kst_id s = kw_id w"
    for w t c s
  proof -
    obtain r t' c' where r: "kst_id r = kw_id w" "kh_get h t' c' = Some r" "\<forall>s. g' t' c' = Some s \<longrightarrow> \<not> kst_cancel s"
      using w gone by blast
    have "t = t' \<and> c = c'" using same_id [OF ok sub [OF s(1,2)] r(2)] s(3) r(1) by simp
    then show False using r(3) s by blast
  qed
qed (rule sub)

text \<open>The invariant of a hub that runs, and of one that still starts its workers.\<close>

definition hub_starting :: "(string \<times> string \<times> nat) set \<Rightarrow> kafka_hub \<Rightarrow> bool" where
  "hub_starting pending h \<longleftrightarrow> hub_ok h \<and> live_ok (kh_get h) (kh_workers h)
     \<and> (\<not> kh_replaying h \<longrightarrow> \<not> kh_cancelled h \<longrightarrow> all_served pending (kh_server_id h) (kh_get h))"

abbreviation hub_running :: "kafka_hub \<Rightarrow> bool" where
  "hub_running \<equiv> hub_starting {}"

lemma hub_startingD:
  assumes "hub_starting pending h"
  shows "hub_ok h" "live_ok (kh_get h) (kh_workers h)"
    "\<not> kh_replaying h \<Longrightarrow> \<not> kh_cancelled h \<Longrightarrow> all_served pending (kh_server_id h) (kh_get h)"
  using assms by (simp_all add: hub_starting_def)

lemma hub_starting_mono: "hub_starting p h \<Longrightarrow> p \<subseteq> q \<Longrightarrow> hub_starting q h"
  by (auto simp: hub_starting_def all_served_def)

text \<open>One subscription less waits after its start.\<close>

definition start_key :: "kafka_stored \<Rightarrow> string \<times> string \<times> nat" where
  "start_key s = (kst_topic s, kst_callback s, kst_id s)"

lemma start_pending:
  assumes run: "hub_starting pending h"
  shows "hub_starting (pending - {start_key r}) (startSubscriptionWorker r h)"
proof -
  note R = hub_startingD [OF run]
  have "all_served (pending - {start_key r}) (kh_server_id h) (kh_get (startSubscriptionWorker r h))"
    if n: "\<not> kh_replaying h" "\<not> kh_cancelled h"
    unfolding all_served_def
  proof (intro allI impI)
    fix t c s'
    assume s': "kh_get (startSubscriptionWorker r h) t c = Some s'" "kst_server_id s' = kh_server_id h"
        "kst_status s' \<noteq> SubscriptionStatusStale" "(t, c, kst_id s') \<notin> pending - {start_key r}"
    obtain s where s: "kh_get h t c = Some s" using start_worker_entry_only s'(1) by blast
    have e: "s'\<lparr>kst_cancel := True\<rparr> = s\<lparr>kst_cancel := True\<rparr>" "kst_cancel s \<longrightarrow> kst_cancel s'"
        "kst_topic r = t \<longrightarrow> kst_callback r = c \<longrightarrow> kst_id r = kst_id s \<longrightarrow>
        kst_server_id s = kh_server_id h \<longrightarrow> kst_status s \<noteq> SubscriptionStatusStale \<longrightarrow> \<not> kh_cancelled h \<longrightarrow> kst_cancel s'"
      using start_worker_entry [OF s, of r True] s'(1) by simp_all
    note same = cancel_only [OF e(1)]
    show "kst_cancel s'"
    proof (cases "start_key r = (t, c, kst_id s)")
      case True
      then show ?thesis using e(3) same s'(2,3) n(2) by (simp add: start_key_def)
    next
      case False
      then have "kst_cancel s" using R(3) n s same s'(2-4) unfolding all_served_def by auto
      then show ?thesis using e(2) by simp
    qed
  qed
  then show ?thesis
    using start_worker_ok(1) [OF R(1), of r] start_worker_live [OF R(1,2), of r] by (simp add: hub_starting_def)
qed

lemma fold_start_pending:
  "hub_starting (start_key ` set ss) h \<Longrightarrow> hub_running (fold startSubscriptionWorker ss h)"
proof (induction ss arbitrary: h)
  case (Cons r ss)
  have "hub_starting (start_key ` set (r # ss) - {start_key r}) (startSubscriptionWorker r h)"
    using start_pending [OF Cons.prems] .
  then have "hub_starting (start_key ` set ss) (startSubscriptionWorker r h)"
    by (rule hub_starting_mono) auto
  then show ?case using Cons.IH by simp
qed simp

lemma stored_in_all:
  "kh_get h t c = Some s \<Longrightarrow> s \<in> set (concat (map (\<lambda>(_, byCallback). map snd byCallback) (kh_subscribers h)))"
  by (force simp: kh_get_def nested_get_def inner_def dest!: map_get_in split: option.splits)

lemma listed_pending:
  assumes "hub_ok h" and "live_ok (kh_get h) (kh_workers h)"
  shows "hub_starting (start_key ` set (replayed_subscriptions h)) h"
proof -
  have "(t, c, kst_id s) \<in> start_key ` set (replayed_subscriptions h)"
    if s: "kh_get h t c = Some s" "kst_status s \<noteq> SubscriptionStatusStale" for t c s
  proof -
    have "s \<in> set (replayed_subscriptions h)"
      using stored_in_all [OF s(1)] s(2) by (simp add: replayed_subscriptions_def)
    moreover have "start_key s = (t, c, kst_id s)"
      using hub_get_key [OF assms(1) s(1)] by (simp add: start_key_def)
    ultimately show ?thesis by (metis imageI)
  qed
  then show ?thesis using assms by (auto simp: hub_starting_def all_served_def)
qed

lemma hub_starting_shrink:
  assumes run: "hub_starting pending h" and ok: "hub_ok h'"
    and fields: "kh_replaying h' = kh_replaying h" "kh_cancelled h' = kh_cancelled h" "kh_server_id h' = kh_server_id h"
    and sub: "\<And>t c s. kh_get h' t c = Some s \<Longrightarrow> kh_get h t c = Some s \<or> \<not> kst_cancel s \<and> kst_status s = SubscriptionStatusStale"
    and gone: "\<And>r. r \<in> set ss \<Longrightarrow> \<exists>t c. kh_get h t c = Some r \<and> (\<forall>s. kh_get h' t c = Some s \<longrightarrow> \<not> kst_cancel s)"
    and ws: "kh_workers h' = fold cancel_worker ss (kh_workers h)"
  shows "hub_starting pending h'"
proof -
  note R = hub_startingD [OF run]
  have "live_ok (kh_get h') (kh_workers h')"
    using live_ok_fold_cancel [OF R(1,2), of "kh_get h'" ss] sub gone ws by metis
  moreover have "all_served pending (kh_server_id h') (kh_get h')" if "\<not> kh_replaying h'" "\<not> kh_cancelled h'"
    using R(3) that sub unfolding all_served_def fields by metis
  ultimately show ?thesis using ok by (simp add: hub_starting_def)
qed

lemma running_deregister:
  assumes run: "hub_starting pending h" and step: "hub_deregister m h = (h', err)"
  shows "hub_starting pending h'"
proof (cases "h' = h")
  case False
  let ?t = "dereg_topic m"
  let ?ss = "map snd (inner (kh_subscribers h) ?t)"
  have h': "h' = h\<lparr>kh_topics := map_del ?t (kh_topics h), kh_subscribers := map_del ?t (kh_subscribers h),
      kh_workers := fold cancel_worker ?ss (kh_workers h)\<rparr>"
    using step False by (auto simp: hub_deregister_def Let_def split: if_splits)
  have ok: "hub_ok h'"
    using hub_deregister_contract [OF hub_startingD(1) [OF run], of m h' err] step hub_startingD(1) [OF run]
    by (auto simp: hub_methods_def split: if_splits)
  show ?thesis
  proof (rule hub_starting_shrink [OF run ok, where ss = ?ss])
    show "\<exists>t c. kh_get h t c = Some r \<and> (\<forall>s. kh_get h' t c = Some s \<longrightarrow> \<not> kst_cancel s)" if r: "r \<in> set ?ss" for r
    proof -
      have "nested_ok (kh_subscribers h)" using hub_startingD(1) [OF run] by (simp add: hub_ok_def)
      then obtain c where "kh_get h ?t c = Some r" using inner_stored r by blast
      then show ?thesis by (intro exI [of _ ?t] exI [of _ c]) (simp add: h')
    qed
  qed (auto simp: h' split: if_splits)
qed (simp add: run)

lemma running_unsubscribe:
  assumes run: "hub_starting pending h" and step: "hub_unsubscribe q h = (h', err)"
  shows "hub_starting pending h'"
proof (cases "h' = h")
  case False
  let ?t = "unsub_topic (vu_unsubscription q)" and ?c = "unsub_callback (vu_unsubscription q)"
  let ?ss = "case kh_get h ?t ?c of None \<Rightarrow> [] | Some s \<Rightarrow> [s]"
  have h': "h' = h\<lparr>kh_subscribers := nested_del ?t ?c (kh_subscribers h),
      kh_workers := fold cancel_worker ?ss (kh_workers h)\<rparr>"
    using step False by (auto simp: hub_unsubscribe_def Let_def split: if_splits option.split)
  have ok: "hub_ok h'"
    using hub_unsubscribe_contract [OF hub_startingD(1) [OF run], of q h' err] step hub_startingD(1) [OF run]
    by (auto simp: hub_methods_def split: if_splits)
  show ?thesis
  proof (rule hub_starting_shrink [OF run ok, where ss = ?ss])
    show "\<exists>t c. kh_get h t c = Some r \<and> (\<forall>s. kh_get h' t c = Some s \<longrightarrow> \<not> kst_cancel s)" if "r \<in> set ?ss" for r
    proof -
      have "kh_get h ?t ?c = Some r \<and> (\<forall>s. kh_get h' ?t ?c = Some s \<longrightarrow> \<not> kst_cancel s)"
        using that by (auto simp: h' split: option.splits)
      then show ?thesis by blast
    qed
  qed (auto simp: h' split: if_splits)
qed (simp add: run)

lemma running_stale:
  assumes run: "hub_starting pending h" and step: "hub_stale u h = (h', err)"
  shows "hub_starting pending h'"
proof (cases "h' = h")
  case False
  let ?t = "ks_topic u" and ?c = "ks_callback u"
  obtain s where s: "kh_get h ?t ?c = Some s"
    and h': "h' = h\<lparr>kh_subscribers := nested_put ?t ?c (s\<lparr>kst_status := SubscriptionStatusStale, kst_cancel := False\<rparr>)
      (kh_subscribers h), kh_workers := fold cancel_worker [s] (kh_workers h)\<rparr>"
    using step False by (auto simp: hub_stale_def split: if_splits option.splits)
  have ok: "hub_ok h'"
    using hub_stale_contract [OF hub_startingD(1) [OF run], of u h' err] step hub_startingD(1) [OF run]
    by (auto simp: hub_methods_def split: if_splits)
  show ?thesis
  proof (rule hub_starting_shrink [OF run ok, where ss = "[s]"])
    show "\<exists>t c. kh_get h t c = Some r \<and> (\<forall>s. kh_get h' t c = Some s \<longrightarrow> \<not> kst_cancel s)" if "r \<in> set [s]" for r
    proof -
      have "kh_get h ?t ?c = Some r \<and> (\<forall>s. kh_get h' ?t ?c = Some s \<longrightarrow> \<not> kst_cancel s)"
        using that s by (simp add: h' set_entry_def)
      then show ?thesis by blast
    qed
  qed (auto simp: h' set_entry_def split: if_splits)
qed (simp add: run)

lemma running_register:
  assumes run: "hub_starting pending h" and step: "hub_register m h = (h', err)"
  shows "hub_starting pending h'"
  using step hub_register_contract [OF hub_startingD(1) [OF run], of m h' err] hub_startingD [OF run]
  by (auto simp: hub_register_def hub_starting_def hub_methods_def split: if_splits)

text \<open>A subscription stored under a new number, then started.\<close>

lemma put_live:
  assumes "hub_ok h" and "live_ok (kh_get h) (kh_workers h)" and "\<not> kst_cancel s"
  shows "live_ok (set_entry t c s (kh_get h)) (kh_workers h)"
  using assms by (auto simp: live_ok_def set_entry_def)

lemma put_start_running:
  assumes run: "hub_starting pending h" and old: "\<And>old. kh_get h t c = Some old \<Longrightarrow> \<not> kst_cancel old"
    and s: "kst_topic s = t" "kst_callback s = c" "kst_id s = kh_next h" "\<not> kst_cancel s"
    and h1: "h1 = h\<lparr>kh_subscribers := nested_put t c s (kh_subscribers h), kh_next := Suc (kh_next h)\<rparr>"
  shows "hub_starting pending (if kh_replaying h then h1 else startSubscriptionWorker s h1)"
proof -
  note R = hub_startingD [OF run]
  have get: "kh_get h1 = set_entry t c s (kh_get h)" by (simp add: h1)
  have ok: "hub_ok h1" using put_stored_ok [OF R(1) old s] by (simp add: h1)
  have live: "live_ok (kh_get h1) (kh_workers h1)"
    using put_live [OF R(1,2) s(4)] by (simp add: get) (simp add: h1)
  have served: "all_served pending (kh_server_id h) (kh_get (startSubscriptionWorker s h1))"
    if n: "\<not> kh_replaying h" "\<not> kh_cancelled h"
    unfolding all_served_def
  proof (intro allI impI)
    fix t' c' s'
    assume s': "kh_get (startSubscriptionWorker s h1) t' c' = Some s'" "kst_server_id s' = kh_server_id h"
        "kst_status s' \<noteq> SubscriptionStatusStale" "(t', c', kst_id s') \<notin> pending"
    obtain s1 where s1: "kh_get h1 t' c' = Some s1" using start_worker_entry_only s'(1) by blast
    have e: "s'\<lparr>kst_cancel := True\<rparr> = s1\<lparr>kst_cancel := True\<rparr>" "kst_cancel s1 \<longrightarrow> kst_cancel s'"
        "kst_topic s = t' \<longrightarrow> kst_callback s = c' \<longrightarrow> kst_id s = kst_id s1 \<longrightarrow>
        kst_server_id s1 = kh_server_id h1 \<longrightarrow> kst_status s1 \<noteq> SubscriptionStatusStale \<longrightarrow> \<not> kh_cancelled h1 \<longrightarrow> kst_cancel s'"
      using start_worker_entry [OF s1, of s True] s'(1) by simp_all
    note same = cancel_only [OF e(1)]
    show "kst_cancel s'"
    proof (cases "t' = t \<and> c' = c")
      case True
      then have "s1 = s" using s1 by (simp add: get set_entry_def)
      then show ?thesis using e(3) True s(1,2) same s'(2,3) n(2) by (simp add: h1)
    next
      case False
      then have "kh_get h t' c' = Some s1" using s1 unfolding get set_entry_def by metis
      then have "kst_cancel s1" using R(3) n same s'(2-4) unfolding all_served_def by metis
      then show ?thesis using e(2) by simp
    qed
  qed
  show ?thesis
  proof (cases "kh_replaying h")
    case True
    then show ?thesis using ok live by (simp add: hub_starting_def) (simp add: h1)
  next
    case False
    have "hub_ok (startSubscriptionWorker s h1)" using start_worker_ok(1) [OF ok] .
    moreover have "live_ok (kh_get (startSubscriptionWorker s h1)) (kh_workers (startSubscriptionWorker s h1))"
      using start_worker_live [OF ok live] .
    moreover have "kh_cancelled h1 = kh_cancelled h" "kh_server_id h1 = kh_server_id h" by (simp_all add: h1)
    ultimately show ?thesis using False served by (simp add: hub_starting_def)
  qed
qed

lemma running_subscribe:
  assumes run: "hub_starting pending h" and step: "hub_subscribe u h = (h', err)"
  shows "hub_starting pending h'"
proof (cases "h' = h")
  case False
  let ?t = "ks_topic u" and ?c = "ks_callback u"
  let ?new = "\<lambda>v server. \<lparr>kst_verified = v, kst_server_id = server, kst_status = [],
      kst_group = subscriptionGroupName v, kst_cancel = False, kst_id = kh_next h\<rparr>"
  let ?put = "\<lambda>s. h\<lparr>kh_subscribers := nested_put ?t ?c s (kh_subscribers h), kh_next := Suc (kh_next h)\<rparr>"
  let ?start = "\<lambda>s. if kh_replaying h then ?put s else startSubscriptionWorker s (?put s)"
  have h': "h' = (case kh_get h ?t ?c of
      None \<Rightarrow> ?start (?new (ks_verified u) (ks_server_id u))
    | Some old \<Rightarrow> if kst_status old = SubscriptionStatusStale
        then ?start (?new (kst_verified old) (kst_server_id old)) else h)"
    using step False
    by (auto simp: hub_subscribe_def Let_def split: prod.splits option.splits if_splits)
  have put: "hub_starting pending (?start (?new v server))"
    if "sub_topic (vs_subscription v) = ?t" "sub_callback (vs_subscription v) = ?c"
      "\<And>old. kh_get h ?t ?c = Some old \<Longrightarrow> \<not> kst_cancel old" for v server
    using that by (intro put_start_running [OF run]) (simp_all add: kst_topic_def kst_callback_def)
  show ?thesis
  proof (cases "kh_get h ?t ?c")
    case None
    then show ?thesis using h' put [of "ks_verified u" "ks_server_id u"] by (simp add: ks_topic_def ks_callback_def)
  next
    case (Some old)
    note ok = hub_startingD(1) [OF run]
    have stale: "kst_status old = SubscriptionStatusStale" using h' Some False by (auto split: if_splits)
    have "kst_topic old = ?t \<and> kst_callback old = ?c" using hub_get_key [OF ok Some] .
    then show ?thesis
      using h' Some stale put [of "kst_verified old" "kst_server_id old"] stale_no_worker [OF ok Some stale]
      by (simp add: kst_topic_def kst_callback_def)
  qed
qed (simp add: run)

lemma running_event: "hub_starting pending h \<Longrightarrow> dispatch_event hub_methods e h = (h', err) \<Longrightarrow> hub_starting pending h'"
  by (cases e) (auto simp: hub_methods_def intro: running_register running_deregister running_subscribe
      running_stale running_unsubscribe)

lemma running_log: "hub_starting pending h \<Longrightarrow> dispatch_log hub_methods es h = (h', err) \<Longrightarrow> hub_starting pending h'"
  by (induction es arbitrary: h) (auto dest: running_event split: prod.splits option.splits)

lemma running_started:
  assumes "hub_running h"
  shows "hub_running (startReplayedSubscriptionWorkers (h\<lparr>kh_replaying := False\<rparr>))"
    and "hub_view (startReplayedSubscriptionWorkers (h\<lparr>kh_replaying := False\<rparr>)) = hub_view h"
proof -
  let ?h = "h\<lparr>kh_replaying := False\<rparr>"
  have h: "hub_ok ?h" "live_ok (kh_get ?h) (kh_workers ?h)" "hub_view ?h = hub_view h"
    using hub_startingD [OF assms] by (simp_all add: hub_ok_def hub_view_def kh_get_def [abs_def])
  show "hub_view (startReplayedSubscriptionWorkers ?h) = hub_view h"
    using fold_start_ok [OF h(1,2)] h(3) by (simp add: startReplayedSubscriptionWorkers_def)
  show "hub_running (startReplayedSubscriptionWorkers ?h)"
    unfolding startReplayedSubscriptionWorkers_def by (rule fold_start_pending [OF listed_pending [OF h(1,2)]])
qed

section \<open>Who is served\<close>

text \<open>The workers started for a topic and a callback whose context is not cancelled, and the data
  that a stored subscription owes a worker: one worker when this server owns it and it is not
  stale, none otherwise. In a hub that has replayed its log and is not closed the two are equal
  under every topic and callback, stored or not.\<close>

definition workers_at :: "kafka_hub \<Rightarrow> string \<Rightarrow> string \<Rightarrow> kafka_worker list" where
  "workers_at h t c =
     filter (\<lambda>w. \<not> kw_cancelled w \<and> sub_topic (vs_subscription (kw_verified w)) = t
         \<and> sub_callback (vs_subscription (kw_verified w)) = c) (kh_workers h)"

fun owed :: "string \<Rightarrow> kafka_subscription option \<Rightarrow> verified_subscription list" where
  "owed server None = []"
| "owed server (Some u) =
     (if ks_server_id u = server \<and> ks_status u \<noteq> SubscriptionStatusStale then [ks_verified u] else [])"

lemma filter_unique: "distinct (map f xs) \<Longrightarrow> x \<in> set xs \<Longrightarrow> P x \<Longrightarrow> filter (\<lambda>y. f y = f x \<and> P y) xs = [x]"
proof (induction xs)
  case (Cons y xs)
  then show ?case
  proof (cases "y = x")
    case True
    then have "filter (\<lambda>y. f y = f x \<and> P y) xs = []"
      using Cons.prems(1) by (auto simp: filter_empty_conv rev_image_eqI)
    then show ?thesis using True Cons.prems(3) by simp
  next
    case False
    then have "f y \<noteq> f x" using Cons.prems by auto
    then show ?thesis using Cons False by simp
  qed
qed simp

lemma worker_stored:
  assumes "hub_ok h" and "w \<in> set (kh_workers h)" and "\<not> kw_cancelled w"
  obtains s where "kh_get h (sub_topic (vs_subscription (kw_verified w))) (sub_callback (vs_subscription (kw_verified w))) = Some s"
    "kst_id s = kw_id w" "kw_verified w = kst_verified s" "kst_cancel s"
proof -
  have W: "workers_ok (kh_server_id h) (kh_get h) (kh_next h) (kh_workers h)" using assms(1) by (simp add: hub_ok_def)
  obtain t c s where s: "kh_get h t c = Some s" "kst_id s = kw_id w" "kw_verified w = kst_verified s" "kst_cancel s"
    using workers_okD(5) [OF W assms(2,3)] by blast
  have "sub_topic (vs_subscription (kw_verified w)) = t" "sub_callback (vs_subscription (kw_verified w)) = c"
    using hub_get_key [OF assms(1) s(1)] s(3) by (simp_all add: kst_topic_def kst_callback_def)
  then show thesis by (intro that [of s]) (simp_all add: s)
qed

lemma workers_at_stored:
  assumes ok: "hub_ok h" and s: "kh_get h t c = Some s"
  shows "workers_at h t c = filter (\<lambda>w. kw_id w = kst_id s \<and> \<not> kw_cancelled w) (kh_workers h)"
  unfolding workers_at_def
proof (rule filter_cong [OF refl])
  fix w assume w: "w \<in> set (kh_workers h)"
  have W: "workers_ok (kh_server_id h) (kh_get h) (kh_next h) (kh_workers h)" using ok by (simp add: hub_ok_def)
  show "(\<not> kw_cancelled w \<and> sub_topic (vs_subscription (kw_verified w)) = t
      \<and> sub_callback (vs_subscription (kw_verified w)) = c) = (kw_id w = kst_id s \<and> \<not> kw_cancelled w)"
  proof (cases "kw_cancelled w")
    case False
    obtain s' where s': "kh_get h (sub_topic (vs_subscription (kw_verified w)))
        (sub_callback (vs_subscription (kw_verified w))) = Some s'" "kst_id s' = kw_id w"
      using worker_stored [OF ok w False] by blast
    then show ?thesis using workers_okD(2) [OF W s'(1) s] s False by auto
  qed simp
qed

lemma served_exactly:
  assumes run: "hub_running h" and settled: "\<not> kh_replaying h" "\<not> kh_cancelled h"
  shows "map kw_verified (workers_at h t c) = owed (kh_server_id h) (rp_subs (hub_view h) t c)"
proof (cases "kh_get h t c")
  case None
  have False if w: "w \<in> set (workers_at h t c)" for w
  proof -
    have "w \<in> set (kh_workers h)" "\<not> kw_cancelled w" using w by (simp_all add: workers_at_def)
    then obtain s where "kh_get h (sub_topic (vs_subscription (kw_verified w)))
        (sub_callback (vs_subscription (kw_verified w))) = Some s"
      by (rule worker_stored [OF hub_startingD(1) [OF run]])
    then show False using w None by (simp add: workers_at_def)
  qed
  then have "workers_at h t c = []" using list.set_intros(1) by (metis list.exhaust)
  then show ?thesis using None by simp
next
  case (Some s)
  note R = hub_startingD [OF run]
  have W: "workers_ok (kh_server_id h) (kh_get h) (kh_next h) (kh_workers h)" using R(1) by (simp add: hub_ok_def)
  note D = workers_okD [OF W] and at = workers_at_stored [OF R(1) Some]
  have held: "kst_cancel s \<longleftrightarrow> kst_server_id s = kh_server_id h \<and> kst_status s \<noteq> SubscriptionStatusStale"
    using D(6) [OF Some] R(3) settled Some unfolding all_served_def by blast
  show ?thesis
  proof (cases "kst_cancel s")
    case True
    obtain w where w: "w \<in> set (kh_workers h)" "kw_id w = kst_id s" using D(6) [OF Some True] by auto
    have live: "\<not> kw_cancelled w" using live_okD [OF R(2) Some True w] .
    obtain s' where s': "kh_get h (sub_topic (vs_subscription (kw_verified w)))
        (sub_callback (vs_subscription (kw_verified w))) = Some s'" "kst_id s' = kw_id w" "kw_verified w = kst_verified s'"
      using worker_stored [OF R(1) w(1) live] by blast
    then have "s' = s" using D(2) [OF s'(1) Some] w(2) Some by simp
    moreover have "workers_at h t c = [w]"
      using filter_unique [of kw_id "kh_workers h" w "\<lambda>w. \<not> kw_cancelled w"] D(3) w live by (simp add: at)
    ultimately show ?thesis using Some held True s'(3) by (simp add: stored_entry_def)
  next
    case False
    have no: "kw_id w \<noteq> kst_id s" if w: "w \<in> set (kh_workers h)" "\<not> kw_cancelled w" for w
    proof
      assume "kw_id w = kst_id s"
      moreover obtain s' where s': "kh_get h (sub_topic (vs_subscription (kw_verified w)))
          (sub_callback (vs_subscription (kw_verified w))) = Some s'" "kst_id s' = kw_id w" "kst_cancel s'"
        using worker_stored [OF R(1) w] by blast
      ultimately show False using D(2) [OF s'(1) Some] Some False by auto
    qed
    then have "workers_at h t c = []" by (auto simp: at filter_empty_conv)
    then show ?thesis using Some held False by (auto simp: stored_entry_def)
  qed
qed

end
