(* ===== verification/KafkaProps.thy ===== *)
theory KafkaProps
  imports KafkaService KafkaWorkers
begin

text \<open>
  What holds of the Kafka hub at work: how often and what it sends for one message, that a batch
  is committed only after every message of it was answered with success, what its callbacks
  publish and leave alone, and that a hub which starts from a snapshot and a retained log ends
  in the state of the log with exactly the workers it owes.
\<close>

section \<open>One message\<close>

definition distribution :: "content_message \<Rightarrow> content_distribution" where
  "distribution m = \<lparr>cd_content_type = cm_content_type m, cd_body = cloneBytes (cm_body m), cd_header = None\<rparr>"

definition answered_ok :: "exchange \<Rightarrow> bool" where
  "answered_ok ex \<longleftrightarrow> (case snd ex of None \<Rightarrow> False | Some r \<Rightarrow> 200 \<le> rs_status r \<and> rs_status r < 300)"

lemma validateHeaders_None [simp]: "validateHeaders None reserved = None"
  by (simp add: validateHeaders_def)

lemma Deliver_exchanges:
  assumes "Deliver (Some client) rt b (distribution m) = (b', exs, answer, err)"
  shows "(exs = [] \<and> err \<noteq> None \<or> (\<exists>resp. exs = [(delivery_request client (distribution m), resp)]))
    \<and> (err = None \<longrightarrow> exs \<noteq> [] \<and> answered_ok (last exs))"
proof (cases "validateContentType (cd_content_type (distribution m)) = None
    \<and> parse_url (sub_callback (dc_subscription client)) \<noteq> None")
  case True
  then obtain u where u: "validateContentType (cd_content_type (distribution m)) = None"
      "parse_url (sub_callback (dc_subscription client)) = Some u" by blast
  obtain b1 resp where go: "client_do (dc_client client) rt b (delivery_request client (distribution m)) = (b1, resp)"
    by fastforce
  have run: "Deliver (Some client) rt b (distribution m) =
    (case resp of
       None \<Rightarrow> (b1, [(delivery_request client (distribution m), None)], no_delivery,
         Some (errors_join [Sentinel ErrDeliveryFailed, transport_error]))
     | Some r \<Rightarrow> (b1, [(delivery_request client (distribution m), Some r)], delivery_result (dc_max_body client) r))"
    using Deliver_valid [OF u(1) _ u(2), of rt b] go by (simp add: distribution_def split: option.split)
  show ?thesis
  proof (cases resp)
    case None
    then show ?thesis using assms run by auto
  next
    case (Some r)
    then have "delivery_result (dc_max_body client) r = (answer, err)"
      "exs = [(delivery_request client (distribution m), Some r)]" using assms run by simp_all
    then show ?thesis
      using delivery_result_ok [of "dc_max_body client" r] by (auto simp: answered_ok_def)
  qed
next
  case False
  have none: "validateHeaders (cd_header (distribution m)) delivery_reserved = None"
    by (simp add: distribution_def)
  show ?thesis
  proof (cases "validateContentType (cd_content_type (distribution m))")
    case (Some e)
    then show ?thesis
      using Deliver_invalid [of "distribution m" client rt b] assms by auto
  next
    case n: None
    then show ?thesis using Deliver_no_url [OF n none, of client rt b] False assms by auto
  qed
qed

lemma deliver_attempts_exchanges:
  "deliver_attempts env client verified m attempts left last_err b = (b', exs, res) \<Longrightarrow>
     length exs \<le> left \<and> (\<forall>ex \<in> set exs. fst ex = delivery_request client (distribution m))
     \<and> (res = None \<longrightarrow> exs \<noteq> [] \<and> answered_ok (last exs))"
proof (induction left arbitrary: last_err b b' exs res)
  case (Suc left)
  obtain b1 exs1 answer err where one: "Deliver (Some client) (ke_round_trip env) b (distribution m) = (b1, exs1, answer, err)"
    by (metis prod_cases4)
  note D = Deliver_exchanges [OF one]
  have short: "length exs1 \<le> 1" "\<forall>ex \<in> set exs1. fst ex = delivery_request client (distribution m)" using D by auto
  have rest: "length (exs1 @ exs2) \<le> Suc left \<and> (\<forall>ex \<in> set (exs1 @ exs2). fst ex = delivery_request client (distribution m))
      \<and> (res2 = None \<longrightarrow> exs1 @ exs2 \<noteq> [] \<and> answered_ok (last (exs1 @ exs2)))"
    if "deliver_attempts env client verified m attempts left e2 b2 = (b3, exs2, res2)" for e2 b2 b3 exs2 res2
    using Suc.IH [OF that] short by auto
  show ?case
  proof (cases err)
    case None
    then show ?thesis using Suc.prems one D short by (simp add: distribution_def)
  next
    case (Some e)
    have stop: "res \<noteq> None \<and> exs = exs1 \<or> (\<exists>e2 b2 b3 exs2. exs = exs1 @ exs2 \<and>
        deliver_attempts env client verified m attempts left e2 b2 = (b3, exs2, res))"
      using Suc.prems one Some
      by (auto simp: distribution_def split: if_splits prod.splits option.splits)
    then show ?thesis
    proof
      assume "\<exists>e2 b2 b3 exs2. exs = exs1 @ exs2 \<and>
        deliver_attempts env client verified m attempts left e2 b2 = (b3, exs2, res)"
      then show ?thesis using rest by metis
    qed (use short in auto)
  qed
qed simp

section \<open>A batch\<close>

lemma deliver_messages_ok:
  "deliver_messages env h client verified ms b = (b', exs, None) \<Longrightarrow> m \<in> set ms \<Longrightarrow>
     \<exists>ex \<in> set exs. fst ex = delivery_request client (distribution m) \<and> answered_ok ex"
proof (induction ms arbitrary: b exs)
  case (Cons n ms)
  obtain b1 exs1 where one: "deliverContent env h client verified n b = (b1, exs1, None)"
    and rest: "\<exists>exs2. deliver_messages env h client verified ms b1 = (b', exs2, None) \<and> exs = exs1 @ exs2"
    using Cons.prems(1) by (auto split: prod.splits option.splits)
  note A = deliver_attempts_exchanges [OF one [unfolded deliverContent_def]]
  then have "last exs1 \<in> set exs1" by simp
  then show ?case using Cons A rest by fastforce
qed simp

lemma deliverBatch_ok:
  assumes "deliverBatch env h verified ms b = (b', exs, None)" and "m \<in> set ms"
  shows "\<exists>client ex. NewDeliveryClient (vs_subscription verified) (kh_delivery_config h) = Inr client
    \<and> ex \<in> set exs \<and> fst ex = delivery_request client (distribution m) \<and> answered_ok ex"
proof -
  obtain client where client: "NewDeliveryClient (vs_subscription verified) (kh_delivery_config h) = Inr client"
      "deliver_messages env h client verified ms b = (b', exs, None)"
    using assms(1) by (auto simp: deliverBatch_def split: sum.splits)
  then show ?thesis using deliver_messages_ok [OF client(2) assms(2)] by blast
qed

text \<open>Every batch that was committed had been consumed without an error just before, and the
  committed batches are the first non-empty polls, in order.\<close>

lemma committed_prefix:
  "ConsumeSubscription env consume ps b = (b', committed, res) \<Longrightarrow>
     \<exists>k. committed = take k (filter (\<lambda>rs. rs \<noteq> []) (map po_records ps))"
proof (induction ps arbitrary: b b' committed res)
  case (Cons p ps)
  then show ?case
  proof (cases "fetchError p = None")
    case True
    show ?thesis
    proof (cases "po_records p = []")
      case False
      consider "committed = []" | b2 rest where "ConsumeSubscription env consume ps b2 = (b', rest, res)"
          "committed = po_records p # rest"
        using Cons.prems True False by (auto split: prod.splits option.splits)
      then show ?thesis
      proof cases
        case 2
        then obtain k where "rest = take k (filter (\<lambda>rs. rs \<noteq> []) (map po_records ps))" using Cons.IH by blast
        then show ?thesis using 2 False by (intro exI [of _ "Suc k"]) simp
      qed (auto intro: exI [of _ 0])
    qed (use Cons True in auto)
  qed (auto intro: exI [of _ 0])
qed simp

lemma committed_consumed:
  "ConsumeSubscription env consume ps b = (b', committed, res) \<Longrightarrow> batch \<in> set committed \<Longrightarrow>
     \<exists>b1 b2 b3. consume (map message_of batch) b1 = (b2, None) \<and> ke_commit env batch b2 = (b3, None)"
proof (induction ps arbitrary: b b' committed res)
  case (Cons p ps)
  then show ?case
  proof (cases "fetchError p = None")
    case True
    show ?thesis
    proof (cases "po_records p = []")
      case False
      obtain b1 err where c: "consume (map message_of (po_records p)) b = (b1, err)" by fastforce
      obtain b2 err2 where m: "ke_commit env (po_records p) b1 = (b2, err2)" by fastforce
      have none: "err = None" "err2 = None"
        using Cons.prems True False c m by (auto split: option.splits)
      obtain rest where rest: "ConsumeSubscription env consume ps b2 = (b', rest, res)" "committed = po_records p # rest"
        using Cons.prems(1) True False c m none by (auto split: prod.splits)
      then show ?thesis using Cons.IH [OF rest(1)] Cons.prems(2) c m none by auto
    qed (use Cons True in auto)
  qed auto
qed simp

section \<open>What a verified subscription publishes\<close>

text \<open>A verified subscription is refused for one of three reasons, or it is published: with its own
  data when nothing is stored for it, with the stored data when that is stale. The event is one
  that every consumer accepts, and which leaves exactly that subscription stored and active.\<close>

lemma onSubscriptionVerified_exact:
  fixes h :: kafka_hub and b :: 'b and m :: verified_subscription
  defines "t \<equiv> sub_topic (vs_subscription m)" and "c \<equiv> sub_callback (vs_subscription m)"
  assumes valid: "replica_valid (hub_view h)" and server: "kh_server_id h \<noteq> []"
    and m: "sub_mode (vs_subscription m) = ModeSubscribe" "t \<noteq> []" "c \<noteq> []" "sub_hub (vs_subscription m) \<noteq> []"
      "vs_lease_started m \<noteq> 0"
    and leased: "parse_int (vs_effective_lease m) = (n, None)" "0 < n"
    and topic: "rp_topics (hub_view h) t \<noteq> None"
    and free: "\<forall>old. rp_subs (hub_view h) t c = Some old \<longrightarrow> ks_status old = SubscriptionStatusStale"
    and u: "u = (case rp_subs (hub_view h) t c of
        None \<Rightarrow> \<lparr>ks_verified = m, ks_server_id = kh_server_id h, ks_status = []\<rparr>
      | Some old \<Rightarrow> old\<lparr>ks_status := []\<rparr>)"
  shows "kafka_onSubscriptionVerified env (h, b) m md =
      ((h, fst (publish_event env (EventSubscribe u) b)), Returned (snd (publish_event env (EventSubscribe u) b)))"
    and "event_valid (EventSubscribe u)"
    and "rp_subs (replica_step (EventSubscribe u) (hub_view h)) t c = Some u"
proof -
  have has: "kafka_hasTopic h t" using topic by (simp add: kafka_hasTopic_def map_has_def)
  show "kafka_onSubscriptionVerified env (h, b) m md =
      ((h, fst (publish_event env (EventSubscribe u) b)), Returned (snd (publish_event env (EventSubscribe u) b)))"
    using leased has free unfolding t_def c_def
    by (auto simp: kafka_onSubscriptionVerified_def u t_def c_def Let_def NewSubscription_def stored_entry_def
        split: option.split prod.split)
  have old: "entry_valid old \<and> ks_topic old = t \<and> ks_callback old = c" if "rp_subs (hub_view h) t c = Some old" for old
    using valid that unfolding replica_valid_def by blast
  show "event_valid (EventSubscribe u)"
    using m leased server old by (auto simp: u entry_valid_def subscribe_valid_def ks_topic_def ks_callback_def t_def c_def split: option.split)
  show "rp_subs (replica_step (EventSubscribe u) (hub_view h)) t c = Some u"
    using old free by (auto simp: u replica_step_def ks_topic_def ks_callback_def t_def c_def is_stale_def split: option.split)
qed

lemma onSubscriptionVerified_refuses:
  fixes h :: kafka_hub and b :: 'b and m :: verified_subscription
  defines "t \<equiv> sub_topic (vs_subscription m)" and "c \<equiv> sub_callback (vs_subscription m)"
  shows "\<not> (\<exists>n. parse_int (vs_effective_lease m) = (n, None) \<and> 0 < n) \<Longrightarrow>
      kafka_onSubscriptionVerified env (h, b) m md = ((h, b), Returned (Some (AppError ''invalid effective lease'')))"
    and "\<exists>n. parse_int (vs_effective_lease m) = (n, None) \<and> 0 < n \<Longrightarrow> rp_topics (hub_view h) t = None \<Longrightarrow>
      kafka_onSubscriptionVerified env (h, b) m md = ((h, b), Returned (Some (DeniedError ''topic is not registered'' None)))"
    and "\<exists>n. parse_int (vs_effective_lease m) = (n, None) \<and> 0 < n \<Longrightarrow> rp_topics (hub_view h) t \<noteq> None \<Longrightarrow>
      rp_subs (hub_view h) t c = Some old \<Longrightarrow> ks_status old \<noteq> SubscriptionStatusStale \<Longrightarrow>
      kafka_onSubscriptionVerified env (h, b) m md = ((h, b), Returned (Some (DeniedError ''subscriber is already registered'' None)))"
  by (auto simp: kafka_onSubscriptionVerified_def refused_def kafka_hasTopic_def map_has_def t_def c_def Let_def stored_entry_def split: prod.split)

section \<open>The start\<close>

lemma delivered_names [simp]: "delivered (map name_poll_errors ps) = delivered ps"
  by (induction ps) (simp_all add: name_poll_errors_def)

lemma hub_handler_valid:
  assumes "hub_starting pending h" and "decodes_to codec p e" and "event_valid e"
  shows "\<exists>h'. hub_handler codec offset p h = (h', None) \<and> hub_starting pending h' \<and> hub_view h' = replica_step e (hub_view h)
    \<and> kh_cancelled h' = kh_cancelled h \<and> kh_replaying h' = kh_replaying h
    \<and> kh_server_id h' = kh_server_id h"
proof -
  obtain h' err where step: "dispatch_event hub_methods e h = (h', err)" by fastforce
  then have "err = None" "hub_view h' = replica_step e (hub_view h)"
    using hub.dispatch_contract [OF hub_startingD(1) [OF assms(1)] _ step] assms(3) by simp_all
  moreover have "kh_cancelled h' = kh_cancelled h" "kh_replaying h' = kh_replaying h" "kh_server_id h' = kh_server_id h"
    using step by (cases e; auto simp: hub_methods_def hub_apply_defs Let_def split: prod.splits option.splits if_splits)+
  ultimately show ?thesis
    using running_event [OF assms(1) step] step ApplyEvent_decoded [OF assms(2,3), of hub_methods h]
    by (simp add: hub_handler_def)
qed

lemma apply_from_hub_handler:
  assumes "list_all2 (decodes_to codec) ps es" and "list_all event_valid es" and "hub_running h"
    and "apply_from (hub_handler codec) offset ps h = (h', err)"
  shows "err = None \<and> hub_running h' \<and> hub_view h' = fold replica_step es (hub_view h)
    \<and> kh_cancelled h' = kh_cancelled h \<and> kh_replaying h' = kh_replaying h
    \<and> kh_server_id h' = kh_server_id h"
  using assms
proof (induction arbitrary: h offset rule: list_all2_induct)
  case (Cons p ps e es)
  obtain h1 where h1: "hub_handler codec offset p h = (h1, None)" "hub_running h1"
      "hub_view h1 = replica_step e (hub_view h)" "kh_cancelled h1 = kh_cancelled h" "kh_replaying h1 = kh_replaying h"
      "kh_server_id h1 = kh_server_id h"
    using hub_handler_valid [OF Cons.prems(2) Cons.hyps(1), of offset] Cons.prems(1) by auto
  then show ?case
    using Cons.IH [of h1 "offset + 1"] Cons.prems by simp
qed simp

lemma new_kafka_hub_running:
  assumes "new_kafka_hub options = Inr h"
  shows "hub_running h \<and> hub_view h = empty_replica \<and> kh_replaying h \<and> \<not> kh_cancelled h
    \<and> kh_server_id h = kop_server_id options"
  using assms
  by (auto simp: new_kafka_hub_def Let_def hub_starting_def hub_ok_def workers_ok_def live_ok_def hub_view_def
      empty_replica_def kh_get_def fun_eq_iff split: if_splits)

lemma start_restored:
  assumes "hub_running h" and "hub_view h = empty_replica" and "list_all event_valid es"
    and "snapshot_of sn (state_of es)" and "applySnapshot sn h = (h', err)"
  shows "err = None \<and> hub_running h' \<and> hub_view h' = state_of es"
  using hub.restore_contract [OF hub_startingD(1) [OF assms(1)] assms(2-4) _ assms(5) [unfolded applySnapshot_def]]
    running_log [OF assms(1) assms(5) [unfolded applySnapshot_def restore_def]]
  by (simp add: list_all_iff)

lemma log_fields:
  "dispatch_log hub_methods es h = (h', err) \<Longrightarrow> kh_cancelled h' = kh_cancelled h \<and> kh_replaying h' = kh_replaying h
    \<and> kh_server_id h' = kh_server_id h"
proof (induction es arbitrary: h)
  case (Cons e es)
  have one: "kh_cancelled h1 = kh_cancelled h \<and> kh_replaying h1 = kh_replaying h \<and> kh_server_id h1 = kh_server_id h"
    if "dispatch_event hub_methods e h = (h1, err1)" for h1 err1
    using that by (cases e; auto simp: hub_methods_def hub_apply_defs Let_def split: prod.splits option.splits if_splits)
  then show ?case using Cons by (auto split: prod.splits option.splits)
qed simp

text \<open>The retained log starts at \<open>base\<close>; the snapshot is the state after the first \<open>n\<close> events.\<close>

lemma kafka_start:
  assumes valid: "list_all event_valid es" and sn: "snapshot_of sn (state_of (take n es))"
    and base: "base \<le> n" "n \<le> E" "E \<le> length es" "length es < 2 ^ 63"
    and vs: "list_all2 (decodes_to codec) vs (drop base es)"
    and kafka: "list_all (of_log topic (int base) vs) (delivered ps)" "gapless topic (int base) (delivered ps)"
    and run: "kafka_New codec topic options (Inr sn) (Inr (int E)) ps = HubStarted h offset"
  shows "hub_running h \<and> \<not> kh_replaying h \<and> \<not> kh_cancelled h \<and> hub_view h = state_of (take E es)
    \<and> offset = int E \<and> kh_server_id h = kop_server_id options"
proof -
  have cut: "take n es @ drop n (take E es) = take E es"
    using base by (metis append_take_drop_id min.absorb1 take_take)
  have tail: "drop base (take n es) @ drop n (take E es) = drop base (take E es)"
    using base by (subst cut [symmetric]) simp
  have all: "list_all event_valid (take k es)" for k
    using valid by (auto simp: list_all_iff dest: in_set_takeD)
  obtain h0 where h0: "new_kafka_hub options = Inr h0" using run by (auto simp: kafka_New_def kafka_recover_def split: sum.splits)
  note start = new_kafka_hub_running [OF h0]
  obtain h1 err where h1: "applySnapshot sn h0 = (h1, err)" by fastforce
  have r: "err = None" "hub_running h1" "hub_view h1 = state_of (take n es)"
    using start_restored [OF _ _ all sn h1] start by simp_all
  have f1: "\<not> kh_cancelled h1" "kh_server_id h1 = kop_server_id options"
    using log_fields h1 start by (simp_all add: applySnapshot_def restore_def)
  obtain h2 where replay: "ReplayEvents topic (hub_handler codec) (Inr (int E)) (map name_poll_errors ps) 0 h1 =
      (offset, h2, ConsumeReturned None)"
    and h: "h = startReplayedSubscriptionWorkers (h2\<lparr>kh_replaying := False\<rparr>)"
    using run h0 h1 r(1)
    by (auto simp: kafka_New_def kafka_recover_def hub_ReplayEvents_def split: prod.splits consumed.splits option.splits)
  have len: "int base + int (length vs) < 2 ^ 63"
    using base list_all2_lengthD [OF vs] by simp
  have applied: "apply_from (hub_handler codec) (int base) (take (E - base) vs) h1 = (h2, None)"
    and off: "offset = int E"
    using replay_applies_log [OF _ len _ _ _ replay] kafka by (simp_all add: nat_diff_distrib' flip: of_nat_diff)
  have events: "list_all2 (decodes_to codec) (take (E - base) vs) (drop base (take E es))"
    using list_all2_takeI [OF vs, of "E - base"] by (simp add: drop_take)
  have "list_all event_valid (drop base (take E es))"
    using all by (auto simp: list_all_iff dest: in_set_dropD)
  note result = apply_from_hub_handler [OF events this r(2) applied]
  have "fold replica_step (drop base (take E es)) (state_of (take n es)) = state_of (take E es)"
    using fold_replay [of "take n es" "drop n (take E es)" base] all [of E] base cut tail by simp
  then have h2: "hub_running h2" "hub_view h2 = state_of (take E es)" "\<not> kh_cancelled h2"
      "kh_server_id h2 = kop_server_id options"
    using result r(3) f1 by simp_all
  have "\<not> kh_replaying h \<and> \<not> kh_cancelled h \<and> kh_server_id h = kop_server_id options"
  proof -
    have "hub_ok (h2\<lparr>kh_replaying := False\<rparr>)" "live_ok (kh_get (h2\<lparr>kh_replaying := False\<rparr>)) (kh_workers (h2\<lparr>kh_replaying := False\<rparr>))"
      using hub_startingD [OF h2(1)] by (simp_all add: hub_ok_def kh_get_def [abs_def])
    from fold_start_ok [OF this] show ?thesis using h2(3,4) by (simp add: h startReplayedSubscriptionWorkers_def)
  qed
  then show ?thesis using running_started [OF h2(1)] h2(2) off by (simp add: h)
qed

section \<open>The replay returns\<close>

text \<open>With polls that do not fail and a handler that accepts the events, the replay returns as soon
  as the record before the captured end has been delivered.\<close>

definition accepts :: "string \<Rightarrow> 's event_handler \<Rightarrow> ('s \<Rightarrow> bool) \<Rightarrow> kafka_record list \<Rightarrow> bool" where
  "accepts topic handler I rs \<longleftrightarrow>
     (\<forall>r \<in> set rs. event_record topic r \<longrightarrow> (\<forall>s. I s \<longrightarrow> (\<exists>s'. handler (kr_offset r) (kr_value r) s = (s', None) \<and> I s')))"

lemma consume_record_reaches:
  assumes "accepts topic handler I [r]" and "I s" and "0 \<le> pos" "pos \<le> E" and "E < 2 ^ 63"
  shows "\<exists>pos1 s1. consume_record topic E handler r (pos, s, None) = (pos1, s1, None) \<and> I s1 \<and> pos \<le> pos1 \<and> pos1 \<le> E
    \<and> (event_record topic r \<and> kr_offset r = E - 1 \<longrightarrow> pos1 = E)"
proof (cases "event_record topic r \<and> pos \<le> kr_offset r \<and> kr_offset r < E")
  case True
  then obtain s1 where "handler (kr_offset r) (kr_value r) s = (s1, None)" "I s1"
    using assms(1,2) by (auto simp: accepts_def)
  moreover have "wrap64 (kr_offset r + 1) = kr_offset r + 1"
    using True assms(3,5) by (intro wrap64_next) simp_all
  ultimately show ?thesis using True by (simp add: consume_record_def event_record_def)
next
  case False
  then have "consume_record topic E handler r (pos, s, None) = (pos, s, None)"
    using assms(3,4) by (auto simp: consume_record_def event_record_def)
  then show ?thesis using False assms(2-4) by auto
qed

lemma consume_batch_reaches:
  assumes "accepts topic handler I rs" and "I s" and "0 \<le> pos" "pos \<le> E" and "E < 2 ^ 63"
  shows "\<exists>pos' s'. consume_batch topic E handler rs pos s = (pos', s', None) \<and> I s' \<and> pos \<le> pos' \<and> pos' \<le> E
    \<and> ((\<exists>r \<in> set rs. event_record topic r \<and> kr_offset r = E - 1) \<longrightarrow> pos' = E)"
  using assms(1-4)
proof (induction rs arbitrary: pos s)
  case Nil
  then show ?case by (simp add: consume_batch_def)
next
  case (Cons r rs)
  have acc: "accepts topic handler I [r]" "accepts topic handler I rs"
    using Cons.prems(1) by (simp_all add: accepts_def)
  obtain pos1 s1 where one: "consume_record topic E handler r (pos, s, None) = (pos1, s1, None)" "I s1" "pos \<le> pos1"
      "pos1 \<le> E" "event_record topic r \<and> kr_offset r = E - 1 \<longrightarrow> pos1 = E"
    using consume_record_reaches [OF acc(1) Cons.prems(2-4) assms(5)] by blast
  have "0 \<le> pos1" using one(3) Cons.prems(3) by simp
  then obtain pos' s' where rest: "consume_batch topic E handler rs pos1 s1 = (pos', s', None)" "I s'" "pos1 \<le> pos'"
      "pos' \<le> E" "(\<exists>r \<in> set rs. event_record topic r \<and> kr_offset r = E - 1) \<longrightarrow> pos' = E"
    using Cons.IH [OF acc(2) one(2) _ one(4)] by blast
  have "consume_batch topic E handler (r # rs) pos s = (pos', s', None)"
    using rest(1) by (simp add: consume_batch_def one(1))
  moreover have "pos \<le> pos'" using one(3) rest(3) by simp
  moreover have "pos' = E" if "\<exists>r \<in> set (r # rs). event_record topic r \<and> kr_offset r = E - 1"
    using that one(5) rest(3-5) by auto
  ultimately show ?case using rest(2,4) by blast
qed

lemma replay_returns:
  assumes "accepts topic handler I (delivered ps)" and "I s" and "0 \<le> pos" "pos < E" and "E < 2 ^ 63"
    and "\<forall>p \<in> set ps. fetchError p = None"
    and "\<exists>r \<in> set (delivered ps). event_record topic r \<and> kr_offset r = E - 1"
  shows "\<exists>s'. consumeEvents topic handler E ps pos s = (E, s', ConsumeReturned None)"
  using assms(1-4,6,7)
proof (induction ps arbitrary: pos s)
  case (Cons p ps)
  have acc: "accepts topic handler I (po_records p)" "accepts topic handler I (delivered ps)"
    using Cons.prems(1) by (auto simp: accepts_def)
  obtain pos1 s1 where one: "consume_batch topic E handler (po_records p) pos s = (pos1, s1, None)" "I s1"
      "pos \<le> pos1" "pos1 \<le> E" "(\<exists>r \<in> set (po_records p). event_record topic r \<and> kr_offset r = E - 1) \<longrightarrow> pos1 = E"
    using consume_batch_reaches [OF acc(1) Cons.prems(2,3) less_imp_le [OF Cons.prems(4)] assms(5)] by blast
  show ?case
  proof (cases "pos1 = E")
    case True
    then show ?thesis using one(1) Cons.prems(3,4,5) by simp
  next
    case False
    have "\<exists>r \<in> set (delivered ps). event_record topic r \<and> kr_offset r = E - 1"
      using one(5) Cons.prems(6) False by auto
    then have "\<exists>s'. consumeEvents topic handler E ps pos1 s1 = (E, s', ConsumeReturned None)"
      using Cons.IH [OF acc(2) one(2), of pos1] Cons.prems(3,5) one(3,4) False by simp
    then show ?thesis using one(1,4) Cons.prems(5) False by simp
  qed
qed simp

text \<open>Without that record it goes on polling.\<close>

lemma replay_waits:
  assumes "accepts topic handler I (delivered ps)" and "I s" and "0 \<le> pos" "pos < E" and "E < 2 ^ 63"
    and "\<forall>p \<in> set ps. fetchError p = None"
    and "\<forall>r \<in> set (delivered ps). event_record topic r \<longrightarrow> kr_offset r \<noteq> E - 1"
  shows "\<exists>pos' s'. consumeEvents topic handler E ps pos s = (pos', s', Polling) \<and> pos' < E \<and> I s'"
  using assms(1-4,6,7)
proof (induction ps arbitrary: pos s)
  case (Cons p ps)
  have acc: "accepts topic handler I (po_records p)" "accepts topic handler I (delivered ps)"
    using Cons.prems(1) by (auto simp: accepts_def)
  obtain pos1 s1 where one: "consume_batch topic E handler (po_records p) pos s = (pos1, s1, None)" "I s1" "pos \<le> pos1"
    using consume_batch_reaches [OF acc(1) Cons.prems(2,3) less_imp_le [OF Cons.prems(4)] assms(5)] by blast
  have "pos1 < E"
    using consume_batch_below [of "po_records p" topic E pos handler s] Cons.prems(3,4,6) assms(5) one(1) by simp
  then show ?case using Cons.IH [OF acc(2) one(2), of pos1] Cons.prems(3,5,6) one(1,3) by simp
qed simp

text \<open>So a hub whose options are right starts when the snapshot can be had and the log is delivered.\<close>

lemma kafka_starts:
  assumes options: "new_kafka_hub options = Inr h0" and valid: "list_all event_valid es"
    and sn: "snapshot_of sn (state_of (take n es))" and E: "0 < E" "E < 2 ^ 63"
    and polls: "\<forall>p \<in> set ps. fetchError p = None"
    and records: "\<forall>r \<in> set (delivered ps). event_record topic r \<longrightarrow> (\<exists>e. decodes_to codec (kr_value r) e \<and> event_valid e)"
    and last: "\<exists>r \<in> set (delivered ps). event_record topic r \<and> kr_offset r = E - 1"
  shows "\<exists>h. kafka_New codec topic options (Inr sn) (Inr E) ps = HubStarted h E"
proof -
  have all: "list_all event_valid (take n es)"
    using valid by (auto simp: list_all_iff dest: in_set_takeD)
  note start = new_kafka_hub_running [OF options]
  obtain h1 err where h1: "applySnapshot sn h0 = (h1, err)" by fastforce
  have r: "err = None" "hub_running h1"
    using start_restored [OF _ _ all sn h1] start by simp_all
  have named: "\<forall>p \<in> set (map name_poll_errors ps). fetchError p = None"
    using polls by (auto simp: fetchError_def name_poll_errors_def split: option.splits list.splits)
  have "\<exists>h2. consumeEvents topic (hub_handler codec) E (map name_poll_errors ps) 0 h1 = (E, h2, ConsumeReturned None)"
  proof (rule replay_returns [where I = hub_running])
    show "accepts topic (hub_handler codec) hub_running (delivered (map name_poll_errors ps))"
      unfolding accepts_def delivered_names using records hub_handler_valid by metis
  qed (use r(2) E named last in simp_all)
  then show ?thesis
    using options h1 r(1) E by (auto simp: kafka_New_def kafka_recover_def hub_ReplayEvents_def ReplayEvents_def)
qed

end
