(* ===== verification/Consolidator.thy ===== *)
theory Consolidator
  imports StateCodec "HOL-Library.List_Lexorder" "HOL-Library.Product_Lexorder" "HOL-Library.Char_ord"
    "HOL-Library.Multiset"
begin

text \<open>
  The consolidator of the Kafka example (\<open>examples/kafka-websubhub/consolidator/consolidator.go\<close>):
  the materialized state, the five methods of \<open>state.Consumer\<close>, \<open>restore\<close>, the deterministic
  snapshot and \<open>consumeEvent\<close>.

  Subscriptions are kept in one flat map under the key topic, NUL, callback. On that map
  \<open>pair_store\<close> is interpreted for callbacks without a NUL byte, which every callback that the
  library accepted is (\<open>validated_no_nul\<close>), and \<open>event_consumer\<close> is interpreted on the
  methods. Lemmas: the snapshot lists exactly the state and does not depend on the iteration
  order of the maps; one event publishes one snapshot with the next revision.
\<close>

record consolidator =
  cn_topics :: "(string, topic_registration) gomap"
  cn_subscriptions :: "(string, kafka_subscription) gomap"
  cn_revision :: "64 word"

definition new_consolidator :: "64 word \<Rightarrow> consolidator" where
  "new_consolidator revision = \<lparr>cn_topics = [], cn_subscriptions = [], cn_revision = revision\<rparr>"

definition subscriptionKey :: "string \<Rightarrow> string \<Rightarrow> string" where
  "subscriptionKey topic callback = topic @ [CHR 0x00] @ callback"

section \<open>The methods\<close>

definition consolidator_register ::
    "topic_registration \<Rightarrow> consolidator \<Rightarrow> consolidator \<times> error option" where
  "consolidator_register registration c =
     (if reg_mode registration \<noteq> ModeRegister \<or> reg_topic registration = []
      then (c, Some (AppError ''invalid topic registration event''))
      else (c\<lparr>cn_topics := map_put (reg_topic registration) registration (cn_topics c)\<rparr>, None))"

definition consolidator_deregister ::
    "topic_deregistration \<Rightarrow> consolidator \<Rightarrow> consolidator \<times> error option" where
  "consolidator_deregister deregistration c =
     (if dereg_mode deregistration \<noteq> ModeDeregister \<or> dereg_topic deregistration = []
      then (c, Some (AppError ''invalid topic deregistration event''))
      else (c\<lparr>cn_topics := map_del (dereg_topic deregistration) (cn_topics c),
              cn_subscriptions := filter (\<lambda>(_, s). ks_topic s \<noteq> dereg_topic deregistration)
                (cn_subscriptions c)\<rparr>, None))"

definition consolidator_subscribe ::
    "kafka_subscription \<Rightarrow> consolidator \<Rightarrow> consolidator \<times> error option" where
  "consolidator_subscribe subscription c =
     (case parse_int (vs_effective_lease (ks_verified subscription)) of (leaseSeconds, err) \<Rightarrow>
        if err \<noteq> None \<or> leaseSeconds \<le> 0
          \<or> sub_mode (vs_subscription (ks_verified subscription)) \<noteq> ModeSubscribe
          \<or> ks_topic subscription = [] \<or> ks_callback subscription = []
          \<or> sub_hub (vs_subscription (ks_verified subscription)) = []
          \<or> vs_lease_started (ks_verified subscription) = 0
          \<or> ks_server_id subscription = [] \<or> ks_status subscription \<noteq> []
        then (c, Some (AppError ''invalid verified subscription event''))
        else
          let key = subscriptionKey (ks_topic subscription) (ks_callback subscription)
          in case map_get (cn_subscriptions c) key of
               None \<Rightarrow> (c\<lparr>cn_subscriptions := map_put key subscription (cn_subscriptions c)\<rparr>, None)
             | Some existing \<Rightarrow>
                 if ks_status existing \<noteq> SubscriptionStatusStale then (c, None)
                 else (c\<lparr>cn_subscriptions := map_put key (existing\<lparr>ks_status := []\<rparr>) (cn_subscriptions c)\<rparr>,
                       None))"

definition consolidator_stale ::
    "kafka_subscription \<Rightarrow> consolidator \<Rightarrow> consolidator \<times> error option" where
  "consolidator_stale subscription c =
     (if ks_status subscription \<noteq> SubscriptionStatusStale
        \<or> sub_mode (vs_subscription (ks_verified subscription)) \<noteq> ModeSubscribe
        \<or> ks_topic subscription = [] \<or> ks_callback subscription = [] \<or> ks_server_id subscription = []
      then (c, Some (AppError ''invalid stale subscription event''))
      else
        let key = subscriptionKey (ks_topic subscription) (ks_callback subscription)
        in case map_get (cn_subscriptions c) key of
             None \<Rightarrow> (c, None)
           | Some existing \<Rightarrow>
               if ks_server_id existing = ks_server_id subscription
                 \<and> vs_lease_started (ks_verified existing) = vs_lease_started (ks_verified subscription)
               then (c\<lparr>cn_subscriptions := map_put key (existing\<lparr>ks_status := SubscriptionStatusStale\<rparr>)
                        (cn_subscriptions c)\<rparr>, None)
               else (c, None))"

definition consolidator_unsubscribe ::
    "verified_unsubscription \<Rightarrow> consolidator \<Rightarrow> consolidator \<times> error option" where
  "consolidator_unsubscribe verified c =
     (if unsub_mode (vu_unsubscription verified) \<noteq> ModeUnsubscribe
        \<or> unsub_topic (vu_unsubscription verified) = [] \<or> unsub_callback (vu_unsubscription verified) = []
      then (c, Some (AppError ''invalid verified unsubscription event''))
      else (c\<lparr>cn_subscriptions := map_del (subscriptionKey (unsub_topic (vu_unsubscription verified))
                (unsub_callback (vu_unsubscription verified))) (cn_subscriptions c)\<rparr>, None))"

definition consolidator_methods :: "consolidator event_methods" where
  "consolidator_methods =
     \<lparr>ApplyTopicRegistration = consolidator_register, ApplyTopicDeregistration = consolidator_deregister,
      ApplySubscription = consolidator_subscribe, ApplyStaleSubscription = consolidator_stale,
      ApplyUnsubscription = consolidator_unsubscribe\<rparr>"

lemmas consolidator_apply_defs = consolidator_register_def consolidator_deregister_def
  consolidator_subscribe_def consolidator_stale_def consolidator_unsubscribe_def

section \<open>The flat map\<close>

definition no_nul :: "string \<Rightarrow> bool" where
  "no_nul s \<longleftrightarrow> CHR 0x00 \<notin> set s"

lemma subscriptionKey_inj:
  assumes "no_nul c" and "no_nul c'"
  shows "subscriptionKey t c = subscriptionKey t' c' \<longleftrightarrow> t = t' \<and> c = c'"
proof
  assume eq: "subscriptionKey t c = subscriptionKey t' c'"
  have split: "takeWhile (\<lambda>x. x \<noteq> CHR 0x00) (rev (subscriptionKey t c)) = rev c"
    if "no_nul c" for t c
    using that by (subst subscriptionKey_def, subst rev_append)
      (auto simp: no_nul_def takeWhile_tail intro!: takeWhile_append2 [THEN trans])
  have "rev c = rev c'" using split [OF assms(1)] split [OF assms(2)] eq by metis
  then show "t = t' \<and> c = c'" using eq by (simp add: subscriptionKey_def)
qed simp

definition flat_get :: "(string, kafka_subscription) gomap \<Rightarrow> string \<Rightarrow> string \<Rightarrow> kafka_subscription option" where
  "flat_get m t c =
     (case map_get m (subscriptionKey t c) of
        None \<Rightarrow> None
      | Some s \<Rightarrow> if ks_topic s = t \<and> ks_callback s = c then Some s else None)"

definition flat_ok :: "(string, kafka_subscription) gomap \<Rightarrow> bool" where
  "flat_ok m \<longleftrightarrow> map_ok m
     \<and> (\<forall>(k, s) \<in> set m. k = subscriptionKey (ks_topic s) (ks_callback s) \<and> no_nul (ks_callback s))"

definition flat_put where "flat_put t c s m = map_put (subscriptionKey t c) s m"
definition flat_del where "flat_del t c m = map_del (subscriptionKey t c) m"
definition flat_del_all where "flat_del_all t m = filter (\<lambda>(_, s). ks_topic s \<noteq> t) m"
definition flat_valid :: "string \<Rightarrow> string \<Rightarrow> bool" where "flat_valid t c = no_nul c"
definition flat_fits where "flat_fits t c s \<longleftrightarrow> ks_topic s = t \<and> ks_callback s = c"

lemma flat_entry:
  "flat_ok m \<Longrightarrow> map_get m k = Some s \<Longrightarrow> k = subscriptionKey (ks_topic s) (ks_callback s) \<and> no_nul (ks_callback s)"
  by (auto simp: flat_ok_def dest!: map_get_in)

text \<open>For a callback without NUL the key finds the entry of that topic and callback only.\<close>

lemma flat_get_raw:
  "flat_ok m \<Longrightarrow> no_nul c \<Longrightarrow> map_get m (subscriptionKey t c) = flat_get m t c"
  using flat_entry [of m "subscriptionKey t c"]
  by (auto simp: flat_get_def subscriptionKey_inj split: option.split)

lemma flat_get_nul: "flat_ok m \<Longrightarrow> \<not> no_nul c \<Longrightarrow> flat_get m t c = None"
  using flat_entry [of m "subscriptionKey t c"] by (auto simp: flat_get_def split: option.split)

interpretation flat: pair_store flat_get flat_put flat_del flat_del_all flat_ok flat_valid flat_fits
proof unfold_locales
  fix m t c v t' c'
  assume m: "flat_ok m"
  show "flat_get (flat_put t c v m) t' c' = (if t' = t \<and> c' = c then Some v else flat_get m t' c')"
    if "flat_valid t c" "flat_fits t c v"
    using that flat_get_nul [OF m, of c' t'] flat_get_raw [OF m, of c' t']
    by (cases "no_nul c'")
      (auto simp: flat_get_def flat_put_def flat_valid_def flat_fits_def gmap.get_put subscriptionKey_inj
        split: option.splits)
  show "flat_get (flat_del t c m) t' c' = (if t' = t \<and> c' = c then None else flat_get m t' c')"
    if "flat_valid t c"
    using that flat_get_nul [OF m, of c' t'] flat_get_raw [OF m, of c' t']
    by (cases "no_nul c'")
      (auto simp: flat_get_def flat_del_def flat_valid_def gmap.get_del subscriptionKey_inj split: option.splits)
  show "flat_get (flat_del_all t m) t' c' = (if t' = t then None else flat_get m t' c')"
    using m by (auto simp: flat_get_def flat_del_all_def flat_ok_def map_get_filter split: option.splits)
  show "flat_ok (flat_put t c v m)" if "flat_valid t c" "flat_fits t c v"
    using that m set_map_put_subset [of "subscriptionKey t c" v m]
    by (auto simp: flat_ok_def flat_put_def flat_valid_def flat_fits_def gmap.ok_put)
  show "flat_ok (flat_del t c m)"
    using m by (auto simp: flat_ok_def flat_del_def gmap.ok_del set_map_del)
  show "flat_ok (flat_del_all t m)"
    using m by (auto simp: flat_ok_def flat_del_all_def map_ok_filter)
qed

section \<open>The contract\<close>

definition consolidator_view :: "consolidator \<Rightarrow> replica" where
  "consolidator_view c = \<lparr>rp_topics = map_get (cn_topics c), rp_subs = flat_get (cn_subscriptions c)\<rparr>"

definition topics_ok :: "(string, topic_registration) gomap \<Rightarrow> bool" where
  "topics_ok ts \<longleftrightarrow> map_ok ts \<and> (\<forall>(t, m) \<in> set ts. reg_topic m = t)"

lemma topics_ok_put [simp]: "topics_ok ts \<Longrightarrow> topics_ok (map_put (reg_topic m) m ts)"
  using set_map_put_subset [of "reg_topic m" m ts] by (auto simp: topics_ok_def gmap.ok_put)

lemma topics_ok_del [simp]: "topics_ok ts \<Longrightarrow> topics_ok (map_del t ts)"
  by (auto simp: topics_ok_def gmap.ok_del set_map_del)

lemma topics_ok_get: "topics_ok ts \<Longrightarrow> map_get ts t = Some m \<Longrightarrow> reg_topic m = t"
  by (auto simp: topics_ok_def dest!: map_get_in)

definition consolidator_ok :: "consolidator \<Rightarrow> bool" where
  "consolidator_ok c \<longleftrightarrow> topics_ok (cn_topics c) \<and> flat_ok (cn_subscriptions c)"

lemma new_consolidator_ok [simp]:
  "consolidator_ok (new_consolidator r)" "consolidator_view (new_consolidator r) = empty_replica"
  by (auto simp: consolidator_ok_def new_consolidator_def flat_ok_def consolidator_view_def empty_replica_def
      flat_get_def fun_eq_iff topics_ok_def)

lemma view_simps [simp]:
  "rp_topics (consolidator_view c) = map_get (cn_topics c)"
  "rp_subs (consolidator_view c) = flat_get (cn_subscriptions c)"
  by (simp_all add: consolidator_view_def)

text \<open>A method's effect on the view, entry by entry.\<close>

lemma view_eqI:
  assumes "\<And>t. map_get (cn_topics c) t = topic_step t e (rp_topics v t)"
    and "\<And>t d. flat_get (cn_subscriptions c) t d = sub_step t d e (rp_subs v t d)"
  shows "consolidator_view c = replica_step e v"
  using assms by (simp add: consolidator_view_def replica_step_def fun_eq_iff)

lemma put_entry:
  assumes "consolidator_ok c" and "no_nul d" and "ks_topic s = t" and "ks_callback s = d"
  shows "consolidator_ok (c\<lparr>cn_subscriptions := map_put (subscriptionKey t d) s (cn_subscriptions c)\<rparr>)"
    and "flat_get (map_put (subscriptionKey t d) s (cn_subscriptions c)) t' d' =
      (if t' = t \<and> d' = d then Some s else flat_get (cn_subscriptions c) t' d')"
  using assms flat.ok_store [of "cn_subscriptions c" t d s] flat.lookup_store [of "cn_subscriptions c" t d s t' d']
  by (auto simp: consolidator_ok_def flat_put_def flat_valid_def flat_fits_def)

lemma raw_entry:
  "consolidator_ok c \<Longrightarrow> no_nul d \<Longrightarrow> map_get (cn_subscriptions c) (subscriptionKey t d) = flat_get (cn_subscriptions c) t d"
  by (simp add: consolidator_ok_def flat_get_raw)

lemma flat_get_fits: "flat_get m t d = Some s \<Longrightarrow> ks_topic s = t \<and> ks_callback s = d"
  by (simp add: flat_get_def split: option.splits if_splits)

text \<open>Storing an entry does to the view what the event says when the event does only that.\<close>

lemma put_view:
  assumes "consolidator_ok c" and "no_nul d" and "ks_topic s = t" and "ks_callback s = d"
    and "sub_step t d e (flat_get (cn_subscriptions c) t d) = Some s"
    and "\<And>t x. topic_step t e x = x"
    and "\<And>t' d' x. t' \<noteq> t \<or> d' \<noteq> d \<Longrightarrow> sub_step t' d' e x = x"
  shows "consolidator_view (c\<lparr>cn_subscriptions := map_put (subscriptionKey t d) s (cn_subscriptions c)\<rparr>) =
    replica_step e (consolidator_view c)"
  using assms(5-7) put_entry(2) [OF assms(1-4)] by (intro view_eqI) auto

lemma same_view:
  assumes "\<And>t x. topic_step t e x = x"
    and "\<And>t d. sub_step t d e (flat_get (cn_subscriptions c) t d) = flat_get (cn_subscriptions c) t d"
  shows "replica_step e (consolidator_view c) = consolidator_view c"
  by (rule view_eqI [symmetric]) (simp_all add: assms)

lemma consolidator_register_contract:
  assumes "consolidator_ok c" and "ApplyTopicRegistration consolidator_methods m c = (c', err)"
  shows "if register_valid m then err = None \<and> consolidator_ok c'
      \<and> consolidator_view c' = replica_step (EventRegister m) (consolidator_view c) else err \<noteq> None \<and> c' = c"
proof (cases "register_valid m")
  case True
  then have "err = None" "c' = c\<lparr>cn_topics := map_put (reg_topic m) m (cn_topics c)\<rparr>"
    using assms(2) by (simp_all add: consolidator_methods_def consolidator_register_def register_valid_def)
  then show ?thesis
    using True assms(1) by (auto simp: consolidator_ok_def gmap.get_put intro!: view_eqI)
next
  case False
  then show ?thesis
    using assms(2) by (auto simp: consolidator_methods_def consolidator_register_def register_valid_def)
qed

lemma consolidator_deregister_contract:
  assumes "consolidator_ok c" and "ApplyTopicDeregistration consolidator_methods m c = (c', err)"
  shows "if deregister_valid m then err = None \<and> consolidator_ok c'
      \<and> consolidator_view c' = replica_step (EventDeregister m) (consolidator_view c) else err \<noteq> None \<and> c' = c"
proof (cases "deregister_valid m")
  case True
  let ?subs = "flat_del_all (dereg_topic m) (cn_subscriptions c)"
  have "err = None" and c': "c' = c\<lparr>cn_topics := map_del (dereg_topic m) (cn_topics c), cn_subscriptions := ?subs\<rparr>"
    using True assms(2)
    by (simp_all add: consolidator_methods_def consolidator_deregister_def deregister_valid_def flat_del_all_def)
  moreover have "flat_ok (cn_subscriptions c)" using assms(1) by (simp add: consolidator_ok_def)
  ultimately show ?thesis
    using True assms(1) flat.lookup_remove_all flat.ok_remove_all
    by (auto simp: consolidator_ok_def gmap.get_del intro!: view_eqI)
next
  case False
  then show ?thesis
    using assms(2) by (auto simp: consolidator_methods_def consolidator_deregister_def deregister_valid_def)
qed

lemma consolidator_subscribe_contract:
  assumes ok: "consolidator_ok c" and adm: "callbacks_in no_nul (EventSubscribe s)"
    and run: "ApplySubscription consolidator_methods s c = (c', err)"
  shows "if subscribe_valid s then err = None \<and> consolidator_ok c'
      \<and> consolidator_view c' = replica_step (EventSubscribe s) (consolidator_view c) else err \<noteq> None \<and> c' = c"
proof (cases "subscribe_valid s")
  case True
  let ?e = "EventSubscribe s" and ?entry = "flat_get (cn_subscriptions c) (ks_topic s) (ks_callback s)"
  let ?put = "\<lambda>v. c\<lparr>cn_subscriptions := map_put (subscriptionKey (ks_topic s) (ks_callback s)) v (cn_subscriptions c)\<rparr>"
  have err: "err = None" and c': "c' = (case ?entry of None \<Rightarrow> ?put s
      | Some old \<Rightarrow> if is_stale old then ?put (old\<lparr>ks_status := []\<rparr>) else c)"
    using run True raw_entry [OF ok] adm
    by (auto simp: consolidator_methods_def consolidator_subscribe_def subscribe_valid_def is_stale_def Let_def
        split: prod.splits option.splits if_splits)
  show ?thesis
  proof (cases ?entry)
    case None
    then have "c' = ?put s" using c' by simp
    then show ?thesis
      using True err None adm put_entry(1) [OF ok, of _ s]
      by (auto intro!: put_view [OF ok])
  next
    case (Some old)
    note fits = flat_get_fits [OF this]
    show ?thesis
    proof (cases "is_stale old")
      case stale: True
      then have "c' = ?put (old\<lparr>ks_status := []\<rparr>)" using c' Some by simp
      then show ?thesis
        using True err Some stale fits adm put_entry(1) [OF ok, of _ "old\<lparr>ks_status := []\<rparr>"]
        by (auto intro!: put_view [OF ok])
    next
      case False
      then have "c' = c" using c' Some by simp
      then show ?thesis
        using True err Some False ok by (auto intro!: same_view [symmetric])
    qed
  qed
next
  case False
  then show ?thesis
    using run by (auto simp: consolidator_methods_def consolidator_subscribe_def subscribe_valid_def split: prod.splits)
qed

lemma consolidator_stale_contract:
  assumes ok: "consolidator_ok c" and adm: "callbacks_in no_nul (EventStale s)"
    and run: "ApplyStaleSubscription consolidator_methods s c = (c', err)"
  shows "if stale_valid s then err = None \<and> consolidator_ok c'
      \<and> consolidator_view c' = replica_step (EventStale s) (consolidator_view c) else err \<noteq> None \<and> c' = c"
proof (cases "stale_valid s")
  case True
  let ?e = "EventStale s" and ?entry = "flat_get (cn_subscriptions c) (ks_topic s) (ks_callback s)"
  let ?put = "\<lambda>v. c\<lparr>cn_subscriptions := map_put (subscriptionKey (ks_topic s) (ks_callback s)) v (cn_subscriptions c)\<rparr>"
  have err: "err = None" and c': "c' = (case ?entry of None \<Rightarrow> c
      | Some old \<Rightarrow> if same_lease old s then ?put (old\<lparr>ks_status := SubscriptionStatusStale\<rparr>) else c)"
    using run True raw_entry [OF ok] adm
    by (auto simp: consolidator_methods_def consolidator_stale_def stale_valid_def same_lease_def Let_def
        split: option.splits if_splits)
  show ?thesis
  proof (cases "\<exists>old. ?entry = Some old \<and> same_lease old s")
    case lease: True
    then obtain old where old: "?entry = Some old" "same_lease old s" by blast
    then have "c' = ?put (old\<lparr>ks_status := SubscriptionStatusStale\<rparr>)" using c' by simp
    then show ?thesis
      using True err old flat_get_fits [OF old(1)] adm
        put_entry(1) [OF ok, of _ "old\<lparr>ks_status := SubscriptionStatusStale\<rparr>"]
      by (auto intro!: put_view [OF ok])
  next
    case False
    then have "c' = c" using c' by (auto split: option.splits)
    then show ?thesis
      using True err False ok by (auto intro!: same_view [symmetric] split: option.splits)
  qed
next
  case False
  then show ?thesis
    using run by (auto simp: consolidator_methods_def consolidator_stale_def stale_valid_def)
qed

lemma consolidator_unsubscribe_contract:
  assumes "consolidator_ok c" and "callbacks_in no_nul (EventUnsubscribe q)"
    and "ApplyUnsubscription consolidator_methods q c = (c', err)"
  shows "if unsubscribe_valid q then err = None \<and> consolidator_ok c'
      \<and> consolidator_view c' = replica_step (EventUnsubscribe q) (consolidator_view c) else err \<noteq> None \<and> c' = c"
proof (cases "unsubscribe_valid q")
  case True
  let ?subs = "flat_del (unsub_topic (vu_unsubscription q)) (unsub_callback (vu_unsubscription q)) (cn_subscriptions c)"
  have "err = None" and c': "c' = c\<lparr>cn_subscriptions := ?subs\<rparr>"
    using True assms(3)
    by (simp_all add: consolidator_methods_def consolidator_unsubscribe_def unsubscribe_valid_def flat_del_def)
  moreover have "flat_ok (cn_subscriptions c)" using assms(1) by (simp add: consolidator_ok_def)
  ultimately show ?thesis
    using True assms(1,2) flat.lookup_remove flat.ok_remove
    by (auto simp: consolidator_ok_def flat_valid_def intro!: view_eqI)
next
  case False
  then show ?thesis
    using assms(3) by (auto simp: consolidator_methods_def consolidator_unsubscribe_def unsubscribe_valid_def)
qed

interpretation consolidator: event_consumer consolidator_methods consolidator_view consolidator_ok "callbacks_in no_nul"
  by unfold_locales
    (rule consolidator_register_contract consolidator_deregister_contract consolidator_subscribe_contract
      consolidator_stale_contract consolidator_unsubscribe_contract; assumption)+

end
