(* ===== verification/ConsolidatorRun.thy ===== *)
theory ConsolidatorRun
  imports Consolidator KafkaEvents
begin

text \<open>
  The consolidator at work (\<open>examples/kafka-websubhub/consolidator/consolidator.go\<close>): its
  snapshots, one event (\<open>consumeEvent\<close>), the start (\<open>New\<close>) and the two HTTP endpoints. The
  snapshot topic of the broker is outside: \<open>publish\<close> is a parameter with a state of its own.
\<close>

definition consolidator_restore :: "snapshot \<Rightarrow> consolidator \<Rightarrow> consolidator \<times> error option" where
  "consolidator_restore sn c = restore consolidator_methods sn c"

definition snapshotLocked :: "consolidator \<Rightarrow> snapshot" where
  "snapshotLocked c =
     \<lparr>sn_revision = cn_revision c,
      sn_topics = sort_key reg_topic (map snd (cn_topics c)),
      sn_subscriptions = sort_key (\<lambda>s. (ks_topic s, ks_callback s)) (map snd (cn_subscriptions c))\<rparr>"

type_synonym 'b publish_snapshot = "snapshot \<Rightarrow> 'b \<Rightarrow> 'b \<times> error option"

definition consumeEvent ::
    "event_codec \<Rightarrow> 'b publish_snapshot \<Rightarrow> int \<Rightarrow> bytes \<Rightarrow> consolidator \<times> 'b \<Rightarrow> (consolidator \<times> 'b) \<times> error option" where
  "consumeEvent codec publish offset payload cb =
     (case cb of (c, b) \<Rightarrow>
       (case ApplyEvent codec payload consolidator_methods c of
          (c', Some err) \<Rightarrow>
            ((c', b),
             if cn_revision c' = - 1 then Some (AppError ''state snapshot revision exhausted'')
             else Some (Prefixed (''apply state event at offset '' @ format_int offset) err))
        | (c', None) \<Rightarrow>
            let c'' = c'\<lparr>cn_revision := cn_revision c' + 1\<rparr>
            in case publish (snapshotLocked c'') b of
                 (b', Some err) \<Rightarrow>
                   ((c'', b'), Some (Prefixed (''persist snapshot at event offset '' @ format_int offset) err))
               | (b', None) \<Rightarrow> ((c'', b'), None)))"

text \<open>\<open>New\<close> up to the goroutine it starts: \<open>Inl\<close> the error it returns. \<open>loaded\<close> is what
  \<open>LoadSnapshot\<close> returned.\<close>

datatype 'a started = StartPolling | StartFailed error | Started 'a

definition consolidator_New ::
    "event_codec \<Rightarrow> string \<Rightarrow> 'b publish_snapshot \<Rightarrow> error + snapshot \<Rightarrow> error + int \<Rightarrow> poll list \<Rightarrow> 'b
     \<Rightarrow> 'b \<times> (consolidator \<times> int) started" where
  "consolidator_New codec eventsTopic publish loaded logEnd ps b =
     (case loaded of
        Inl err \<Rightarrow> (b, StartFailed (Prefixed ''load consolidated snapshot'' err))
      | Inr sn \<Rightarrow>
          (case consolidator_restore sn (new_consolidator (sn_revision sn)) of
             (_, Some err) \<Rightarrow> (b, StartFailed (Prefixed ''restore consolidated snapshot'' err))
           | (c, None) \<Rightarrow>
               (case ReplayEvents eventsTopic (consumeEvent codec publish) logEnd ps 0 (c, b) of
                  (offset, (c', b'), ConsumeReturned None) \<Rightarrow> (b', Started (c', offset))
                | (offset, (c', b'), ConsumeReturned (Some err)) \<Rightarrow>
                    (b', StartFailed (Prefixed ''replay state events'' err))
                | (offset, (c', b'), Polling) \<Rightarrow> (b', StartPolling))))"

text \<open>The endpoints. \<open>json.Encoder\<close> writes the encoding and a line feed, or nothing when it fails.\<close>

definition method_not_allowed :: "response_writer \<Rightarrow> response_writer" where
  "method_not_allowed writer = write_header 405 (rw_set ''Allow'' ''GET'' writer)"

definition serveSnapshot :: "event_codec \<Rightarrow> consolidator \<Rightarrow> response_writer \<Rightarrow> string \<Rightarrow> response_writer" where
  "serveSnapshot codec c writer http_method =
     (if http_method \<noteq> ''GET'' then method_not_allowed writer
      else
        let w1 = rw_set ''Cache-Control'' ''no-store'' writer;
            w2 = rw_set ''Content-Type'' ''application/json'' w1
        in case marshal_snapshot codec (snapshotLocked c) of
             Inl _ \<Rightarrow> w2
           | Inr payload \<Rightarrow> write_body (payload @ [CHR 0x0A]) w2)"

definition healthz :: "response_writer \<Rightarrow> string \<Rightarrow> response_writer" where
  "healthz writer http_method =
     (if http_method \<noteq> ''GET'' then method_not_allowed writer else write_header 204 writer)"

lemmas consolidator_eval [go_eval] = consolidator_apply_defs consolidator_methods_def subscriptionKey_def
  new_consolidator_def restore_def restore_events_def consolidator_restore_def snapshotLocked_def
  consumeEvent_def consolidator_New_def
  method_not_allowed_def serveSnapshot_def healthz_def

section \<open>Snapshots\<close>

lemma subs_mset:
  assumes "map_ok m" and "map_ok m'" and "\<And>k. map_get m k = map_get m' k"
  shows "mset m = mset m'"
proof -
  have "set m = set m'" using assms by (auto simp: map_get_iff [symmetric])
  moreover have "distinct m" "distinct m'" using assms(1,2) by (auto simp: map_ok_def distinct_map)
  ultimately show ?thesis by (simp add: set_eq_iff_mset_eq_distinct)
qed

lemma keyed_entries:
  assumes "map_ok m" and "\<forall>(k, v) \<in> set m. k = f v"
  shows "distinct (map f (map snd m))"
proof -
  have "map f (map snd m) = map fst m" using assms(2) by (induction m) auto
  then show ?thesis using assms(1) by (simp only: map_ok_def)
qed

lemma topic_entries: "topics_ok ts \<Longrightarrow> distinct (map reg_topic (map snd ts))"
  by (rule keyed_entries) (auto simp: topics_ok_def)

lemma subscription_entries:
  assumes "flat_ok m"
  shows "distinct (map (\<lambda>s. (ks_topic s, ks_callback s)) (map snd m))"
proof -
  have "distinct (map (\<lambda>s. subscriptionKey (ks_topic s) (ks_callback s)) (map snd m))"
    using assms by (intro keyed_entries) (auto simp: flat_ok_def)
  then have "distinct (map (\<lambda>(t, d). subscriptionKey t d) (map (\<lambda>s. (ks_topic s, ks_callback s)) (map snd m)))"
    by (simp add: comp_def)
  then show ?thesis by (simp only: distinct_map)
qed

lemma sort_entries:
  "mset m = mset m' \<Longrightarrow> distinct (map f (map snd m)) \<Longrightarrow> sort_key f (map snd m) = sort_key f (map snd m')"
  by (intro sort_key_inj_key_eq)
    (simp_all add: distinct_map inj_on_imageI)

lemma distinct_map_sort: "distinct (map g (sort_key f xs)) \<longleftrightarrow> distinct (map g xs)"
  by (rule mset_eq_imp_distinct_iff) simp

lemma flat_get_determines:
  assumes "flat_ok m" and "flat_ok m'" and "flat_get m = flat_get m'"
  shows "map_get m k = map_get m' k"
proof -
  have "map_get m' k = Some s" if "flat_ok m" "flat_ok m'" "flat_get m = flat_get m'" "map_get m k = Some s" for m m' s
  proof -
    from flat_entry [OF that(1,4)] have k: "k = subscriptionKey (ks_topic s) (ks_callback s)" "no_nul (ks_callback s)"
      by simp_all
    then have "flat_get m (ks_topic s) (ks_callback s) = Some s"
      using that(1,4) by (simp add: flat_get_raw [symmetric])
    then show ?thesis using that(2,3) k flat_get_raw by metis
  qed
  then show ?thesis using assms by (intro option_eqI) metis
qed

text \<open>The snapshot depends on the state only, not on the order in which \<open>range\<close> visits the
  maps.\<close>

lemma snapshotLocked_order:
  assumes "consolidator_ok c" and "consolidator_ok c'" and "consolidator_view c = consolidator_view c'"
    and "cn_revision c = cn_revision c'"
  shows "snapshotLocked c = snapshotLocked c'"
proof -
  have topics: "mset (cn_topics c) = mset (cn_topics c')"
    using assms by (intro subs_mset) (auto simp: consolidator_ok_def topics_ok_def consolidator_view_def)
  have subs: "mset (cn_subscriptions c) = mset (cn_subscriptions c')"
    using assms flat_get_determines
    by (intro subs_mset) (auto simp: consolidator_ok_def flat_ok_def consolidator_view_def)
  have "distinct (map reg_topic (map snd (cn_topics c)))"
    and "distinct (map (\<lambda>s. (ks_topic s, ks_callback s)) (map snd (cn_subscriptions c)))"
    using assms(1) topic_entries subscription_entries by (simp_all only: consolidator_ok_def)
  then show ?thesis
    using assms(4) sort_entries [OF topics, of reg_topic]
      sort_entries [OF subs, of "\<lambda>s. (ks_topic s, ks_callback s)"]
    by (simp only: snapshotLocked_def)
qed

text \<open>It lists exactly the state.\<close>

lemma snapshotLocked_of:
  assumes "consolidator_ok c"
  shows "snapshot_of (snapshotLocked c) (consolidator_view c)"
proof -
  have t: "topics_ok (cn_topics c)" and f: "flat_ok (cn_subscriptions c)"
    using assms by (simp_all add: consolidator_ok_def)
  note dt = topic_entries [OF t] and ds = subscription_entries [OF f]
  have tops: "map_get (cn_topics c) t = Some m \<longleftrightarrow> m \<in> snd ` set (cn_topics c) \<and> reg_topic m = t" for t m
  proof -
    have "(t, m) \<in> set (cn_topics c) \<longleftrightarrow> m \<in> snd ` set (cn_topics c) \<and> reg_topic m = t"
      using t by (force simp: topics_ok_def)
    then show ?thesis using t by (simp add: topics_ok_def map_get_iff)
  qed
  have "flat_get (cn_subscriptions c) t d = Some s \<longleftrightarrow>
      s \<in> snd ` set (cn_subscriptions c) \<and> ks_topic s = t \<and> ks_callback s = d" for t d s
  proof
    assume get: "flat_get (cn_subscriptions c) t d = Some s"
    then have "map_get (cn_subscriptions c) (subscriptionKey t d) = Some s"
      by (simp add: flat_get_def split: option.splits if_splits)
    then show "s \<in> snd ` set (cn_subscriptions c) \<and> ks_topic s = t \<and> ks_callback s = d"
      using flat_get_fits [OF get] by (force dest: map_get_in)
  next
    assume s: "s \<in> snd ` set (cn_subscriptions c) \<and> ks_topic s = t \<and> ks_callback s = d"
    then have "(subscriptionKey t d, s) \<in> set (cn_subscriptions c)"
      using f by (auto simp: flat_ok_def)
    then show "flat_get (cn_subscriptions c) t d = Some s"
      using f s by (simp add: flat_get_def flat_ok_def map_get_iff [symmetric])
  qed
  then show ?thesis
    using dt ds tops by (simp only: snapshot_of_def snapshotLocked_def snapshot.simps distinct_map_sort
        set_sort set_map view_simps simp_thms)
qed

section \<open>One event\<close>

text \<open>The payloads of a log and the events they decode to.\<close>

lemma dispatch_revision:
  "dispatch_event consolidator_methods e c = (c', err) \<Longrightarrow> cn_revision c' = cn_revision c"
  by (cases e) (auto simp: consolidator_methods_def consolidator_apply_defs Let_def
      split: prod.splits option.splits if_splits)

lemma dispatch_log_revision:
  "dispatch_log consolidator_methods es c = (c', err) \<Longrightarrow> cn_revision c' = cn_revision c"
  by (induction es arbitrary: c) (auto dest!: dispatch_revision split: prod.splits option.splits)

lemma consumeEvent_valid:
  assumes "consolidator_ok c" and "callbacks_in no_nul e" and "decodes_to codec p e" and "event_valid e"
    and "consumeEvent codec publish offset p (c, b) = ((c', b'), err)"
  shows "consolidator_ok c' \<and> consolidator_view c' = replica_step e (consolidator_view c)
    \<and> cn_revision c' = cn_revision c + 1
    \<and> b' = fst (publish (snapshotLocked c') b)
    \<and> (err = None \<longleftrightarrow> snd (publish (snapshotLocked c') b) = None)"
proof -
  obtain c1 err1 where step: "dispatch_event consolidator_methods e c = (c1, err1)" by fastforce
  then have "err1 = None" "consolidator_ok c1" "consolidator_view c1 = replica_step e (consolidator_view c)"
    using consolidator.dispatch_contract [OF assms(1,2) step] assms(4) by simp_all
  moreover have "cn_revision c1 = cn_revision c"
    using step by (rule dispatch_revision)
  moreover have "consolidator_ok (c1\<lparr>cn_revision := r\<rparr>) = consolidator_ok c1"
      "consolidator_view (c1\<lparr>cn_revision := r\<rparr>) = consolidator_view c1" for r
    by (simp_all add: consolidator_ok_def consolidator_view_def)
  ultimately show ?thesis
    using assms(5) ApplyEvent_decoded [OF assms(3,4), of consolidator_methods c] step
    by (auto simp: consumeEvent_def Let_def split: prod.splits option.splits)
qed

lemma apply_from_consumeEvent:
  assumes "consolidator_ok c" and "list_all (callbacks_in no_nul) es" and "list_all event_valid es"
    and "list_all2 (decodes_to codec) ps es" and "\<And>sn b. snd (publish sn b) = None"
    and "apply_from (consumeEvent codec publish) offset ps (c, b) = ((c', b'), err)"
  shows "err = None \<and> consolidator_ok c' \<and> consolidator_view c' = fold replica_step es (consolidator_view c)
    \<and> cn_revision c' = cn_revision c + of_nat (length es)"
  using assms(4,1-3,6)
proof (induction arbitrary: c b offset rule: list_all2_induct)
  case (Cons p ps e es)
  obtain c1 b1 err1 where step: "consumeEvent codec publish offset p (c, b) = ((c1, b1), err1)"
    by (cases "consumeEvent codec publish offset p (c, b)") auto
  have one: "consolidator_ok c1" "consolidator_view c1 = replica_step e (consolidator_view c)"
      "cn_revision c1 = cn_revision c + 1" "err1 = None"
    using consumeEvent_valid [OF Cons.prems(1) _ Cons.hyps(1) _ step] Cons.prems(2,3) assms(5) by simp_all
  then have "apply_from (consumeEvent codec publish) (offset + 1) ps (c1, b1) = ((c', b'), err)"
    using Cons.prems(4) step by simp
  then show ?case
    using Cons.IH [OF one(1)] Cons.prems(2,3) one(2,3) by (simp add: algebra_simps)
qed simp

section \<open>The start\<close>

text \<open>The log from \<open>base\<close> on is what Kafka retains; \<open>es\<close> are all the events ever published, and
  the loaded snapshot is the state after the first \<open>n\<close> of them.\<close>

lemma consolidator_start:
  assumes valid: "list_all event_valid es" and nul: "list_all (callbacks_in no_nul) es"
    and sn: "snapshot_of sn (state_of (take n es))"
    and base: "base \<le> n" "n \<le> E" "E \<le> length es" "length es < 2 ^ 63"
    and vs: "list_all2 (decodes_to codec) vs (drop base es)"
    and kafka: "list_all (of_log topic (int base) vs) (delivered ps)" "gapless topic (int base) (delivered ps)"
    and publish: "\<And>sn b. snd (publish sn b) = None"
    and run: "consolidator_New codec topic publish (Inr sn) (Inr (int E)) ps b = (b', Started (c, offset))"
  shows "consolidator_view c = state_of (take E es) \<and> offset = int E
    \<and> cn_revision c = sn_revision sn + of_nat (E - base)"
proof -
  have cut: "take n es @ drop n (take E es) = take E es"
    using base by (metis append_take_drop_id min.absorb1 take_take)
  have tail: "drop base (take n es) @ drop n (take E es) = drop base (take E es)"
    using base by (subst cut [symmetric]) simp
  obtain c0 err0 where restore: "restore consolidator_methods sn (new_consolidator (sn_revision sn)) = (c0, err0)"
    by fastforce
  have all: "list_all event_valid (take k es)" "list_all (callbacks_in no_nul) (take k es)" for k
    using valid nul by (auto simp: list_all_iff dest: in_set_takeD)
  have c0: "err0 = None" "consolidator_ok c0" "consolidator_view c0 = state_of (take n es)"
    using consolidator.restore_contract [OF _ _ all(1) sn restore_callbacks [OF sn all(2)] restore] by simp_all
  have rev0: "cn_revision c0 = sn_revision sn"
    using dispatch_log_revision restore by (fastforce simp: restore_def new_consolidator_def)
  obtain b1 where replay: "ReplayEvents topic (consumeEvent codec publish) (Inr (int E)) ps 0 (c0, b) =
      (offset, (c, b1), ConsumeReturned None)"
    using run restore c0(1)
    by (auto simp: consolidator_New_def consolidator_restore_def split: prod.splits consumed.splits option.splits)
  have len: "int base + int (length vs) < 2 ^ 63"
    using base list_all2_lengthD [OF vs] by simp
  have applied: "apply_from (consumeEvent codec publish) (int base) (take (E - base) vs) (c0, b) = ((c, b1), None)"
    and off: "offset = int E"
    using replay_applies_log [OF _ len _ kafka replay] by (simp_all add: nat_diff_distrib' flip: of_nat_diff)
  have events: "list_all2 (decodes_to codec) (take (E - base) vs) (drop base (take E es))"
    using list_all2_takeI [OF vs, of "E - base"] by (simp add: drop_take)
  have "list_all event_valid (drop base (take E es))" "list_all (callbacks_in no_nul) (drop base (take E es))"
    using all by (auto simp: list_all_iff dest: in_set_dropD)
  note result = apply_from_consumeEvent [OF c0(2) this(2,1) events publish applied]
  have "fold replica_step (drop base (take E es)) (state_of (take n es)) = state_of (take E es)"
    using fold_replay [of "take n es" "drop n (take E es)" base] all(1) [of E] base cut tail by simp
  then show ?thesis using result c0(3) rev0 off base by simp
qed

section \<open>Revisions\<close>

text \<open>After the last revision a valid event is consumed without an error and the revision starts
  again at zero; a reader that has seen the last revision keeps it.\<close>

lemma revision_wraps:
  assumes "consolidator_ok c" and "callbacks_in no_nul e" and "decodes_to codec p e" and "event_valid e"
    and "cn_revision c = - 1" and "\<And>sn b. snd (publish sn b) = None"
    and "consumeEvent codec publish offset p (c, b) = ((c', b'), err)"
  shows "err = None \<and> cn_revision c' = 0
    \<and> (json_snapshot codec q = Inr (snapshotLocked c') \<longrightarrow>
        retainLatestSnapshot codec latest True q = ((latest, True), None))"
proof -
  have "err = None" "cn_revision c' = 0"
    using consumeEvent_valid [OF assms(1-4,7)] assms(5,6) by simp_all
  then show ?thesis
    by (auto simp: retainLatestSnapshot_def snapshotLocked_def)
qed

text \<open>The candidates that \<open>LoadSnapshot\<close> looks at, and the one it returns.\<close>

definition candidates :: "event_codec \<Rightarrow> string \<Rightarrow> kafka_record list \<Rightarrow> snapshot list" where
  "candidates codec topic rs =
     concat (map (\<lambda>r. if kr_topic r = topic then (case json_snapshot codec (kr_value r) of Inl _ \<Rightarrow> [] | Inr sn \<Rightarrow> [sn])
       else []) rs)"

definition greatest :: "snapshot \<Rightarrow> bool \<Rightarrow> snapshot list \<Rightarrow> bool" where
  "greatest latest found sns \<longleftrightarrow>
     (if found then latest \<in> set sns \<and> (\<forall>sn \<in> set sns. sn_revision sn \<le> sn_revision latest)
      else sns = [] \<and> latest = empty_snapshot)"

lemma greatest_add:
  "greatest latest found sns \<Longrightarrow>
     greatest (if \<not> found \<or> sn_revision latest < sn_revision sn then sn else latest) True (sns @ [sn])"
  by (cases found) (auto simp: greatest_def intro: order.trans order.strict_implies_order)

lemma load_records_greatest:
  "greatest latest found sns \<Longrightarrow>
     fold (load_record codec topic) rs ((latest, found), None) = ((latest', found'), None) \<Longrightarrow>
     greatest latest' found' (sns @ candidates codec topic rs)"
proof (induction rs arbitrary: latest found sns)
  case Nil
  then show ?case by (simp add: candidates_def)
next
  case (Cons r rs)
  have stuck: "fold (load_record codec topic) rs (lf, Some e) = (lf, Some e)" for lf e
    by (induction rs) (simp_all add: load_record_def split: prod.split)
  obtain lf err where step: "load_record codec topic r ((latest, found), None) = (lf, err)"
    by fastforce
  then have none: "err = None" using Cons.prems(2) stuck by (cases err) auto
  obtain l f where lf: "lf = (l, f)" by (cases lf)
  have "greatest l f (sns @ candidates codec topic [r])"
  proof (cases "json_snapshot codec (kr_value r)")
    case (Inr cand)
    then show ?thesis
      using step Cons.prems(1) none lf greatest_add [OF Cons.prems(1), of cand]
      by (auto simp: load_record_def retainLatestSnapshot_def candidates_def split: if_splits)
  qed (use step Cons.prems(1) none lf in
      \<open>auto simp: load_record_def retainLatestSnapshot_def candidates_def split: if_splits\<close>)
  then show ?case
    using Cons.IH [of l f "sns @ candidates codec topic [r]"] Cons.prems(2) step none lf
    by (simp add: candidates_def)
qed

lemma load_polls_greatest:
  assumes "load_polls codec topic ps latest found = Some (Inr sn)" and "greatest latest found sns"
  shows "\<exists>found'. greatest sn found'
    (sns @ candidates codec topic (delivered (takeWhile (\<lambda>p. po_records p \<noteq> []) ps)))"
  using assms
proof (induction ps arbitrary: latest found sns)
  case (Cons p ps)
  have none: "fetchError p = None" using Cons.prems(1) by (auto split: option.splits)
  show ?case
  proof (cases "po_records p = []")
    case True
    then show ?thesis using Cons.prems none by (auto simp: candidates_def)
  next
    case False
    then obtain l f where fold: "fold (load_record codec topic) (po_records p) ((latest, found), None) = ((l, f), None)"
      and rest: "load_polls codec topic ps l f = Some (Inr sn)"
      using Cons.prems(1) none by (auto split: prod.splits option.splits)
    show ?thesis
      using Cons.IH [OF rest load_records_greatest [OF Cons.prems(2) fold]] False
      by (simp add: candidates_def)
  qed
qed simp

lemma LoadSnapshot_greatest:
  assumes "LoadSnapshot codec topic ps = Some (Inr sn)"
    and "sns = candidates codec topic (delivered (takeWhile (\<lambda>p. po_records p \<noteq> []) ps))"
  shows "if sns = [] then sn = empty_snapshot else sn \<in> set sns \<and> (\<forall>s \<in> set sns. sn_revision s \<le> sn_revision sn)"
  using load_polls_greatest [of codec topic ps empty_snapshot False sn "[]"] assms
  by (auto simp: LoadSnapshot_def greatest_def split: if_splits)

end
