(* ===== verification/Commands.thy ===== *)
theory Commands
  imports KafkaService MemoryHub
begin

text \<open>
  The checks that the three example commands make on their options before they build anything
  (\<open>cmd/websubhub/main.go\<close>, \<open>cmd/consolidator/main.go\<close>, \<open>in-memory-websubhub/main.go\<close>), with
  the configuration records of \<open>internal/config/config.go\<close>, and that what passes them passes the
  checks of the constructors. Reading the TOML file, the flags, listening and signals are not
  modelled.
\<close>

record websubhub_config =
  wc_server_id :: string
  wc_address :: string
  wc_path :: string
  wc_hub_url :: string
  wc_brokers :: "string list"
  wc_events_topic :: string
  wc_consolidator_url :: string
  wc_delivery_attempts :: int
  wc_retry_backoff :: duration
  wc_startup_timeout :: duration

record consolidator_config =
  cc_address :: string
  cc_brokers :: "string list"
  cc_events_topic :: string
  cc_snapshots_topic :: string
  cc_startup_timeout :: duration

record command_options =
  co_address :: string
  co_path :: string
  co_hub_url :: string
  co_delivery_workers :: int

text \<open>The check of an absolute HTTP(S) URL that the commands repeat.\<close>

definition absolute_http :: "string \<Rightarrow> url option" where
  "absolute_http raw =
     (case parse_url raw of
        None \<Rightarrow> None
      | Some parsed \<Rightarrow>
          if u_scheme parsed \<noteq> ''http'' \<and> u_scheme parsed \<noteq> ''https'' \<or> u_host parsed = []
          then None else Some parsed)"

definition blank :: "string \<Rightarrow> bool" where
  "blank s \<longleftrightarrow> trim_space s = []"

definition validate_websubhub :: "websubhub_config \<Rightarrow> error option" where
  "validate_websubhub options =
     (if blank (wc_server_id options) then Some (AppError ''websubhub.server_id must not be empty'')
      else if wc_address options = [] then Some (AppError ''websubhub.address must not be empty'')
      else if \<not> has_prefix (wc_path options) ''/'' then Some (AppError ''websubhub.path must start with /'')
      else case absolute_http (wc_hub_url options) of
        None \<Rightarrow> Some (AppError ''websubhub.hub_url must be an absolute HTTP(S) URL'')
      | Some parsed \<Rightarrow>
      if u_path parsed \<noteq> wc_path options
      then Some (AppError ''websubhub.hub_url path must match websubhub.path'')
      else if wc_brokers options = [] then Some (AppError ''websubhub.brokers must contain at least one address'')
      else if list_ex blank (wc_brokers options)
      then Some (AppError ''websubhub.brokers must not contain an empty address'')
      else if wc_events_topic options = [] then Some (AppError ''websubhub.events_topic must not be empty'')
      else if absolute_http (wc_consolidator_url options) = None
      then Some (AppError ''websubhub.consolidator_url must be an absolute HTTP(S) URL'')
      else if wc_delivery_attempts options \<le> 0
      then Some (AppError ''websubhub.delivery_attempts must be greater than zero'')
      else if wc_retry_backoff options < 0 then Some (AppError ''websubhub.retry_backoff must not be negative'')
      else if wc_startup_timeout options \<le> 0
      then Some (AppError ''websubhub.startup_timeout must be greater than zero'')
      else None)"

definition validate_consolidator :: "consolidator_config \<Rightarrow> error option" where
  "validate_consolidator options =
     (if cc_address options = [] then Some (AppError ''consolidator.address must not be empty'')
      else if cc_brokers options = [] then Some (AppError ''consolidator.brokers must contain at least one address'')
      else if list_ex blank (cc_brokers options)
      then Some (AppError ''consolidator.brokers must not contain an empty address'')
      else if cc_events_topic options = [] then Some (AppError ''consolidator.events_topic must not be empty'')
      else if cc_snapshots_topic options = [] then Some (AppError ''consolidator.snapshots_topic must not be empty'')
      else if cc_startup_timeout options \<le> 0
      then Some (AppError ''consolidator.startup_timeout must be greater than zero'')
      else None)"

definition validateCommandOptions :: "command_options \<Rightarrow> error option" where
  "validateCommandOptions options =
     (if co_address options = [] then Some (AppError ''-addr must not be empty'')
      else if \<not> has_prefix (co_path options) ''/'' then Some (AppError ''-path must start with /'')
      else case absolute_http (co_hub_url options) of
        None \<Rightarrow> Some (AppError ''-hub-url must be an absolute HTTP(S) URL'')
      | Some parsed \<Rightarrow>
      if u_path parsed \<noteq> co_path options then Some (AppError ''-hub-url path must match -path'')
      else if co_delivery_workers options \<le> 0 then Some (AppError ''-delivery-workers must be greater than zero'')
      else None)"

text \<open>The options that \<open>run\<close> gives the constructors.\<close>

definition hub_options_of :: "websubhub_config \<Rightarrow> kafka_options" where
  "hub_options_of options =
     \<lparr>kop_hub_url = wc_hub_url options, kop_server_id = wc_server_id options, kop_broker = True,
      kop_snapshot_source = True, kop_delivery_attempts = wc_delivery_attempts options,
      kop_retry_backoff = wc_retry_backoff options, kop_max_topic_body = 0, kop_client = None\<rparr>"

definition memory_options_of :: "command_options \<Rightarrow> hub_options" where
  "memory_options_of options =
     \<lparr>ho_hub_url = co_hub_url options, ho_update_queue = 0, ho_delivery_queue = 0,
      ho_delivery_workers = co_delivery_workers options, ho_max_topic_body = 0, ho_client = None\<rparr>"

lemmas commands_eval [go_eval] = absolute_http_def blank_def validate_websubhub_def validate_consolidator_def
  validateCommandOptions_def hub_options_of_def memory_options_of_def

lemma absolute_http_iff:
  "absolute_http raw = Some u \<longleftrightarrow>
     parse_url raw = Some u \<and> u_scheme u \<in> {''http'', ''https''} \<and> u_host u \<noteq> []"
  by (auto simp: absolute_http_def split: option.splits)

lemma absolute_http_nonempty: "absolute_http [] = None"
  by code_simp

lemma blank_Nil: "blank []"
  by code_simp

lemma NewHTTPSnapshotSource_iff:
  "(\<exists>s. NewHTTPSnapshotSource endpoint client = Inr s) \<longleftrightarrow> absolute_http endpoint \<noteq> None"
  by (auto simp: NewHTTPSnapshotSource_def absolute_http_def Let_def split: option.splits)

lemma NewHTTPSnapshotSource_refuses:
  "NewHTTPSnapshotSource endpoint client = Inr s \<Longrightarrow> cl_check_redirect (ss_client s) = UseLastResponse"
  by (auto simp: NewHTTPSnapshotSource_def Let_def split: option.splits if_splits)

lemma validate_websubhub_iff:
  "validate_websubhub options = None \<longleftrightarrow>
     \<not> blank (wc_server_id options) \<and> wc_address options \<noteq> [] \<and> has_prefix (wc_path options) ''/''
     \<and> (\<exists>u. absolute_http (wc_hub_url options) = Some u \<and> u_path u = wc_path options)
     \<and> wc_brokers options \<noteq> [] \<and> list_all (\<lambda>b. \<not> blank b) (wc_brokers options)
     \<and> wc_events_topic options \<noteq> [] \<and> absolute_http (wc_consolidator_url options) \<noteq> None
     \<and> 0 < wc_delivery_attempts options \<and> 0 \<le> wc_retry_backoff options \<and> 0 < wc_startup_timeout options"
  by (auto simp: validate_websubhub_def list_ex_iff list_all_iff split: option.splits)

lemma validated_hub_options:
  assumes "validate_websubhub options = None"
  shows "\<exists>h. new_kafka_hub (hub_options_of options) = Inr h \<and> kh_attempts h = wc_delivery_attempts options
    \<and> kh_server_id h = wc_server_id options \<and> hub_ok h \<and> hub_view h = empty_replica"
proof -
  have "wc_server_id options \<noteq> []" "wc_hub_url options \<noteq> []"
    using assms absolute_http_nonempty blank_Nil by (auto simp: validate_websubhub_iff)
  then show ?thesis
    using assms
    by (auto simp: validate_websubhub_iff new_kafka_hub_def hub_options_of_def Let_def hub_ok_def workers_ok_def
        hub_view_def empty_replica_def kh_get_def fun_eq_iff)
qed

end
