(* ===== verification/KafkaInstances.thy ===== *)
theory KafkaInstances
  imports KafkaProps ConsolidatorRun Commands
begin

text \<open>
  A concrete log of the Kafka example, a codec that decodes its records, and options and polls,
  on which the properties are instantiated: a topic is registered and a subscription owned by
  server \<open>s1\<close> is verified.
\<close>

definition sample_registration :: topic_registration where
  "sample_registration = \<lparr>reg_mode = ModeRegister, reg_topic = ''http://t/a'', reg_content_type = []\<rparr>"

definition sample_verified :: verified_subscription where
  "sample_verified =
     \<lparr>vs_subscription =
        \<lparr>sub_hub = ''http://hub/'', sub_mode = ModeSubscribe, sub_callback = ''http://c/x'',
         sub_topic = ''http://t/a'', sub_lease_seconds = [], sub_secret = ''k'', sub_parameters = None\<rparr>,
      vs_effective_lease = ''60'', vs_lease_started = 7\<rparr>"

definition sample_events :: "state_event list" where
  "sample_events = [EventRegister sample_registration, EventSubscribe (NewSubscription sample_verified ''s1'')]"

definition no_json :: "bytes \<Rightarrow> error + 'a" where
  "no_json p = Inl (AppError ''no JSON'')"

definition sample_codec :: event_codec where
  "sample_codec =
     \<lparr>json_discriminator = (\<lambda>p. if p = ''r'' then Inr (ModeRegister, [])
        else if p = ''s'' then Inr (ModeSubscribe, []) else no_json p),
      json_registration = (\<lambda>p. Inr sample_registration), json_deregistration = no_json,
      json_subscription = (\<lambda>p. Inr (NewSubscription sample_verified ''s1'')), json_unsubscription = no_json,
      json_snapshot = (\<lambda>p. if p = ''1'' then Inr \<lparr>sn_revision = 1, sn_topics = [], sn_subscriptions = []\<rparr>
        else if p = ''2'' then Inr \<lparr>sn_revision = 2, sn_topics = [], sn_subscriptions = []\<rparr> else no_json p),
      marshal_event = (\<lambda>e. Inr (case e of EventRegister _ \<Rightarrow> ''r'' | _ \<Rightarrow> ''s'')),
      marshal_snapshot = (\<lambda>_. Inr ''{}''), json_valid = (\<lambda>_. True)\<rparr>"

definition sample_record :: "int \<Rightarrow> bytes \<Rightarrow> kafka_record" where
  "sample_record i v = \<lparr>kr_topic = ''events'', kr_partition = 0, kr_offset = i, kr_value = v, kr_headers = []\<rparr>"

definition sample_polls :: "poll list" where
  "sample_polls =
     [\<lparr>po_context = None, po_errors = [], po_records = [sample_record 0 ''r'']\<rparr>,
      \<lparr>po_context = None, po_errors = [], po_records = [sample_record 0 ''r'', sample_record 1 ''s'']\<rparr>]"

definition sample_options :: websubhub_config where
  "sample_options =
     \<lparr>wc_server_id = ''s1'', wc_address = '':9090'', wc_path = ''/hub'', wc_hub_url = ''http://localhost:9090/hub'',
      wc_brokers = [''localhost:9092''], wc_events_topic = ''events'', wc_consolidator_url = ''http://localhost:9091/snapshot'',
      wc_delivery_attempts = 3, wc_retry_backoff = second, wc_startup_timeout = 30 * second\<rparr>"

definition sample_env :: "nat kafka_env" where
  "sample_env =
     \<lparr>ke_codec = sample_codec, ke_events_topic = ''events'', ke_produce = (\<lambda>r n. (Suc n, None)),
      ke_round_trip = (\<lambda>n q. (n, Some \<lparr>rs_status = 200, rs_header = [], rs_body = \<lparr>rd_data = [], rd_err = False\<rparr>\<rparr>)),
      ke_wait = (\<lambda>n. (n, None)), ke_commit = (\<lambda>rs n. (n + length rs, None))\<rparr>"

definition unsigned_verified :: verified_subscription where
  "unsigned_verified =
     sample_verified\<lparr>vs_subscription := (vs_subscription sample_verified)\<lparr>sub_secret := []\<rparr>\<rparr>"

definition content_poll :: poll where
  "content_poll =
     \<lparr>po_context = None, po_errors = [], po_records = [\<lparr>kr_topic = ''content'', kr_partition = 0, kr_offset = 4,
        kr_value = ''hi'', kr_headers = [(''Content-Type'', ''application/json'')]\<rparr>]\<rparr>"

lemmas kafka_samples = sample_registration_def sample_verified_def sample_events_def sample_codec_def
  sample_record_def sample_polls_def

lemma sample_log:
  "list_all event_valid sample_events" "list_all (callbacks_in no_nul) sample_events"
  "list_all2 (decodes_to sample_codec) [''r'', ''s''] sample_events"
  by code_simp+

lemma sample_delivered:
  "list_all (of_log ''events'' 0 [''r'', ''s'']) (delivered sample_polls)"
  "gapless ''events'' 0 (delivered sample_polls)" "list_all (\<lambda>p. fetchError p = None) sample_polls"
  by code_simp+

lemma empty_snapshot_of: "snapshot_of \<lparr>sn_revision = r, sn_topics = [], sn_subscriptions = []\<rparr> (state_of [])"
  by (simp add: snapshot_of_def state_of_def empty_replica_def)

lemma sample_config_valid: "validate_websubhub sample_options = None"
  by code_simp

lemma sample_records:
  "\<forall>r \<in> set (delivered sample_polls). event_record ''events'' r \<longrightarrow>
     (\<exists>e. decodes_to sample_codec (kr_value r) e \<and> event_valid e)"
proof -
  have "decodes_to sample_codec ''r'' (EventRegister sample_registration) \<and> event_valid (EventRegister sample_registration)"
    "decodes_to sample_codec ''s'' (EventSubscribe (NewSubscription sample_verified ''s1''))
      \<and> event_valid (EventSubscribe (NewSubscription sample_verified ''s1''))"
    by code_simp+
  then have "\<exists>e. decodes_to sample_codec p e \<and> event_valid e" if "p = ''r'' \<or> p = ''s''" for p
    using that by blast
  then show ?thesis by (auto simp: sample_polls_def sample_record_def simp del: decodes_to.simps event_valid.simps)
qed

lemma sample_last: "\<exists>r \<in> set (delivered sample_polls). event_record ''events'' r \<and> kr_offset r = 2 - 1"
  by (simp add: sample_polls_def sample_record_def event_record_def)

text \<open>A hub of the sample options, and one delivery of it.\<close>

lemma sample_hub:
  obtains h where "new_kafka_hub (hub_options_of sample_options) = Inr h" "hub_ok h" "hub_view h = empty_replica"
    "kh_attempts h = 3" "kh_server_id h = ''s1''"
  using validated_hub_options [OF sample_config_valid] by (auto simp: sample_options_def)

lemma sample_delivery:
  assumes "new_kafka_hub (hub_options_of sample_options) = Inr h" and "kh_attempts h = 3"
  shows "\<exists>client q resp. NewDeliveryClient (vs_subscription unsigned_verified) (kh_delivery_config h) = Inr client
    \<and> deliverContent sample_env h client unsigned_verified
        \<lparr>cm_content_type = ''application/json'', cm_body = Some ''hi''\<rparr> n = (n, [(q, Some resp)], None)"
proof -
  let ?m = "\<lparr>cm_content_type = ''application/json'', cm_body = Some ''hi''\<rparr>"
  have cfg: "dcfg_timeout (kh_delivery_config h) = 15 * second" "dcfg_max_body (kh_delivery_config h) = 0"
    using assms(1) by (auto simp: new_kafka_hub_def Let_def split: if_splits)
  have "case NewDeliveryClient (vs_subscription unsigned_verified) \<lparr>dcfg_client = None, dcfg_timeout = 0, dcfg_max_body = 0\<rparr>
      of Inl _ \<Rightarrow> False | Inr _ \<Rightarrow> True" by code_simp
  then have "deliverable (vs_subscription unsigned_verified)"
    by (auto simp: NewDeliveryClient_iff split: sum.splits)
  then obtain client where client: "NewDeliveryClient (vs_subscription unsigned_verified) (kh_delivery_config h) = Inr client"
      "dc_max_body client = defaultDeliveryBody" "cl_check_redirect (dc_client client) = UseLastResponse"
    and u: "\<exists>u. parse_url (sub_callback (dc_subscription client)) = Some u"
    using cfg by (auto simp: NewDeliveryClient_iff second_def deliverable_def validateHTTPURL_iff)
  have ct: "validateContentType (cd_content_type (distribution ?m)) = None"
    by code_simp
  let ?r = "\<lparr>rs_status = 200, rs_header = [], rs_body = \<lparr>rd_data = [], rd_err = False\<rparr>\<rparr>"
  have "snd (delivery_result (dc_max_body client) ?r) = None"
    using readBounded_spec [of defaultDeliveryBody "\<lparr>rd_data = [], rd_err = False\<rparr>"]
    by (simp add: delivery_result_ok client(2) defaultDeliveryBody_def)
  then obtain answer where "delivery_result (dc_max_body client) ?r = (answer, None)" by (metis prod.collapse)
  then have "Deliver (Some client) (ke_round_trip sample_env) n (distribution ?m) =
      (n, [(delivery_request client (distribution ?m), Some ?r)], answer, None)"
    using u Deliver_valid [OF ct, of client _ "ke_round_trip sample_env" n] client(3)
    by (auto simp: client_do_refuse sample_env_def distribution_def)
  then have "deliverContent sample_env h client unsigned_verified ?m n =
      (n, [(delivery_request client (distribution ?m), Some ?r)], None)"
    by (simp add: deliverContent_def assms(2) eval_nat_numeral distribution_def)
  then show ?thesis using client(1) by blast
qed

end
