(* ===== verification/MemoryInstances.thy ===== *)
theory MemoryInstances
  imports MemoryProps KafkaInstances
begin

text \<open>
  A concrete run of the in-memory hub, on which its properties are instantiated: a topic, a
  subscription and an update, with a subscriber that answers every delivery with 410.
\<close>

definition sample_memory_options :: hub_options where
  "sample_memory_options =
     \<lparr>ho_hub_url = ''http://hub/'', ho_update_queue = 0, ho_delivery_queue = 0, ho_delivery_workers = 1,
      ho_max_topic_body = 0, ho_client = None\<rparr>"

definition sample_update :: update_message where
  "sample_update =
     \<lparr>upd_kind = UpdateContent, upd_topic = ''http://t/a'', upd_content_type = ''text/plain'', upd_body = Some ''hi'',
      upd_header = None\<rparr>"

definition gone_round_trip :: "nat round_trip" where
  "gone_round_trip = (\<lambda>n q. (Suc n, Some \<lparr>rs_status = 410, rs_header = [], rs_body = \<lparr>rd_data = [], rd_err = False\<rparr>\<rparr>))"

definition sample_actions :: "memory_action list" where
  "sample_actions = [DoRegister sample_registration, DoVerified unsigned_verified, DoUpdate sample_update,
     DispatchTake 8, DispatchSend]"

end
