(* ===== verification/EventLoop.thy ===== *)
theory EventLoop
  imports KafkaEvents
begin

text \<open>
  What the hub and the consolidator of the Kafka example share as running programs
  (\<open>websubhub/hub.go\<close>, \<open>consolidator/consolidator.go\<close> and the loops of the two
  \<open>broker.go\<close>): a goroutine that tails the event log step by step, a channel with room for one
  error, and the calls of \<open>Close\<close>, which wait for \<open>done\<close> or for the end of their context.

  \<open>poll_once\<close> and \<open>apply_once\<close> are the steps of \<open>consumeEvents\<close> with no end of the replay: one
  poll, then one record after the other. The lemma \<open>loop_refines\<close> says that they compute what
  \<open>consumeEvents\<close> does as one function.
\<close>

datatype event_worker =
  EventPolling | EventApplying "kafka_record list" | EventFailed error | EventReturned

text \<open>The poll reports the error of the context exactly when it is cancelled.\<close>

definition poll_once :: "bool \<Rightarrow> poll \<Rightarrow> event_worker \<Rightarrow> event_worker option" where
  "poll_once cancelled p worker =
     (if worker = EventPolling \<and> (po_context p \<noteq> None \<longleftrightarrow> cancelled)
      then Some (case fetchError p of Some err \<Rightarrow> EventFailed err | None \<Rightarrow> EventApplying (po_records p))
      else None)"

definition apply_once ::
    "string \<Rightarrow> 's event_handler \<Rightarrow> event_worker \<Rightarrow> int \<Rightarrow> 's \<Rightarrow> (event_worker \<times> int \<times> 's) option" where
  "apply_once eventsTopic handler worker eventsOffset s =
     (case worker of
        EventApplying [] \<Rightarrow> Some (EventPolling, eventsOffset, s)
      | EventApplying (r # rs) \<Rightarrow>
          (case consume_record eventsTopic (- 1) handler r (eventsOffset, s, None) of
             (offset', s', None) \<Rightarrow> Some (EventApplying rs, offset', s')
           | (offset', s', Some err) \<Rightarrow> Some (EventFailed err, offset', s'))
      | _ \<Rightarrow> None)"

text \<open>\<open>select { case errors <- err: default: }\<close> on a channel of capacity one.\<close>

definition reportError :: "error \<Rightarrow> error list \<Rightarrow> error list" where
  "reportError err errors = (if errors = [] then [err] else errors)"

text \<open>The calls of \<open>Close\<close>: the result is nil once \<open>done\<close> is closed, or the error of the call's
  context.\<close>

datatype close_state = CloseWaits | CloseReturned "error option"

definition close_return :: "bool \<Rightarrow> nat \<Rightarrow> error option \<Rightarrow> close_state list \<Rightarrow> close_state list option" where
  "close_return done c err closes =
     (if c < length closes \<and> closes ! c = CloseWaits \<and> (err = None \<longrightarrow> done)
      then Some (closes[c := CloseReturned err]) else None)"

lemmas event_loop_eval [go_eval] = poll_once_def apply_once_def reportError_def close_return_def

lemma report_length: "length es \<le> 1 \<Longrightarrow> length (reportError e es) \<le> 1"
  by (simp add: reportError_def)

lemma close_return_nil:
  "close_return done c err closes = Some closes' \<Longrightarrow> CloseReturned None \<in> set closes' \<Longrightarrow>
     done \<or> CloseReturned None \<in> set closes"
  using set_update_subset_insert [of closes c "CloseReturned err"]
  by (auto simp: close_return_def split: if_splits)

lemma close_return_empty [simp]: "close_return done c err [] = None"
  by (simp add: close_return_def)

lemma poll_once_alive: "poll_once cancelled p worker = Some worker' \<Longrightarrow> worker \<noteq> EventReturned \<and> worker' \<noteq> EventReturned"
  by (auto simp: poll_once_def split: if_splits option.splits)

lemma apply_once_alive:
  "apply_once topic handler worker k s = Some (worker', k', s') \<Longrightarrow> worker \<noteq> EventReturned \<and> worker' \<noteq> EventReturned"
  by (auto simp: apply_once_def split: event_worker.splits list.splits prod.splits option.splits)

text \<open>What a handler keeps, a step keeps.\<close>

lemma apply_once_keeps:
  assumes "apply_once topic handler worker k s = Some (worker', k', s')"
    and "\<And>offset v s' err. handler offset v s = (s', err) \<Longrightarrow> I s'" and "I s"
  shows "I s'"
  using assms by (auto simp: apply_once_def consume_record_def split: event_worker.splits list.splits prod.splits
      option.splits if_splits)

text \<open>How many steps are left when every poll reports that the context is cancelled.\<close>

definition event_work :: "event_worker \<Rightarrow> nat" where
  "event_work worker =
     (case worker of
        EventApplying rs \<Rightarrow> length rs + 3 | EventPolling \<Rightarrow> 2 | EventFailed _ \<Rightarrow> 1 | EventReturned \<Rightarrow> 0)"

lemma poll_work: "poll_once True p worker = Some worker' \<Longrightarrow> event_work worker' < event_work worker"
  by (auto simp: poll_once_def fetchError_def event_work_def split: if_splits)

lemma apply_work: "apply_once topic handler worker k s = Some (worker', k', s') \<Longrightarrow> event_work worker' < event_work worker"
  by (auto simp: apply_once_def event_work_def split: event_worker.splits list.splits prod.splits option.splits)

lemma apply_once_enabled: "\<exists>worker' k' s'. apply_once topic handler (EventApplying rs) k s = Some (worker', k', s')"
proof (cases rs)
  case (Cons r rs')
  then show ?thesis
    by (cases "consume_record topic (- 1) handler r (k, s, None)") (auto simp: apply_once_def split: option.split)
qed (simp add: apply_once_def)

text \<open>The loop is not blocked for good before it has returned.\<close>

lemma loop_enabled:
  assumes "worker \<noteq> EventReturned"
  shows "(\<exists>p worker'. poll_once cancelled p worker = Some worker')
    \<or> (\<exists>worker' k' s'. apply_once topic handler worker k s = Some (worker', k', s')) \<or> (\<exists>err. worker = EventFailed err)"
proof (cases worker)
  case EventPolling
  have "poll_once cancelled \<lparr>po_context = (if cancelled then Some io_error else None), po_errors = [], po_records = []\<rparr> worker \<noteq> None"
    using EventPolling by (simp add: poll_once_def)
  then show ?thesis by blast
next
  case (EventApplying rs)
  then show ?thesis using apply_once_enabled [of topic handler rs k s] by simp
qed (use assms in simp_all)

section \<open>The steps are the loop\<close>

inductive loop_next ::
    "string \<Rightarrow> 's event_handler \<Rightarrow> poll list \<times> event_worker \<times> int \<times> 's \<Rightarrow> poll list \<times> event_worker \<times> int \<times> 's \<Rightarrow> bool"
  for eventsTopic handler where
  loop_poll: "poll_once (po_context p \<noteq> None) p worker = Some worker' \<Longrightarrow>
    loop_next eventsTopic handler (p # ps, worker, offset, s) (ps, worker', offset, s)"
| loop_apply: "apply_once eventsTopic handler worker offset s = Some (worker', offset', s') \<Longrightarrow>
    loop_next eventsTopic handler (ps, worker, offset, s) (ps, worker', offset', s')"

definition worker_of :: "consumed \<Rightarrow> event_worker" where
  "worker_of res =
     (case res of Polling \<Rightarrow> EventPolling | ConsumeReturned (Some err) \<Rightarrow> EventFailed err | ConsumeReturned None \<Rightarrow> EventReturned)"

lemma failed_records: "fold (consume_record topic replayEnd handler) rs (offset, s, Some err) = (offset, s, Some err)"
  by (induction rs) (simp_all add: consume_record_def)

lemma loop_records:
  assumes "consume_batch topic (- 1) handler rs offset s = (offset', s', err)"
  shows "(loop_next topic handler)\<^sup>*\<^sup>* (ps, EventApplying rs, offset, s)
    (ps, case err of None \<Rightarrow> EventPolling | Some e \<Rightarrow> EventFailed e, offset', s')"
  using assms
proof (induction rs arbitrary: offset s)
  case Nil
  then show ?case by (auto simp: consume_batch_def apply_once_def intro!: r_into_rtranclp loop_apply)
next
  case (Cons r rs)
  obtain o1 s1 e1 where one: "consume_record topic (- 1) handler r (offset, s, None) = (o1, s1, e1)"
    by (metis surj_pair)
  show ?case
  proof (cases e1)
    case None
    then have "loop_next topic handler (ps, EventApplying (r # rs), offset, s) (ps, EventApplying rs, o1, s1)"
      using one by (auto simp: apply_once_def intro: loop_apply)
    moreover have "consume_batch topic (- 1) handler rs o1 s1 = (offset', s', err)"
      using Cons.prems one None by (simp add: consume_batch_def)
    ultimately show ?thesis using Cons.IH by (meson converse_rtranclp_into_rtranclp)
  next
    case (Some e)
    then have "loop_next topic handler (ps, EventApplying (r # rs), offset, s) (ps, EventFailed e, o1, s1)"
      using one by (auto simp: apply_once_def intro: loop_apply)
    moreover have "offset' = o1" "s' = s1" "err = Some e"
      using Cons.prems one Some by (simp_all add: consume_batch_def failed_records)
    ultimately show ?thesis by auto
  qed
qed

lemma loop_refines:
  assumes "ConsumeEvents topic handler ps offset s = (offset', s', res)"
  shows "\<exists>ps'. (loop_next topic handler)\<^sup>*\<^sup>* (ps, EventPolling, offset, s) (ps', worker_of res, offset', s')
    \<and> (res = Polling \<longrightarrow> ps' = []) \<and> res \<noteq> ConsumeReturned None"
  using assms unfolding ConsumeEvents_def
proof (induction ps arbitrary: offset s)
  case (Cons p ps)
  have poll: "loop_next topic handler (p # ps, EventPolling, offset, s)
      (ps, case fetchError p of Some err \<Rightarrow> EventFailed err | None \<Rightarrow> EventApplying (po_records p), offset, s)"
    by (auto simp: poll_once_def intro!: loop_poll)
  show ?case
  proof (cases "fetchError p")
    case (Some err)
    then have "offset' = offset" "s' = s" "res = ConsumeReturned (Some err)" using Cons.prems by simp_all
    then show ?thesis using r_into_rtranclp [of "loop_next topic handler", OF poll] Some by (auto simp: worker_of_def)
  next
    case None
    obtain o1 s1 e1 where one: "consume_batch topic (- 1) handler (po_records p) offset s = (o1, s1, e1)"
      by (metis surj_pair)
    have batch: "(loop_next topic handler)\<^sup>*\<^sup>* (p # ps, EventPolling, offset, s)
        (ps, case e1 of None \<Rightarrow> EventPolling | Some e \<Rightarrow> EventFailed e, o1, s1)"
      using converse_rtranclp_into_rtranclp [of "loop_next topic handler", OF poll] loop_records [OF one, of ps] None by simp
    show ?thesis
    proof (cases e1)
      case e: (Some e)
      then show ?thesis using batch one None Cons.prems by (auto simp: worker_of_def)
    next
      case e: None
      then have "consumeEvents topic handler (- 1) ps o1 s1 = (offset', s', res)"
        using one None Cons.prems by simp
      then obtain ps' where "(loop_next topic handler)\<^sup>*\<^sup>* (ps, EventPolling, o1, s1) (ps', worker_of res, offset', s')"
          "res = Polling \<longrightarrow> ps' = []" "res \<noteq> ConsumeReturned None"
        using Cons.IH by blast
      then show ?thesis using batch e by (auto intro: rtranclp_trans)
    qed
  qed
qed (simp add: worker_of_def)

section \<open>The steps follow the log\<close>

text \<open>\<open>J n s\<close>: \<open>s\<close> is a state after \<open>n\<close> events. What is left to apply, from the poll in hand and
  from the polls to come (\<open>future\<close>), has no hole after the position.\<close>

definition follows_log :: "string \<Rightarrow> nat \<Rightarrow> bytes list \<Rightarrow> event_worker \<Rightarrow> int \<Rightarrow> kafka_record list \<Rightarrow> bool" where
  "follows_log topic base vs worker k future \<longleftrightarrow>
     int base \<le> k \<and> k \<le> int base + int (length vs)
     \<and> (case worker of
          EventPolling \<Rightarrow> list_all (of_log topic (int base) vs) future \<and> gapless topic k future
        | EventApplying rs \<Rightarrow> list_all (of_log topic (int base) vs) (rs @ future) \<and> gapless topic k (rs @ future)
        | _ \<Rightarrow> True)"

lemma poll_follows_log:
  assumes "poll_once cancelled p worker = Some worker'" and "follows_log topic base vs worker k (po_records p @ future)"
  shows "follows_log topic base vs worker' k future"
  using assms by (auto simp: poll_once_def follows_log_def split: if_splits option.splits)

lemma record_follows_log:
  assumes handler: "\<And>n s. base \<le> n \<Longrightarrow> n < base + length vs \<Longrightarrow> J n s \<Longrightarrow>
      \<exists>s'. handler (int n) (vs ! (n - base)) s = (s', None) \<and> J (Suc n) s'"
    and small: "int base + int (length vs) < 2 ^ 63"
    and k: "int base \<le> k" "k \<le> int base + int (length vs)" and r: "of_log topic (int base) vs r"
      "event_record topic r \<longrightarrow> kr_offset r \<le> k" and J: "J (nat k) s"
  shows "\<exists>s'. consume_record topic (- 1) handler r (k, s, None) = (advance topic r k, s', None) \<and> J (nat (advance topic r k)) s'
    \<and> int base \<le> advance topic r k \<and> advance topic r k \<le> int base + int (length vs)"
proof (cases "event_record topic r \<and> kr_offset r = k")
  case True
  then have in_log: "kr_value r = vs ! nat (k - int base)" "k < int base + int (length vs)"
    using r(1) by (simp_all add: of_log_def)
  have n: "base \<le> nat k" "nat k < base + length vs" "int (nat k) = k" "nat (k - int base) = nat k - base"
    using k in_log(2) by auto
  obtain s' where s': "handler k (kr_value r) s = (s', None)" "J (Suc (nat k)) s'"
    using handler [OF n(1,2) J] in_log(1) n(3,4) by auto
  have "wrap64 (k + 1) = k + 1" using in_log(2) small k(1) wrap64_next [of "k + 1"] by linarith
  then have "consume_record topic (- 1) handler r (k, s, None) = (k + 1, s', None)"
    using s'(1) True by (simp add: consume_record_def event_record_def)
  moreover have "advance topic r k = k + 1" using True by (simp add: advance_def)
  moreover have "nat (k + 1) = Suc (nat k)" using k(1) by simp
  ultimately show ?thesis using s'(2) in_log(2) k(1) by simp
next
  case False
  then have "consume_record topic (- 1) handler r (k, s, None) = (k, s, None)"
    using r(2) by (auto simp: consume_record_def event_record_def)
  moreover have "advance topic r k = k" using False r(2) by (auto simp: advance_def)
  ultimately show ?thesis using J k by simp
qed

lemma apply_follows_log:
  assumes handler: "\<And>n s. base \<le> n \<Longrightarrow> n < base + length vs \<Longrightarrow> J n s \<Longrightarrow>
      \<exists>s'. handler (int n) (vs ! (n - base)) s = (s', None) \<and> J (Suc n) s'"
    and small: "int base + int (length vs) < 2 ^ 63"
    and step: "apply_once topic handler worker k s = Some (worker', k', s')"
    and log: "follows_log topic base vs worker k future" and J: "J (nat k) s"
  shows "follows_log topic base vs worker' k' future \<and> J (nat k') s' \<and> (\<forall>err. worker' \<noteq> EventFailed err)"
proof -
  consider "worker = EventApplying []" "worker' = EventPolling" "k' = k" "s' = s"
    | r rs where "worker = EventApplying (r # rs)"
    using step by (auto simp: apply_once_def split: event_worker.splits list.splits)
  then show ?thesis
  proof cases
    case 1
    then show ?thesis using log J by (simp add: follows_log_def)
  next
    case (2 r rs)
    have L: "int base \<le> k" "k \<le> int base + int (length vs)" "of_log topic (int base) vs r"
        "event_record topic r \<longrightarrow> kr_offset r \<le> k" "list_all (of_log topic (int base) vs) (rs @ future)"
        "gapless topic (advance topic r k) (rs @ future)"
      using log 2 by (simp_all add: follows_log_def)
    obtain s1 where s1: "consume_record topic (- 1) handler r (k, s, None) = (advance topic r k, s1, None)"
        "J (nat (advance topic r k)) s1" "int base \<le> advance topic r k" "advance topic r k \<le> int base + int (length vs)"
      using record_follows_log [where J = J and handler = handler, OF _ small L(1-4) J] handler by blast
    then have "worker' = EventApplying rs" "k' = advance topic r k" "s' = s1"
      using step 2 by (simp_all add: apply_once_def)
    then show ?thesis using s1 L(5,6) by (simp add: follows_log_def)
  qed
qed

end
