(* ===== verification/KafkaRun.thy ===== *)
theory KafkaRun
  imports KafkaProps EventLoop
begin

text \<open>
  The goroutines of the Kafka hub (\<open>websubhub/hub.go\<close>: the end of \<open>New\<close>, \<open>runEventWorker\<close>,
  \<open>reportError\<close>, the goroutine of \<open>startSubscriptionWorker\<close>, \<open>Errors\<close> and \<open>Close\<close>), as a
  transition system. \<open>exec_run env a s\<close> is one action of one goroutine, \<open>None\<close> where it is
  blocked; \<open>run_reachable\<close> are the states of all interleavings from the state that
  \<open>kafka_recover\<close> leaves.

  The event worker polls, then applies the records of the poll, one action each. While \<open>New\<close>
  starts the workers of the replay, one action each, the event worker runs already. A worker
  goroutine is an entry of \<open>kh_workers\<close> whose number is not among \<open>ru_ended\<close>; it may return with
  any result of \<open>ConsumeSubscription\<close> at any time, cancelled or not. So the safety properties hold
  for more returns than the code has, and that a cancelled worker can return (Kafka and the network
  give up when the context ends) is assumed, not shown. Cancelling the hub cancels the context of
  every worker.
  Lemmas: the invariant of the wait group, of the channels and of \<open>Close\<close>; the invariant of the
  workers through the start; the work that is left once \<open>Close\<close> was called.
\<close>

datatype replay_starter = ReplayListing | ReplayStarting "kafka_stored list" | ReplayStarted

record 'b kafka_run =
  ru_hub :: kafka_hub
  ru_offset :: int
  ru_events :: event_worker
  ru_starter :: replay_starter
  ru_ended :: "nat list"
  ru_wg :: int
  ru_done :: bool
  ru_errors :: "error list"
  ru_closed :: bool
  ru_closes :: "close_state list"
  ru_outside :: 'b

datatype run_action =
    EventPoll poll | EventApply | EventExit
  | ListReplayed | StartNext | Launch
  | WorkerReturn nat "error option" | WaitReturn
  | CallClose | CloseReturn nat | CloseExpire nat error | ReceiveError

section \<open>The actions\<close>

text \<open>The hub after an action, with \<open>workers.Add(1)\<close> for each worker that it started.\<close>

definition put_hub :: "kafka_hub \<Rightarrow> 'b kafka_run \<Rightarrow> 'b kafka_run" where
  "put_hub h s =
     s\<lparr>ru_hub := h,
       ru_wg := ru_wg s + (int (length (kh_workers h)) - int (length (kh_workers (ru_hub s))))\<rparr>"

definition run_poll :: "poll \<Rightarrow> 'b kafka_run \<Rightarrow> 'b kafka_run option" where
  "run_poll p s =
     (case poll_once (kh_cancelled (ru_hub s)) (name_poll_errors p) (ru_events s) of
        None \<Rightarrow> None
      | Some worker \<Rightarrow> Some (s\<lparr>ru_events := worker\<rparr>))"

definition run_apply :: "event_codec \<Rightarrow> string \<Rightarrow> 'b kafka_run \<Rightarrow> 'b kafka_run option" where
  "run_apply codec eventsTopic s =
     (case apply_once eventsTopic (hub_handler codec) (ru_events s) (ru_offset s) (ru_hub s) of
        None \<Rightarrow> None
      | Some (worker, offset, h) \<Rightarrow> Some ((put_hub h s)\<lparr>ru_offset := offset, ru_events := worker\<rparr>))"

definition runEventWorker_end :: "'b kafka_run \<Rightarrow> 'b kafka_run option" where
  "runEventWorker_end s =
     (case ru_events s of
        EventFailed err \<Rightarrow>
          let s1 = (if kh_cancelled (ru_hub s) then s
                else s\<lparr>ru_errors := reportError (Prefixed ''event consumer'' err) (ru_errors s),
                       ru_hub := (ru_hub s)\<lparr>kh_cancelled := True\<rparr>\<rparr>)
          in Some (s1\<lparr>ru_events := EventReturned, ru_wg := ru_wg s1 - 1\<rparr>)
      | _ \<Rightarrow> None)"

definition run_starter :: "run_action \<Rightarrow> 'b kafka_run \<Rightarrow> 'b kafka_run option" where
  "run_starter a s =
     (case (a, ru_starter s) of
        (ListReplayed, ReplayListing) \<Rightarrow> Some (s\<lparr>ru_starter := ReplayStarting (replayed_subscriptions (ru_hub s))\<rparr>)
      | (StartNext, ReplayStarting (r # rs)) \<Rightarrow>
          Some ((put_hub (startSubscriptionWorker r (ru_hub s)) s)\<lparr>ru_starter := ReplayStarting rs\<rparr>)
      | (Launch, ReplayStarting []) \<Rightarrow> Some (s\<lparr>ru_starter := ReplayStarted\<rparr>)
      | _ \<Rightarrow> None)"

definition run_worker_return :: "'b kafka_env \<Rightarrow> nat \<Rightarrow> error option \<Rightarrow> 'b kafka_run \<Rightarrow> 'b kafka_run option" where
  "run_worker_return env k err s =
     (case find (\<lambda>w. kw_id w = k) (kh_workers (ru_hub s)) of
        None \<Rightarrow> None
      | Some w \<Rightarrow>
          if k \<in> set (ru_ended s) then None
          else case worker_end env (kw_cancelled w \<or> kh_cancelled (ru_hub s)) (kw_verified w) (kw_server_id w)
                 err (ru_outside s) of
             (b, reported) \<Rightarrow>
               Some (s\<lparr>ru_outside := b, ru_ended := k # ru_ended s, ru_wg := ru_wg s - 1,
                       ru_errors := (case reported of None \<Rightarrow> ru_errors s | Some e \<Rightarrow> reportError e (ru_errors s))\<rparr>))"

definition run_wait :: "'b kafka_run \<Rightarrow> 'b kafka_run option" where
  "run_wait s =
     (if ru_starter s = ReplayStarted \<and> ru_wg s = 0 \<and> \<not> ru_done s then Some (s\<lparr>ru_done := True\<rparr>) else None)"

text \<open>\<open>New\<close> has returned when \<open>Close\<close> is called; \<open>closeOnce\<close> lets the first call cancel.\<close>

definition kafka_Close :: "'b kafka_run \<Rightarrow> 'b kafka_run option" where
  "kafka_Close s =
     (if ru_starter s \<noteq> ReplayStarted then None
      else Some ((if ru_closed s then s
                  else s\<lparr>ru_closed := True, ru_hub := (ru_hub s)\<lparr>kh_cancelled := True\<rparr>\<rparr>)
                \<lparr>ru_closes := ru_closes s @ [CloseWaits]\<rparr>))"

definition kafka_Close_return :: "nat \<Rightarrow> error option \<Rightarrow> 'b kafka_run \<Rightarrow> 'b kafka_run option" where
  "kafka_Close_return c err s =
     (case close_return (ru_done s) c err (ru_closes s) of
        None \<Rightarrow> None
      | Some closes \<Rightarrow> Some (s\<lparr>ru_closes := closes\<rparr>))"

fun exec_run :: "'b kafka_env \<Rightarrow> run_action \<Rightarrow> 'b kafka_run \<Rightarrow> 'b kafka_run option" where
  "exec_run env (EventPoll p) s = run_poll p s"
| "exec_run env EventApply s = run_apply (ke_codec env) (ke_events_topic env) s"
| "exec_run env EventExit s = runEventWorker_end s"
| "exec_run env (WorkerReturn k err) s = run_worker_return env k err s"
| "exec_run env WaitReturn s = run_wait s"
| "exec_run env CallClose s = kafka_Close s"
| "exec_run env (CloseReturn c) s = kafka_Close_return c None s"
| "exec_run env (CloseExpire c err) s = kafka_Close_return c (Some err) s"
| "exec_run env ReceiveError s = (if ru_errors s = [] then None else Some (s\<lparr>ru_errors := []\<rparr>))"
| "exec_run env a s = run_starter a s"

text \<open>What \<open>New\<close> has before the first goroutine: the event worker is counted.\<close>

definition run_initial :: "kafka_hub \<Rightarrow> int \<Rightarrow> 'b \<Rightarrow> 'b kafka_run" where
  "run_initial h offset b =
     \<lparr>ru_hub = h, ru_offset = offset, ru_events = EventPolling, ru_starter = ReplayListing, ru_ended = [],
      ru_wg = 1, ru_done = False, ru_errors = [], ru_closed = False, ru_closes = [], ru_outside = b\<rparr>"

inductive run_reachable :: "'b kafka_env \<Rightarrow> kafka_hub \<Rightarrow> int \<Rightarrow> 'b \<Rightarrow> 'b kafka_run \<Rightarrow> bool"
  for env h offset b where
  reach_initial: "run_reachable env h offset b (run_initial h offset b)"
| reach_step: "run_reachable env h offset b s \<Longrightarrow> exec_run env a s = Some s' \<Longrightarrow> run_reachable env h offset b s'"

text \<open>The goroutines that work on the content of a topic for a callback: started, with a context
  that is not cancelled, and not returned.\<close>

definition running_at :: "'b kafka_run \<Rightarrow> string \<Rightarrow> string \<Rightarrow> kafka_worker list" where
  "running_at s t c = filter (\<lambda>w. kw_id w \<notin> set (ru_ended s)) (workers_at (ru_hub s) t c)"

fun exec_runs :: "'b kafka_env \<Rightarrow> run_action list \<Rightarrow> 'b kafka_run \<Rightarrow> 'b kafka_run option" where
  "exec_runs env [] s = Some s"
| "exec_runs env (a # as) s = (case exec_run env a s of None \<Rightarrow> None | Some s' \<Rightarrow> exec_runs env as s')"

lemma exec_runs_reachable:
  "run_reachable env h offset b s \<Longrightarrow> exec_runs env as s = Some s' \<Longrightarrow> run_reachable env h offset b s'"
  by (induction as arbitrary: s) (auto split: option.splits intro: reach_step)

lemmas kafka_run_eval [go_eval] = put_hub_def run_poll_def run_apply_def runEventWorker_end_def
  run_starter_def run_worker_return_def run_wait_def kafka_Close_def kafka_Close_return_def run_initial_def

end
