(* ===== verification/KafkaRunInv.thy ===== *)
theory KafkaRunInv
  imports KafkaRun
begin

text \<open>
  The invariants of the running Kafka hub in every interleaving. \<open>run_ok\<close>: the wait group counts
  the goroutines that have not returned, and the workers serve the stored subscriptions up to
  those that the start has still to serve (\<open>pending_starts\<close>). \<open>close_ok\<close>: what \<open>done\<close>, \<open>closeOnce\<close>
  and the returned calls of \<open>Close\<close> imply. Then the end: \<open>done_quiet\<close> (nothing moves any more),
  \<open>shutdown_runs\<close> and \<open>shutdown_progress\<close> (after \<open>Close\<close> the goroutines have boundedly many
  actions left, and one of them can move until \<open>done\<close>), and \<open>start_schedule_runs\<close>: the order
  of \<open>kafka_New\<close> is one of the interleavings.
\<close>

section \<open>How the workers grow\<close>

text \<open>Workers are only added at the end, and none to a cancelled hub.\<close>

definition grows :: "kafka_hub \<Rightarrow> kafka_hub \<Rightarrow> bool" where
  "grows h h' \<longleftrightarrow>
     (\<exists>ks. map kw_id (kh_workers h') = map kw_id (kh_workers h) @ ks \<and> (kh_cancelled h \<or> kh_replaying h \<longrightarrow> ks = []))
     \<and> kh_cancelled h' = kh_cancelled h \<and> kh_replaying h' = kh_replaying h \<and> kh_server_id h' = kh_server_id h"

lemma growsD:
  assumes "grows h h'"
  shows "kw_id ` set (kh_workers h) \<subseteq> kw_id ` set (kh_workers h')"
    and "length (kh_workers h) \<le> length (kh_workers h')"
    and "kh_cancelled h \<or> kh_replaying h \<Longrightarrow> length (kh_workers h') = length (kh_workers h)"
    and "kh_cancelled h' = kh_cancelled h" "kh_replaying h' = kh_replaying h" "kh_server_id h' = kh_server_id h"
proof -
  obtain ks where ks: "map kw_id (kh_workers h') = map kw_id (kh_workers h) @ ks"
      "kh_cancelled h \<or> kh_replaying h \<longrightarrow> ks = []"
    using assms by (auto simp: grows_def)
  show "kw_id ` set (kh_workers h) \<subseteq> kw_id ` set (kh_workers h')"
    using arg_cong [OF ks(1), of set] by auto
  have len: "length (kh_workers h') = length (kh_workers h) + length ks"
    using arg_cong [OF ks(1), of length] by simp
  then show "length (kh_workers h) \<le> length (kh_workers h')" by simp
  show "length (kh_workers h') = length (kh_workers h)" if "kh_cancelled h \<or> kh_replaying h"
    using len ks(2) that by simp
qed (use assms in \<open>simp_all add: grows_def\<close>)

lemma grows_refl [simp]: "grows h h"
  by (simp add: grows_def)

lemma grows_trans: "grows h h1 \<Longrightarrow> grows h1 h2 \<Longrightarrow> grows h h2"
  unfolding grows_def by force

lemma grows_same:
  "map kw_id (kh_workers h') = map kw_id (kh_workers h) \<Longrightarrow> kh_cancelled h' = kh_cancelled h \<Longrightarrow>
    kh_replaying h' = kh_replaying h \<Longrightarrow> kh_server_id h' = kh_server_id h \<Longrightarrow> grows h h'"
  by (simp add: grows_def)

lemma grows_start:
  assumes "\<not> kh_replaying h"
  shows "grows h (startSubscriptionWorker r h)"
  using assms by (auto simp: grows_def startSubscriptionWorker_def split: option.split)

lemma grows_event:
  assumes "dispatch_event hub_methods e h = (h', err)"
  shows "grows h h'"
proof (cases e)
  case (EventSubscribe u)
  let ?put = "\<lambda>s. h\<lparr>kh_subscribers := nested_put (ks_topic u) (ks_callback u) s (kh_subscribers h), kh_next := Suc (kh_next h)\<rparr>"
  have put: "grows h (if kh_replaying h then ?put s else startSubscriptionWorker s (?put s))" for s
    by (rule grows_trans [of h "?put s"]) (auto intro!: grows_same grows_start)
  show ?thesis
    using assms EventSubscribe put
    by (auto simp: hub_methods_def hub_subscribe_def Let_def split: prod.splits option.splits if_splits)
qed (use assms in \<open>auto simp: hub_methods_def hub_apply_defs Let_def cancel_workers_ids cancel_worker_ids
    split: option.splits if_splits intro!: grows_same\<close>)

lemma ApplyEvent_cases:
  obtains err where "ApplyEvent codec payload m s = (s, Some err)"
  | e where "ApplyEvent codec payload m s = dispatch_event m e s"
proof -
  define ok where "ok y \<longleftrightarrow> (\<exists>err. y = (s, Some err)) \<or> (\<exists>e. y = dispatch_event m e s)" for y
  have event: "ok (dispatch_event m e s)" for e by (auto simp: ok_def)
  note methods = event [of "EventRegister x" for x] event [of "EventDeregister x" for x]
    event [of "EventSubscribe x" for x] event [of "EventStale x" for x] event [of "EventUnsubscribe x" for x]
  have failed: "ok (s, Some err)" for err by (auto simp: ok_def)
  have "ok (ApplyEvent codec payload m s)"
    using methods failed by (simp add: ApplyEvent_def split: sum.split prod.split)
  then have "(\<exists>err. ApplyEvent codec payload m s = (s, Some err)) \<or> (\<exists>e. ApplyEvent codec payload m s = dispatch_event m e s)"
    by (simp only: ok_def)
  then show ?thesis using that by blast
qed

lemma grows_handler:
  assumes "hub_handler codec offset payload h = (h', err)" and "hub_starting pending h"
  shows "grows h h' \<and> hub_starting pending h'"
proof (cases rule: ApplyEvent_cases [of codec payload hub_methods h])
  case (1 err')
  then show ?thesis using assms by (simp add: hub_handler_def)
next
  case (2 e)
  then show ?thesis
    using assms by (cases "dispatch_event hub_methods e h")
      (auto simp: hub_handler_def split: option.splits dest: grows_event running_event)
qed

lemma grows_record:
  assumes "consume_record topic end (hub_handler codec) r (offset, h, err) = (offset', h', err')" and "hub_starting pending h"
  shows "grows h h' \<and> hub_starting pending h'"
  using assms by (auto simp: consume_record_def split: prod.splits option.splits if_splits dest: grows_handler)

section \<open>What the start leaves\<close>

lemma grows_log: "dispatch_log hub_methods es h = (h', err) \<Longrightarrow> grows h h'"
proof (induction es arbitrary: h)
  case (Cons e es)
  then show ?case by (auto split: prod.splits option.splits dest: grows_event intro: grows_trans)
qed simp

text \<open>What a handler keeps, the loop keeps.\<close>

lemma consume_batch_keeps:
  assumes handler: "\<And>offset v s s' err. handler offset v s = (s', err) \<Longrightarrow> I s \<Longrightarrow> I s'"
  shows "I s \<Longrightarrow> fold (consume_record topic replayEnd handler) rs (offset, s, err) = (offset', s', err') \<Longrightarrow> I s'"
proof (induction rs arbitrary: offset s err)
  case (Cons r rs)
  obtain o1 s1 e1 where one: "consume_record topic replayEnd handler r (offset, s, err) = (o1, s1, e1)"
    by (metis surj_pair)
  then have "I s1"
    using handler Cons.prems(1) by (auto simp: consume_record_def split: if_splits prod.splits option.splits)
  then show ?case using Cons.IH one Cons.prems(2) by simp
qed simp

lemma consumeEvents_keeps:
  assumes handler: "\<And>offset v s s' err. handler offset v s = (s', err) \<Longrightarrow> I s \<Longrightarrow> I s'"
  shows "I s \<Longrightarrow> consumeEvents topic handler replayEnd ps offset s = (offset', s', res) \<Longrightarrow> I s'"
proof (induction ps arbitrary: offset s)
  case (Cons p ps)
  obtain o1 s1 e1 where one: "consume_batch topic replayEnd handler (po_records p) offset s = (o1, s1, e1)"
    by (metis surj_pair)
  then have "I s1"
    using consume_batch_keeps [of handler I, OF handler Cons.prems(1)] by (simp add: consume_batch_def)
  then show ?case
    using Cons one by (auto split: option.splits if_splits)
qed simp

lemma recovered:
  assumes "kafka_recover codec topic options fetched logEnd ps = HubStarted h offset"
  shows "hub_starting UNIV h \<and> \<not> kh_replaying h \<and> \<not> kh_cancelled h \<and> kh_workers h = []
    \<and> kh_server_id h = kop_server_id options"
proof -
  obtain h0 where h0: "new_kafka_hub options = Inr h0"
    using assms by (auto simp: kafka_recover_def split: sum.splits)
  define I where "I g \<longleftrightarrow> hub_running g \<and> grows h0 g" for g
  have empty: "kh_workers h0 = []" "hub_running h0" "kh_replaying h0" "\<not> kh_cancelled h0" "kh_server_id h0 = kop_server_id options"
    using new_kafka_hub_running [OF h0] h0 by (auto simp: new_kafka_hub_def Let_def split: if_splits)
  obtain sn where sn: "fetched = Inr sn" using assms h0 by (auto simp: kafka_recover_def split: sum.splits)
  obtain h1 err where "applySnapshot sn h0 = (h1, err)" by fastforce
  then have snapshot: "applySnapshot sn h0 = (h1, None)"
    using assms h0 sn by (auto simp: kafka_recover_def split: option.splits)
  obtain o2 h2 res where r: "hub_ReplayEvents codec topic logEnd ps 0 h1 = (o2, h2, res)"
    by (metis surj_pair)
  have replay: "ReplayEvents topic (hub_handler codec) logEnd (map name_poll_errors ps) 0 h1 = (o2, h2, res)"
    using r by (simp add: hub_ReplayEvents_def)
  have h: "h = h2\<lparr>kh_replaying := False\<rparr>"
    using assms h0 sn snapshot r by (auto simp: kafka_recover_def split: option.splits consumed.splits)
  have "I h1"
    using snapshot running_log [OF empty(2)] grows_log [of _ h0 h1]
    by (auto simp: I_def applySnapshot_def restore_def)
  moreover have handler: "I g'" if "hub_handler codec k v g = (g', err)" "I g" for k v g g' err
    using grows_handler [OF that(1)] that(2) grows_trans unfolding I_def by blast
  ultimately have "I h2"
    using replay consumeEvents_keeps [of "hub_handler codec" I, OF handler]
    unfolding ReplayEvents_def by (auto split: sum.splits if_splits)
  then have g: "grows h0 h2" "hub_running h2" by (simp_all add: I_def)
  have "hub_starting UNIV h"
    using hub_startingD(1,2) [OF g(2)] by (simp add: h hub_starting_def all_served_def hub_ok_def kh_get_def [abs_def])
  moreover have "kh_workers h2 = []" using growsD(3) [OF g(1)] empty(1,3) by simp
  ultimately show ?thesis
    using empty growsD(4,6) [OF g(1)] by (simp add: h)
qed

section \<open>The invariant\<close>

definition pending_starts :: "replay_starter \<Rightarrow> (string \<times> string \<times> nat) set" where
  "pending_starts p =
     (case p of ReplayListing \<Rightarrow> UNIV | ReplayStarting rs \<Rightarrow> start_key ` set rs | ReplayStarted \<Rightarrow> {})"

text \<open>The wait group counts the goroutines that have not returned.\<close>

definition goroutines :: "'b kafka_run \<Rightarrow> int" where
  "goroutines s =
     (if ru_events s = EventReturned then 0 else 1)
     + int (length (filter (\<lambda>w. kw_id w \<notin> set (ru_ended s)) (kh_workers (ru_hub s))))"

definition run_ok :: "'b kafka_run \<Rightarrow> bool" where
  "run_ok s \<longleftrightarrow>
     hub_starting (pending_starts (ru_starter s)) (ru_hub s) \<and> \<not> kh_replaying (ru_hub s)
     \<and> distinct (ru_ended s) \<and> set (ru_ended s) \<subseteq> kw_id ` set (kh_workers (ru_hub s))
     \<and> ru_wg s = (if ru_events s = EventReturned then 0 else 1)
         + int (length (kh_workers (ru_hub s))) - int (length (ru_ended s))"

definition close_ok :: "'b kafka_run \<Rightarrow> bool" where
  "close_ok s \<longleftrightarrow>
     (ru_events s = EventReturned \<longrightarrow> kh_cancelled (ru_hub s))
     \<and> (ru_closed s \<longrightarrow> kh_cancelled (ru_hub s) \<and> ru_starter s = ReplayStarted)
     \<and> (ru_closes s \<noteq> [] \<longrightarrow> ru_closed s)
     \<and> (ru_done s \<longrightarrow> ru_starter s = ReplayStarted \<and> ru_wg s = 0)
     \<and> (CloseReturned None \<in> set (ru_closes s) \<longrightarrow> ru_done s)
     \<and> length (ru_errors s) \<le> 1"

lemma length_filter_notin:
  "distinct (map f xs) \<Longrightarrow> distinct ys \<Longrightarrow> set ys \<subseteq> f ` set xs \<Longrightarrow>
     int (length (filter (\<lambda>x. f x \<notin> set ys) xs)) = int (length xs) - int (length ys)"
proof -
  assume d: "distinct (map f xs)" "distinct ys" "set ys \<subseteq> f ` set xs"
  have "card (set ys) = length (filter (\<lambda>x. f x \<in> set ys) xs)"
  proof -
    have "set ys = set (map f (filter (\<lambda>x. f x \<in> set ys) xs))" using d(3) by auto
    moreover have "distinct (map f (filter (\<lambda>x. f x \<in> set ys) xs))" using d(1) by (simp add: distinct_map inj_on_def)
    ultimately show ?thesis by (metis distinct_card length_map)
  qed
  then show ?thesis
    using distinct_card [OF d(2)] sum_length_filter_compl [of "\<lambda>x. f x \<in> set ys" xs] by simp
qed

lemma hub_worker_ids: "hub_starting pending h \<Longrightarrow> distinct (map kw_id (kh_workers h))"
  using workers_okD(3) by (auto dest!: hub_startingD(1) simp: hub_ok_def)

lemma run_okD:
  assumes "run_ok s"
  shows "hub_starting (pending_starts (ru_starter s)) (ru_hub s)" "\<not> kh_replaying (ru_hub s)"
    and "distinct (ru_ended s)" "set (ru_ended s) \<subseteq> kw_id ` set (kh_workers (ru_hub s))"
  using assms by (simp_all add: run_ok_def)

lemma run_ok_wg:
  assumes "run_ok s"
  shows "ru_wg s = goroutines s"
  using assms length_filter_notin [OF hub_worker_ids [OF run_okD(1) [OF assms]] run_okD(3,4) [OF assms]]
  by (simp add: run_ok_def goroutines_def)

text \<open>An action of a goroutine that replaces the hub.\<close>

lemma run_ok_put:
  assumes "run_ok s" and "grows (ru_hub s) h" and "hub_starting (pending_starts p) h"
    and "(ev = EventReturned) = (ru_events s = EventReturned)"
  shows "run_ok ((put_hub h s)\<lparr>ru_offset := k, ru_events := ev, ru_starter := p\<rparr>)"
  using assms growsD(1,5) [OF assms(2)] by (auto simp: run_ok_def put_hub_def)

lemma run_ok_cancel:
  assumes "run_ok s"
  shows "run_ok (s\<lparr>ru_hub := (ru_hub s)\<lparr>kh_cancelled := True\<rparr>\<rparr>)"
  using assms by (auto simp: run_ok_def hub_starting_def hub_ok_def kh_get_def [abs_def])

lemma run_ok_other [simp]:
  "run_ok (s\<lparr>ru_done := d\<rparr>) = run_ok s" "run_ok (s\<lparr>ru_errors := es\<rparr>) = run_ok s"
  "run_ok (s\<lparr>ru_closed := d\<rparr>) = run_ok s" "run_ok (s\<lparr>ru_closes := cs\<rparr>) = run_ok s"
  "run_ok (s\<lparr>ru_outside := b\<rparr>) = run_ok s"
  by (simp_all add: run_ok_def)

lemma run_ok_ended:
  assumes "run_ok s" and "w \<in> set (kh_workers (ru_hub s))" and "kw_id w \<notin> set (ru_ended s)"
  shows "run_ok (s\<lparr>ru_outside := b, ru_ended := kw_id w # ru_ended s, ru_wg := ru_wg s - 1\<rparr>)"
  using assms by (auto simp: run_ok_def)

lemma find_worker: "find (\<lambda>w. kw_id w = k) ws = Some w \<Longrightarrow> w \<in> set ws \<and> kw_id w = k"
  by (auto simp: find_Some_iff)

lemma run_applyE:
  assumes "run_apply codec topic s = Some s'" and "run_ok s"
  obtains worker k h where "apply_once topic (hub_handler codec) (ru_events s) (ru_offset s) (ru_hub s) = Some (worker, k, h)"
    "grows (ru_hub s) h" "hub_starting (pending_starts (ru_starter s)) h"
    "s' = (put_hub h s)\<lparr>ru_offset := k, ru_events := worker\<rparr>"
proof -
  obtain worker k h where w: "apply_once topic (hub_handler codec) (ru_events s) (ru_offset s) (ru_hub s) = Some (worker, k, h)"
      "s' = (put_hub h s)\<lparr>ru_offset := k, ru_events := worker\<rparr>"
    using assms(1) by (auto simp: run_apply_def split: option.splits)
  have "grows (ru_hub s) h \<and> hub_starting (pending_starts (ru_starter s)) h"
    using apply_once_keeps [OF w(1), of "\<lambda>g. grows (ru_hub s) g \<and> hub_starting (pending_starts (ru_starter s)) g"]
      grows_handler [OF _ run_okD(1) [OF assms(2)]] run_okD(1) [OF assms(2)] by auto
  then show thesis using that w by blast
qed

lemma run_ok_apply:
  assumes "run_apply codec topic s = Some s'" and "run_ok s"
  shows "run_ok s'"
proof (rule run_applyE [OF assms])
  fix worker k h
  assume w: "apply_once topic (hub_handler codec) (ru_events s) (ru_offset s) (ru_hub s) = Some (worker, k, h)"
    and h: "grows (ru_hub s) h" "hub_starting (pending_starts (ru_starter s)) h"
    and s': "s' = (put_hub h s)\<lparr>ru_offset := k, ru_events := worker\<rparr>"
  show "run_ok s'"
    using run_ok_put [OF assms(2) h, of worker k] apply_once_alive [OF w] by (simp add: s' put_hub_def)
qed

lemma run_ok_starter:
  assumes "run_starter a s = Some s'" and "run_ok s"
  shows "run_ok s'"
proof -
  note R = run_okD [OF assms(2)]
  consider "s' = s\<lparr>ru_starter := ReplayStarting (replayed_subscriptions (ru_hub s))\<rparr>"
    | r rs where "ru_starter s = ReplayStarting (r # rs)"
      "s' = (put_hub (startSubscriptionWorker r (ru_hub s)) s)\<lparr>ru_starter := ReplayStarting rs\<rparr>"
    | "ru_starter s = ReplayStarting []" "s' = s\<lparr>ru_starter := ReplayStarted\<rparr>"
    using assms(1) by (cases a) (auto simp: run_starter_def split: replay_starter.splits list.splits)
  then show ?thesis
  proof cases
    case 1
    have "hub_starting (start_key ` set (replayed_subscriptions (ru_hub s))) (ru_hub s)"
      using listed_pending [OF hub_startingD(1,2) [OF R(1)]] .
    then show ?thesis using assms(2) 1 by (simp add: run_ok_def pending_starts_def)
  next
    case (2 r rs)
    have "hub_starting (pending_starts (ReplayStarting (r # rs)) - {start_key r}) (startSubscriptionWorker r (ru_hub s))"
      using start_pending [OF R(1), of r] 2(1) by simp
    then have "hub_starting (pending_starts (ReplayStarting rs)) (startSubscriptionWorker r (ru_hub s))"
      by (rule hub_starting_mono) (auto simp: pending_starts_def)
    then show ?thesis
      using run_ok_put [OF assms(2) grows_start [OF R(2), of r], of "ReplayStarting rs" "ru_events s" "ru_offset s"] 2(2)
      by (simp add: put_hub_def)
  next
    case 3
    then show ?thesis using assms(2) by (simp add: run_ok_def pending_starts_def)
  qed
qed

lemma run_ok_event_end: "runEventWorker_end s = Some s' \<Longrightarrow> run_ok s \<Longrightarrow> run_ok s'"
  by (auto simp: runEventWorker_end_def Let_def run_ok_def hub_starting_def hub_ok_def kh_get_def [abs_def]
      split: event_worker.splits if_splits)

lemma worker_returnE:
  assumes "run_worker_return env k err s = Some s'"
  obtains w b errors where "w \<in> set (kh_workers (ru_hub s))" "kw_id w \<notin> set (ru_ended s)"
    "s' = s\<lparr>ru_outside := b, ru_ended := kw_id w # ru_ended s, ru_wg := ru_wg s - 1, ru_errors := errors\<rparr>"
    "errors = ru_errors s \<or> (\<exists>e. errors = reportError e (ru_errors s))"
    "kh_cancelled (ru_hub s) \<longrightarrow> b = ru_outside s \<and> errors = ru_errors s"
proof -
  obtain w where w: "find (\<lambda>w. kw_id w = k) (kh_workers (ru_hub s)) = Some w" "kw_id w \<notin> set (ru_ended s)"
    using assms by (auto simp: run_worker_return_def split: option.splits if_splits dest!: find_worker)
  obtain b rep where e: "worker_end env (kw_cancelled w \<or> kh_cancelled (ru_hub s)) (kw_verified w) (kw_server_id w) err
      (ru_outside s) = (b, rep)"
    by fastforce
  let ?errors = "case rep of None \<Rightarrow> ru_errors s | Some e \<Rightarrow> reportError e (ru_errors s)"
  have quiet: "b = ru_outside s \<and> rep = None" if "kh_cancelled (ru_hub s)"
    using e that by (simp add: worker_end_def)
  have live: "w \<in> set (kh_workers (ru_hub s))" "kw_id w = k" using find_worker [OF w(1)] by simp_all
  show thesis
  proof (rule that [OF live(1) w(2), of ?errors b])
    show "s' = s\<lparr>ru_outside := b, ru_ended := kw_id w # ru_ended s, ru_wg := ru_wg s - 1, ru_errors := ?errors\<rparr>"
      using assms w live e by (simp add: run_worker_return_def)
  qed (use quiet in \<open>auto split: option.splits\<close>)
qed

lemma run_ok_worker_return: "run_worker_return env k err s = Some s' \<Longrightarrow> run_ok s \<Longrightarrow> run_ok s'"
  by (erule worker_returnE) (simp add: run_ok_ended)

lemma run_pollE:
  assumes "run_poll p s = Some s'"
  obtains worker where "poll_once (kh_cancelled (ru_hub s)) (name_poll_errors p) (ru_events s) = Some worker"
    "s' = s\<lparr>ru_events := worker\<rparr>"
  using assms that by (auto simp: run_poll_def split: option.splits)

lemma run_ok_poll: "run_poll p s = Some s' \<Longrightarrow> run_ok s \<Longrightarrow> run_ok s'"
  by (erule run_pollE) (auto simp: run_ok_def dest: poll_once_alive)

lemma run_ok_close: "kafka_Close s = Some s' \<Longrightarrow> run_ok s \<Longrightarrow> run_ok s'"
  by (auto simp: kafka_Close_def run_ok_def hub_starting_def hub_ok_def kh_get_def [abs_def] split: if_splits)

lemmas run_ok_steps = run_ok_poll run_ok_close run_ok_apply run_ok_event_end run_ok_starter run_ok_worker_return

lemma run_ok_step:
  assumes step: "exec_run env a s = Some s'" and ok: "run_ok s"
  shows "run_ok s'"
proof (cases a)
  case WaitReturn
  then show ?thesis using assms by (auto simp: run_wait_def split: if_splits)
next
  case (CloseReturn c)
  then show ?thesis using assms by (auto simp: kafka_Close_return_def split: option.splits)
next
  case (CloseExpire c err)
  then show ?thesis using assms by (auto simp: kafka_Close_return_def split: option.splits)
next
  case ReceiveError
  then show ?thesis using assms by (auto split: if_splits)
qed (use step run_ok_steps [OF _ ok] in \<open>simp_all\<close>)

section \<open>The end\<close>

lemma all_ended:
  assumes "run_ok s" and "ru_wg s = 0"
  shows "ru_events s = EventReturned" and "w \<in> set (kh_workers (ru_hub s)) \<Longrightarrow> kw_id w \<in> set (ru_ended s)"
proof -
  have "goroutines s = 0" using run_ok_wg [OF assms(1)] assms(2) by simp
  then have "ru_events s = EventReturned" "filter (\<lambda>w. kw_id w \<notin> set (ru_ended s)) (kh_workers (ru_hub s)) = []"
    by (auto simp: goroutines_def split: if_splits)
  then show "ru_events s = EventReturned" and "w \<in> set (kh_workers (ru_hub s)) \<Longrightarrow> kw_id w \<in> set (ru_ended s)"
    by (auto simp: filter_empty_conv)
qed

text \<open>Then no goroutine of the hub can move.\<close>

lemma done_quiet:
  assumes "run_ok s" and "ru_wg s = 0" and "ru_starter s = ReplayStarted" and "exec_run env a s = Some s'"
    and "kh_cancelled (ru_hub s)"
  shows "ru_hub s' = ru_hub s \<and> ru_offset s' = ru_offset s \<and> ru_outside s' = ru_outside s \<and> ru_wg s' = 0
    \<and> ru_starter s' = ReplayStarted \<and> ru_events s' = EventReturned \<and> (ru_done s \<longrightarrow> ru_done s')
    \<and> ru_ended s' = ru_ended s"
proof -
  note E = all_ended [OF assms(1,2)]
  have "run_worker_return env k err s = None" for k err
    using E(2) by (auto simp: run_worker_return_def split: option.splits dest!: find_worker)
  then show ?thesis
    using assms(2-5) E(1)
    by (cases a) (auto simp: run_poll_def run_apply_def runEventWorker_end_def run_starter_def run_wait_def
        kafka_Close_def kafka_Close_return_def split: if_splits option.splits dest: poll_once_alive apply_once_alive)
qed

lemma apply_fields:
  assumes "run_apply codec topic s = Some s'" and "run_ok s"
  shows "kh_cancelled (ru_hub s') = kh_cancelled (ru_hub s)" "ru_events s' \<noteq> EventReturned" "ru_events s \<noteq> EventReturned"
    "ru_starter s' = ru_starter s" "ru_closed s' = ru_closed s" "ru_closes s' = ru_closes s" "ru_done s' = ru_done s"
    "ru_errors s' = ru_errors s" "ru_ended s' = ru_ended s"
    "kh_cancelled (ru_hub s) \<Longrightarrow> length (kh_workers (ru_hub s')) = length (kh_workers (ru_hub s))"
    "event_work (ru_events s') < event_work (ru_events s)"
proof -
  obtain worker k h where w: "apply_once topic (hub_handler codec) (ru_events s) (ru_offset s) (ru_hub s) = Some (worker, k, h)"
      "grows (ru_hub s) h" "s' = (put_hub h s)\<lparr>ru_offset := k, ru_events := worker\<rparr>"
    by (rule run_applyE [OF assms])
  show "kh_cancelled (ru_hub s') = kh_cancelled (ru_hub s)" "ru_events s' \<noteq> EventReturned" "ru_events s \<noteq> EventReturned"
    "ru_starter s' = ru_starter s" "ru_closed s' = ru_closed s" "ru_closes s' = ru_closes s" "ru_done s' = ru_done s"
    "ru_errors s' = ru_errors s" "ru_ended s' = ru_ended s"
    "kh_cancelled (ru_hub s) \<Longrightarrow> length (kh_workers (ru_hub s')) = length (kh_workers (ru_hub s))"
    "event_work (ru_events s') < event_work (ru_events s)"
    using growsD(3,4) [OF w(2)] apply_once_alive [OF w(1)] apply_work [OF w(1)] by (simp_all add: w(3) put_hub_def)
qed

lemma starter_fields:
  assumes "run_starter a s = Some s'" and "run_ok s"
  shows "kh_cancelled (ru_hub s') = kh_cancelled (ru_hub s)" "ru_events s' = ru_events s"
    "ru_starter s \<noteq> ReplayStarted" "ru_closed s' = ru_closed s" "ru_closes s' = ru_closes s" "ru_done s' = ru_done s"
    "ru_errors s' = ru_errors s"
  using assms(1) by (auto simp: run_starter_def put_hub_def split: run_action.splits replay_starter.splits list.splits)

lemma close_ok_step:
  assumes "exec_run env a s = Some s'" and "run_ok s" and "close_ok s"
  shows "close_ok s'"
proof -
  have early: "\<not> ru_done s" if "ru_events s \<noteq> EventReturned"
    using all_ended(1) [OF assms(2)] assms(3) that by (auto simp: close_ok_def)
  have ended: "\<not> ru_done s" if "w \<in> set (kh_workers (ru_hub s))" "kw_id w \<notin> set (ru_ended s)" for w
    using all_ended(2) [OF assms(2)] assms(3) that by (auto simp: close_ok_def)
  show ?thesis
  proof (cases a)
    case (EventPoll p)
    then have "run_poll p s = Some s'" using assms(1) by simp
    then show ?thesis by (rule run_pollE) (use assms(3) early in \<open>auto simp: close_ok_def dest: poll_once_alive\<close>)
  next
    case EventApply
    then have step: "run_apply (ke_codec env) (ke_events_topic env) s = Some s'" using assms(1) by simp
    note F = apply_fields [OF step assms(2)]
    show ?thesis using assms(3) F early [OF F(3)] unfolding close_ok_def by simp
  next
    case EventExit
    then show ?thesis using assms(1,3) early report_length
      by (auto simp: runEventWorker_end_def Let_def close_ok_def split: event_worker.splits if_splits)
  next
    case (WorkerReturn k err)
    then have step: "run_worker_return env k err s = Some s'" using assms(1) by simp
    show ?thesis by (rule worker_returnE [OF step]) (use assms(3) ended report_length in \<open>auto simp: close_ok_def\<close>)
  next
    case (CloseReturn c)
    then show ?thesis using assms(1,3) by (auto simp: kafka_Close_return_def close_ok_def split: option.splits dest: close_return_nil)
  next
    case (CloseExpire c err)
    then show ?thesis using assms(1,3) by (auto simp: kafka_Close_return_def close_ok_def split: option.splits dest: close_return_nil)
  next
    case ListReplayed
    then have "run_starter a s = Some s'" using assms(1) by simp
    note F = starter_fields [OF this assms(2)]
    show ?thesis using assms(3) F unfolding close_ok_def by auto
  next
    case StartNext
    then have "run_starter a s = Some s'" using assms(1) by simp
    note F = starter_fields [OF this assms(2)]
    show ?thesis using assms(3) F unfolding close_ok_def by auto
  next
    case Launch
    then have "run_starter a s = Some s'" using assms(1) by simp
    note F = starter_fields [OF this assms(2)]
    show ?thesis using assms(3) F unfolding close_ok_def by auto
  qed (use assms(1,3) in \<open>auto simp: run_wait_def kafka_Close_def close_ok_def split: if_splits\<close>)
qed

text \<open>A hub that \<open>kafka_recover\<close> returned is where a run starts.\<close>

definition recovered_hub :: "kafka_hub \<Rightarrow> bool" where
  "recovered_hub h \<longleftrightarrow> hub_starting UNIV h \<and> \<not> kh_replaying h \<and> \<not> kh_cancelled h \<and> kh_workers h = []"

lemma run_initial_ok: "recovered_hub h \<Longrightarrow> run_ok (run_initial h offset b) \<and> close_ok (run_initial h offset b)"
  by (simp add: recovered_hub_def run_ok_def close_ok_def run_initial_def pending_starts_def)

lemma reachable_ok: "run_reachable env h offset b s \<Longrightarrow> recovered_hub h \<Longrightarrow> run_ok s \<and> close_ok s"
proof (induction rule: run_reachable.induct)
  case (reach_step s a s')
  then show ?case using run_ok_step close_ok_step by blast
qed (rule run_initial_ok)

section \<open>After \<open>Close\<close>\<close>

text \<open>The actions of the hub's own goroutines, and how many of them can be left.\<close>

definition own_action :: "run_action \<Rightarrow> bool" where
  "own_action a \<longleftrightarrow>
     (case a of CallClose \<Rightarrow> False | CloseReturn _ \<Rightarrow> False | CloseExpire _ _ \<Rightarrow> False | ReceiveError \<Rightarrow> False | _ \<Rightarrow> True)"

definition shutdown_work :: "'b kafka_run \<Rightarrow> nat" where
  "shutdown_work s =
     event_work (ru_events s) + (length (kh_workers (ru_hub s)) - length (ru_ended s)) + (if ru_done s then 0 else 1)"

lemma ended_less:
  assumes "run_ok s" and "w \<in> set (kh_workers (ru_hub s))" and "kw_id w \<notin> set (ru_ended s)"
  shows "length (ru_ended s) < length (kh_workers (ru_hub s))"
proof -
  have "filter (\<lambda>w. kw_id w \<notin> set (ru_ended s)) (kh_workers (ru_hub s)) \<noteq> []"
    using assms(2,3) by (auto simp: filter_empty_conv)
  then have "0 < int (length (filter (\<lambda>w. kw_id w \<notin> set (ru_ended s)) (kh_workers (ru_hub s))))" by simp
  then show ?thesis
    using length_filter_notin [OF hub_worker_ids [OF run_okD(1) [OF assms(1)]] run_okD(3,4) [OF assms(1)]] by simp
qed

lemma own_action_work:
  assumes step: "exec_run env a s = Some s'" and own: "own_action a" and ok: "run_ok s" "close_ok s" and closed: "ru_closed s"
  shows "shutdown_work s' < shutdown_work s \<and> ru_closed s'"
proof -
  have C: "kh_cancelled (ru_hub s)" "ru_starter s = ReplayStarted" using ok(2) closed by (simp_all add: close_ok_def)
  show ?thesis
  proof (cases a)
    case (EventPoll p)
    then have "run_poll p s = Some s'" using step by simp
    then show ?thesis
      by (rule run_pollE) (use closed C(1) in \<open>auto simp: shutdown_work_def dest: poll_work\<close>)
  next
    case EventApply
    then have "run_apply (ke_codec env) (ke_events_topic env) s = Some s'" using step by simp
    note F = apply_fields [OF this ok(1)]
    show ?thesis using F(5,7,9,11) F(10) [OF C(1)] closed by (simp add: shutdown_work_def)
  next
    case EventExit
    then show ?thesis using step closed C(1)
      by (auto simp: runEventWorker_end_def shutdown_work_def event_work_def split: event_worker.splits)
  next
    case (WorkerReturn k err)
    then have "run_worker_return env k err s = Some s'" using step by simp
    then obtain w b errors where w: "w \<in> set (kh_workers (ru_hub s))" "kw_id w \<notin> set (ru_ended s)"
        "s' = s\<lparr>ru_outside := b, ru_ended := kw_id w # ru_ended s, ru_wg := ru_wg s - 1, ru_errors := errors\<rparr>"
      by (rule worker_returnE)
    then show ?thesis using closed ended_less [OF ok(1) w(1,2)] by (simp add: shutdown_work_def)
  next
    case WaitReturn
    then show ?thesis using step closed by (auto simp: run_wait_def shutdown_work_def split: if_splits)
  qed (use step own C(2) in \<open>simp_all add: own_action_def run_starter_def\<close>)
qed

lemma other_action_work:
  assumes "exec_run env a s = Some s'" and "\<not> own_action a" and "ru_closed s"
  shows "shutdown_work s' = shutdown_work s \<and> ru_closed s'"
  using assms
  by (cases a) (auto simp: own_action_def kafka_Close_def kafka_Close_return_def shutdown_work_def split: if_splits option.splits)

lemma shutdown_runs:
  "exec_runs env as s = Some s' \<Longrightarrow> run_ok s \<Longrightarrow> close_ok s \<Longrightarrow> ru_closed s \<Longrightarrow>
     length (filter own_action as) + shutdown_work s' \<le> shutdown_work s \<and> run_ok s' \<and> close_ok s' \<and> ru_closed s'"
proof (induction as arbitrary: s)
  case (Cons a as)
  obtain s1 where s1: "exec_run env a s = Some s1" "exec_runs env as s1 = Some s'"
    using Cons.prems(1) by (auto split: option.splits)
  have "shutdown_work s1 + (if own_action a then 1 else 0) \<le> shutdown_work s \<and> ru_closed s1"
    using own_action_work [OF s1(1)] other_action_work [OF s1(1)] Cons.prems by (cases "own_action a") simp_all
  then show ?case
    using Cons.IH [OF s1(2)] Cons.prems run_ok_step [OF s1(1)] close_ok_step [OF s1(1)] by fastforce
qed simp

lemma named_poll: "poll_once cancelled p worker = Some worker' \<Longrightarrow> \<exists>worker'. poll_once cancelled (name_poll_errors p) worker = Some worker'"
  by (simp add: poll_once_def name_poll_errors_def split: if_splits)

lemma shutdown_progress:
  assumes ok: "run_ok s" "close_ok s" and closed: "ru_closed s" and n: "\<not> ru_done s"
  shows "\<exists>a s'. own_action a \<and> exec_run env a s = Some s'"
proof -
  have C: "kh_cancelled (ru_hub s)" "ru_starter s = ReplayStarted" using ok(2) closed by (simp_all add: close_ok_def)
  have "\<exists>a. own_action a \<and> exec_run env a s \<noteq> None"
  proof (cases "ru_events s = EventReturned")
    case False
    then consider p where "run_poll p s \<noteq> None" | "run_apply (ke_codec env) (ke_events_topic env) s \<noteq> None"
      | "runEventWorker_end s \<noteq> None"
    proof -
      have poll: "run_poll p s \<noteq> None" if "poll_once (kh_cancelled (ru_hub s)) p (ru_events s) = Some worker" for p worker
        using named_poll [OF that] by (auto simp: run_poll_def)
      have records: "run_apply (ke_codec env) (ke_events_topic env) s \<noteq> None"
        if "apply_once (ke_events_topic env) (hub_handler (ke_codec env)) (ru_events s) (ru_offset s) (ru_hub s) =
          Some (worker, k, h)" for worker k h
        using that by (simp add: run_apply_def)
      have ends: "runEventWorker_end s \<noteq> None" if "ru_events s = EventFailed err" for err
        using that by (simp add: runEventWorker_end_def Let_def)
      show thesis
        using loop_enabled [OF False, of "kh_cancelled (ru_hub s)" "ke_events_topic env" "hub_handler (ke_codec env)"
          "ru_offset s" "ru_hub s"] poll records ends that
        by blast
    qed
    then show ?thesis
    proof cases
      case (1 p)
      then have "own_action (EventPoll p) \<and> exec_run env (EventPoll p) s \<noteq> None" by (simp add: own_action_def)
      then show ?thesis by blast
    next
      case 2
      then have "own_action EventApply \<and> exec_run env EventApply s \<noteq> None" by (simp add: own_action_def)
      then show ?thesis by blast
    next
      case 3
      then have "own_action EventExit \<and> exec_run env EventExit s \<noteq> None" by (simp add: own_action_def)
      then show ?thesis by blast
    qed
  next
    case returned: True
    show ?thesis
    proof (cases "\<exists>w \<in> set (kh_workers (ru_hub s)). kw_id w \<notin> set (ru_ended s)")
      case True
      then obtain w where w: "w \<in> set (kh_workers (ru_hub s))" "kw_id w \<notin> set (ru_ended s)" by blast
      then have "find (\<lambda>v. kw_id v = kw_id w) (kh_workers (ru_hub s)) \<noteq> None" by (auto simp: find_None_iff)
      then have "own_action (WorkerReturn (kw_id w) None) \<and> exec_run env (WorkerReturn (kw_id w) None) s \<noteq> None"
        using w(2) by (auto simp: own_action_def run_worker_return_def split: prod.split)
      then show ?thesis by blast
    next
      case False
      then have "ru_wg s = 0"
        using returned run_ok_wg [OF ok(1)] by (simp add: goroutines_def filter_empty_conv)
      then have "own_action WaitReturn \<and> exec_run env WaitReturn s \<noteq> None"
        using n C(2) by (simp add: own_action_def run_wait_def)
      then show ?thesis by blast
    qed
  qed
  then show ?thesis by blast
qed

section \<open>Runs from a start\<close>

lemma recovered_run:
  assumes "kafka_recover codec topic options fetched logEnd ps = HubStarted h offset" and "run_reachable env h offset b s"
  shows "run_ok s" and "close_ok s"
  using reachable_ok [OF assms(2)] recovered [OF assms(1)] by (simp_all add: recovered_hub_def)

text \<open>The order in which \<open>kafka_New\<close> runs is one of the interleavings.\<close>

lemma start_runs:
  "exec_runs env (replicate (length rs) StartNext) (s\<lparr>ru_starter := ReplayStarting rs\<rparr>) =
     Some ((put_hub (fold startSubscriptionWorker rs (ru_hub s)) s)\<lparr>ru_starter := ReplayStarting []\<rparr>)"
proof (induction rs arbitrary: s)
  case (Cons r rs)
  show ?case
    using Cons.IH [of "put_hub (startSubscriptionWorker r (ru_hub s)) s"]
    by (simp add: run_starter_def put_hub_def algebra_simps)
qed (simp add: put_hub_def)

lemma exec_runs_append:
  "exec_runs env (as @ bs) s = (case exec_runs env as s of None \<Rightarrow> None | Some s' \<Rightarrow> exec_runs env bs s')"
  by (induction as arbitrary: s) (auto split: option.split)

definition start_schedule :: "kafka_hub \<Rightarrow> run_action list" where
  "start_schedule h = ListReplayed # replicate (length (replayed_subscriptions h)) StartNext @ [Launch]"

lemma start_schedule_runs:
  assumes "kh_workers h = []"
  shows "exec_runs env (start_schedule h) (run_initial h offset b) =
    Some ((run_initial (startReplayedSubscriptionWorkers h) offset b)
      \<lparr>ru_starter := ReplayStarted, ru_wg := 1 + int (length (kh_workers (startReplayedSubscriptionWorkers h)))\<rparr>)"
  using start_runs [of env "replayed_subscriptions h" "run_initial h offset b"] assms
  by (simp add: start_schedule_def exec_runs_append run_starter_def startReplayedSubscriptionWorkers_def)
    (simp add: exec_runs_append run_starter_def run_initial_def put_hub_def)

text \<open>So \<open>done\<close> is reached, by actions of the hub's goroutines alone.\<close>

lemma shutdown_reaches:
  assumes "run_ok s" and "close_ok s" and "ru_closed s"
  shows "\<exists>as s'. exec_runs env as s = Some s' \<and> list_all own_action as \<and> ru_done s'"
  using assms
proof (induction "shutdown_work s" arbitrary: s rule: less_induct)
  case less
  show ?case
  proof (cases "ru_done s")
    case True
    then have "exec_runs env [] s = Some s \<and> list_all own_action [] \<and> ru_done s" by simp
    then show ?thesis by blast
  next
    case False
    then obtain a s1 where a: "own_action a" "exec_run env a s = Some s1"
      using shutdown_progress [OF less.prems] by blast
    have "shutdown_work s1 < shutdown_work s" "ru_closed s1"
      using own_action_work [OF a(2,1) less.prems] by simp_all
    then obtain as s' where "exec_runs env as s1 = Some s'" "list_all own_action as" "ru_done s'"
      using less.hyps run_ok_step [OF a(2) less.prems(1)] close_ok_step [OF a(2) less.prems(1,2)] by blast
    then have "exec_runs env (a # as) s = Some s' \<and> list_all own_action (a # as) \<and> ru_done s'" using a by simp
    then show ?thesis by blast
  qed
qed

lemma new_recovered:
  assumes "kafka_New codec topic options fetched logEnd ps = HubStarted h offset"
  obtains h0 where "kafka_recover codec topic options fetched logEnd ps = HubStarted h0 offset"
    "h = startReplayedSubscriptionWorkers h0"
  using assms that by (auto simp: kafka_New_def split: hub_started.splits)

lemma new_runs:
  assumes "kafka_New codec topic options fetched logEnd ps = HubStarted h offset"
  obtains h0 s where "kafka_recover codec topic options fetched logEnd ps = HubStarted h0 offset"
    "exec_runs env (start_schedule h0) (run_initial h0 offset b) = Some s"
    "run_reachable env h0 offset b s" "ru_hub s = h" "ru_starter s = ReplayStarted" "ru_offset s = offset"
    "ru_closed s = False" "ru_wg s = 1 + int (length (kh_workers h))"
proof (rule new_recovered [OF assms])
  fix h0
  assume h0: "kafka_recover codec topic options fetched logEnd ps = HubStarted h0 offset"
    and h: "h = startReplayedSubscriptionWorkers h0"
  let ?s = "(run_initial h offset b)\<lparr>ru_starter := ReplayStarted, ru_wg := 1 + int (length (kh_workers h))\<rparr>"
  have run: "exec_runs env (start_schedule h0) (run_initial h0 offset b) = Some ?s"
    using start_schedule_runs [of h0 env offset b] recovered [OF h0] by (simp add: h)
  show thesis
    by (rule that [OF h0 run exec_runs_reachable [OF reach_initial run]]) (simp_all add: run_initial_def)
qed

lemma close_after_start:
  assumes "run_reachable env h offset b s" and "ru_starter s = ReplayStarted" and "run_ok s" and "close_ok s"
  obtains s1 s2 as where "exec_run env CallClose s = Some s1" "ru_closed s1" "exec_runs env as s1 = Some s2"
    "list_all own_action as" "ru_done s2" "run_reachable env h offset b s1" "run_reachable env h offset b s2"
proof -
  obtain s1 where s1: "exec_run env CallClose s = Some s1" "ru_closed s1"
    using assms(2) by (simp add: kafka_Close_def)
  note ok = run_ok_step [OF s1(1) assms(3)] close_ok_step [OF s1(1) assms(3,4)]
  obtain as s2 where s2: "exec_runs env as s1 = Some s2" "list_all own_action as" "ru_done s2"
    using shutdown_reaches [OF ok s1(2), of env] by blast
  note r = reach_step [OF assms(1) s1(1)]
  show thesis by (rule that [OF s1 s2 r exec_runs_reachable [OF r s2(1)]])
qed

end
