(* ===== verification/KafkaRunLog.thy ===== *)
theory KafkaRunLog
  imports KafkaRunInv
begin

text \<open>
  The running hub and the log: in every interleaving the hub's state is the state of the log up
  to the position of its event worker. \<open>polled\<close> are the records that the polls of a run return.
\<close>

fun polled :: "run_action list \<Rightarrow> kafka_record list" where
  "polled [] = []"
| "polled (EventPoll p # as) = po_records p @ polled as"
| "polled (a # as) = polled as"

definition hub_at :: "state_event list \<Rightarrow> nat \<Rightarrow> kafka_hub \<Rightarrow> bool" where
  "hub_at es n h \<longleftrightarrow> hub_starting UNIV h \<and> hub_view h = state_of (take n es)"

lemma hub_at_next:
  assumes valid: "list_all event_valid es" and vs: "list_all2 (decodes_to codec) vs (drop base es)"
    and base: "base \<le> length es" and n: "base \<le> n" "n < base + length vs" and at: "hub_at es n h"
  shows "\<exists>h'. hub_handler codec (int n) (vs ! (n - base)) h = (h', None) \<and> hub_at es (Suc n) h'"
proof -
  have len: "n < length es" using n base list_all2_lengthD [OF vs] by simp
  have "decodes_to codec (vs ! (n - base)) (drop base es ! (n - base))"
    using list_all2_nthD [OF vs] n by auto
  then have e: "decodes_to codec (vs ! (n - base)) (es ! n)" using n(1) base len by simp
  have "event_valid (es ! n)" using valid len by (simp add: list_all_length)
  then obtain h' where h': "hub_handler codec (int n) (vs ! (n - base)) h = (h', None)" "hub_starting UNIV h'"
      "hub_view h' = replica_step (es ! n) (hub_view h)"
    using hub_handler_valid [OF _ e, of UNIV h "int n"] at by (auto simp: hub_at_def)
  moreover have "state_of (take (Suc n) es) = replica_step (es ! n) (state_of (take n es))"
    using len by (simp add: state_of_def take_Suc_conv_app_nth)
  ultimately show ?thesis using at by (simp add: hub_at_def)
qed

lemma hub_at_cancel: "hub_at es n h \<Longrightarrow> hub_at es n (h\<lparr>kh_cancelled := True\<rparr>)"
  by (auto simp: hub_at_def hub_starting_def all_served_def hub_ok_def hub_view_def kh_get_def [abs_def])

lemma run_log_step:
  assumes log: "list_all event_valid es" "list_all2 (decodes_to (ke_codec env)) vs (drop base es)" "base \<le> length es"
      "length es < 2 ^ 63"
    and step: "exec_run env a s = Some s'"
    and inv: "follows_log (ke_events_topic env) base vs (ru_events s) (ru_offset s) (polled (a # as))"
      "hub_at es (nat (ru_offset s)) (ru_hub s)"
  shows "follows_log (ke_events_topic env) base vs (ru_events s') (ru_offset s') (polled as)
    \<and> hub_at es (nat (ru_offset s')) (ru_hub s')"
proof (cases a)
  case (EventPoll p)
  then have "run_poll p s = Some s'" using step by simp
  then show ?thesis
    by (rule run_pollE) (use inv EventPoll in \<open>simp add: poll_follows_log [where p = "name_poll_errors p"] name_poll_errors_def\<close>)
next
  case EventApply
  then obtain worker k h where w: "apply_once (ke_events_topic env) (hub_handler (ke_codec env)) (ru_events s) (ru_offset s)
      (ru_hub s) = Some (worker, k, h)" "s' = (put_hub h s)\<lparr>ru_offset := k, ru_events := worker\<rparr>"
    using step by (auto simp: run_apply_def split: option.splits)
  have small: "int base + int (length vs) < 2 ^ 63" using log(3,4) list_all2_lengthD [OF log(2)] by simp
  have "follows_log (ke_events_topic env) base vs worker k (polled as) \<and> hub_at es (nat k) h"
    using apply_follows_log [where J = "hub_at es", OF hub_at_next [OF log(1-3)] small w(1) _ inv(2)] inv(1) EventApply
    by simp
  then show ?thesis by (simp add: w(2) put_hub_def)
next
  case EventExit
  then show ?thesis using step inv
    by (auto simp: runEventWorker_end_def Let_def follows_log_def hub_at_cancel split: event_worker.splits)
next
  case (WorkerReturn k err)
  then have "run_worker_return env k err s = Some s'" using step by simp
  then show ?thesis by (rule worker_returnE) (use inv WorkerReturn in simp)
next
  case CallClose
  then show ?thesis using step inv
    by (auto simp: kafka_Close_def hub_at_cancel split: if_splits)
next
  case StartNext
  then obtain r rs where "s' = (put_hub (startSubscriptionWorker r (ru_hub s)) s)\<lparr>ru_starter := ReplayStarting rs\<rparr>"
    using step by (auto simp: run_starter_def split: replay_starter.splits list.splits)
  moreover have "hub_at es n (startSubscriptionWorker r h)" if "hub_at es n h" for n h
    using that hub_starting_mono [OF start_pending [of UNIV h r], of UNIV] start_worker_ok(2) [of h r] hub_startingD(1) [of UNIV h]
    by (simp add: hub_at_def)
  ultimately show ?thesis using inv StartNext by (simp add: put_hub_def)
qed (use step inv in \<open>auto simp: run_wait_def kafka_Close_return_def run_starter_def
    split: if_splits option.splits replay_starter.splits list.splits\<close>)

lemma run_follows_log:
  assumes log: "list_all event_valid es" "list_all2 (decodes_to (ke_codec env)) vs (drop base es)" "base \<le> length es"
      "length es < 2 ^ 63"
  shows "exec_runs env as s = Some s' \<Longrightarrow>
    follows_log (ke_events_topic env) base vs (ru_events s) (ru_offset s) (polled as) \<Longrightarrow>
    hub_at es (nat (ru_offset s)) (ru_hub s) \<Longrightarrow>
    follows_log (ke_events_topic env) base vs (ru_events s') (ru_offset s') [] \<and> hub_at es (nat (ru_offset s')) (ru_hub s')"
proof (induction as arbitrary: s)
  case (Cons a as)
  obtain s1 where s1: "exec_run env a s = Some s1" "exec_runs env as s1 = Some s'"
    using Cons.prems(1) by (auto split: option.splits)
  show ?case
    using Cons.IH [OF s1(2)] run_log_step [OF log s1(1) Cons.prems(2,3)] by blast
qed simp

text \<open>The start, on a log as in \<open>kafka_start\<close>.\<close>

lemma recovered_at:
  assumes valid: "list_all event_valid es" and sn: "snapshot_of sn (state_of (take n es))"
    and base: "base \<le> n" "n \<le> E" "E \<le> length es" "length es < 2 ^ 63"
    and vs: "list_all2 (decodes_to codec) vs (drop base es)"
    and kafka: "list_all (of_log topic (int base) vs) (delivered ps)" "gapless topic (int base) (delivered ps)"
    and run: "kafka_recover codec topic options (Inr sn) (Inr (int E)) ps = HubStarted h offset"
  shows "offset = int E" and "hub_at es E h"
proof -
  have "kafka_New codec topic options (Inr sn) (Inr (int E)) ps = HubStarted (startReplayedSubscriptionWorkers h) offset"
    using run by (simp add: kafka_New_def)
  note start = kafka_start [OF valid sn base vs kafka this]
  have h: "hub_starting UNIV h" using recovered [OF run] by simp
  have "hub_view (startReplayedSubscriptionWorkers h) = hub_view h"
    using fold_start_ok [OF hub_startingD(1,2) [OF h]] by (simp add: startReplayedSubscriptionWorkers_def)
  then show "offset = int E" and "hub_at es E h" using start h by (simp_all add: hub_at_def)
qed

lemma log_in_every_run:
  assumes "list_all event_valid es" and "snapshot_of sn (state_of (take n es))"
    and "base \<le> n" "n \<le> E" "E \<le> length es" "length es < 2 ^ 63"
    and "list_all2 (decodes_to (ke_codec env)) vs (drop base es)"
    and "list_all (of_log (ke_events_topic env) (int base) vs) (delivered ps)"
      "gapless (ke_events_topic env) (int base) (delivered ps)"
    and "kafka_recover (ke_codec env) (ke_events_topic env) options (Inr sn) (Inr (int E)) ps = HubStarted h offset"
    and "exec_runs env as (run_initial h offset b) = Some s"
    and "list_all (of_log (ke_events_topic env) (int base) vs) (polled as)" "gapless (ke_events_topic env) (int E) (polled as)"
  shows "hub_view (ru_hub s) = state_of (take (nat (ru_offset s)) es)"
proof -
  note start = recovered_at [OF assms(1-10)]
  have len: "length vs = length es - base" using list_all2_lengthD [OF assms(7)] by simp
  have "follows_log (ke_events_topic env) base vs (ru_events (run_initial h offset b)) (ru_offset (run_initial h offset b)) (polled as)"
    using assms(3-5,12,13) start(1) len by (simp add: follows_log_def run_initial_def)
  moreover have "hub_at es (nat (ru_offset (run_initial h offset b))) (ru_hub (run_initial h offset b))"
    using start by (simp add: run_initial_def)
  ultimately have "hub_at es (nat (ru_offset s)) (ru_hub s)"
    using run_follows_log [OF assms(1,7) _ assms(6,11)] assms(3-5) by simp
  then show ?thesis by (simp add: hub_at_def)
qed

text \<open>A worker has returned exactly when the run has the action of its return, and no action changes
  the server a hub is.\<close>

lemma ended_step:
  "exec_run env a s = Some s' \<Longrightarrow> set (ru_ended s') = set (ru_ended s) \<union> {k. \<exists>err. a = WorkerReturn k err}"
  by (cases a) (auto simp: run_poll_def run_apply_def runEventWorker_end_def run_starter_def run_worker_return_def
      run_wait_def kafka_Close_def kafka_Close_return_def put_hub_def Let_def
      split: if_splits option.splits prod.splits event_worker.splits replay_starter.splits list.splits)

lemma ended_run:
  "exec_runs env as s = Some s' \<Longrightarrow> set (ru_ended s') = set (ru_ended s) \<union> {k. \<exists>err. WorkerReturn k err \<in> set as}"
proof (induction as arbitrary: s)
  case (Cons a as)
  obtain s1 where s1: "exec_run env a s = Some s1" "exec_runs env as s1 = Some s'"
    using Cons.prems by (auto split: option.splits)
  show ?case using Cons.IH [OF s1(2)] ended_step [OF s1(1)] by auto
qed simp

lemma server_step:
  assumes "exec_run env a s = Some s'" and "run_ok s"
  shows "kh_server_id (ru_hub s') = kh_server_id (ru_hub s)"
proof (cases a)
  case EventApply
  then have "run_apply (ke_codec env) (ke_events_topic env) s = Some s'" using assms(1) by simp
  then show ?thesis by (rule run_applyE [OF _ assms(2)]) (simp add: put_hub_def growsD(6))
next
  case StartNext
  obtain r rs where "s' = (put_hub (startSubscriptionWorker r (ru_hub s)) s)\<lparr>ru_starter := ReplayStarting rs\<rparr>"
    using StartNext assms(1) by (auto simp: run_starter_def split: replay_starter.splits list.splits)
  then show ?thesis using growsD(6) [OF grows_start [OF run_okD(2) [OF assms(2)]]] by (simp add: put_hub_def)
next
  case (WorkerReturn k err)
  then have "run_worker_return env k err s = Some s'" using assms(1) by simp
  then show ?thesis by (rule worker_returnE) simp
qed (use assms in \<open>auto simp: run_poll_def runEventWorker_end_def run_starter_def Let_def
      run_wait_def kafka_Close_def kafka_Close_return_def
      split: if_splits option.splits event_worker.splits replay_starter.splits list.splits\<close>)

lemma server_run:
  "exec_runs env as s = Some s' \<Longrightarrow> run_ok s \<Longrightarrow> kh_server_id (ru_hub s') = kh_server_id (ru_hub s)"
proof (induction as arbitrary: s)
  case (Cons a as)
  obtain s1 where s1: "exec_run env a s = Some s1" "exec_runs env as s1 = Some s'"
    using Cons.prems(1) by (auto split: option.splits)
  show ?case using Cons.IH [OF s1(2) run_ok_step [OF s1(1) Cons.prems(2)]] server_step [OF s1(1) Cons.prems(2)] by simp
qed simp

lemma polled_append [simp]: "polled (as @ bs) = polled as @ polled bs"
  by (induction as rule: polled.induct) simp_all

lemma polled_start [simp]: "polled (start_schedule h) = []"
proof -
  have "polled (replicate n StartNext) = []" for n by (induction n) simp_all
  then show ?thesis by (simp add: start_schedule_def)
qed

end
