(* ===== verification/ConsolidatorLoop.thy ===== *)
theory ConsolidatorLoop
  imports ConsolidatorRun EventLoop
begin

text \<open>
  The goroutine of the consolidator and \<open>Close\<close> (\<open>consolidator/consolidator.go\<close>: \<open>run\<close>,
  \<open>Errors\<close>, \<open>Close\<close>), as a transition system in the manner of \<open>KafkaRun\<close>: the goroutine polls
  and consumes one record per action, a \<open>Close\<close> call cancels and waits. \<open>operationMu\<close> makes
  \<open>consumeEvent\<close> one action, so what \<open>Snapshot\<close> returns between two actions is a snapshot
  after a whole number of events.
\<close>

record 'b consolidator_life =
  cl_state :: "consolidator \<times> 'b"
  cl_offset :: int
  cl_worker :: event_worker
  cl_cancelled :: bool
  cl_done :: bool
  cl_errors :: "error list"
  cl_closed :: bool
  cl_closes :: "close_state list"

datatype consolidator_action =
  ConsolidatorPoll poll | ConsolidatorApply | ConsolidatorExit
  | ConsolidatorClose | ConsolidatorReturn nat | ConsolidatorExpire nat error | ConsolidatorReceive

definition consolidator_run_end :: "'b consolidator_life \<Rightarrow> 'b consolidator_life option" where
  "consolidator_run_end s =
     (case cl_worker s of
        EventFailed err \<Rightarrow>
          let s1 = (if cl_cancelled s then s
                else s\<lparr>cl_errors := reportError (Prefixed ''consume state events'' err) (cl_errors s),
                       cl_cancelled := True\<rparr>)
          in Some (s1\<lparr>cl_worker := EventReturned, cl_done := True\<rparr>)
      | _ \<Rightarrow> None)"

definition consolidator_Close :: "'b consolidator_life \<Rightarrow> 'b consolidator_life" where
  "consolidator_Close s =
     (if cl_closed s then s else s\<lparr>cl_closed := True, cl_cancelled := True\<rparr>)\<lparr>cl_closes := cl_closes s @ [CloseWaits]\<rparr>"

definition consolidator_Close_return :: "nat \<Rightarrow> error option \<Rightarrow> 'b consolidator_life \<Rightarrow> 'b consolidator_life option" where
  "consolidator_Close_return c err s =
     (case close_return (cl_done s) c err (cl_closes s) of
        None \<Rightarrow> None
      | Some closes \<Rightarrow> Some (s\<lparr>cl_closes := closes\<rparr>))"

fun consolidator_exec ::
    "event_codec \<Rightarrow> string \<Rightarrow> 'b publish_snapshot \<Rightarrow> consolidator_action \<Rightarrow> 'b consolidator_life
     \<Rightarrow> 'b consolidator_life option" where
  "consolidator_exec codec eventsTopic publish (ConsolidatorPoll p) s =
     (case poll_once (cl_cancelled s) p (cl_worker s) of
        None \<Rightarrow> None
      | Some worker \<Rightarrow> Some (s\<lparr>cl_worker := worker\<rparr>))"
| "consolidator_exec codec eventsTopic publish ConsolidatorApply s =
     (case apply_once eventsTopic (consumeEvent codec publish) (cl_worker s) (cl_offset s) (cl_state s) of
        None \<Rightarrow> None
      | Some (worker, offset, state) \<Rightarrow> Some (s\<lparr>cl_worker := worker, cl_offset := offset, cl_state := state\<rparr>))"
| "consolidator_exec codec eventsTopic publish ConsolidatorExit s = consolidator_run_end s"
| "consolidator_exec codec eventsTopic publish ConsolidatorClose s = Some (consolidator_Close s)"
| "consolidator_exec codec eventsTopic publish (ConsolidatorReturn c) s = consolidator_Close_return c None s"
| "consolidator_exec codec eventsTopic publish (ConsolidatorExpire c err) s = consolidator_Close_return c (Some err) s"
| "consolidator_exec codec eventsTopic publish ConsolidatorReceive s =
     (if cl_errors s = [] then None else Some (s\<lparr>cl_errors := []\<rparr>))"

definition consolidator_initial :: "consolidator \<Rightarrow> int \<Rightarrow> 'b \<Rightarrow> 'b consolidator_life" where
  "consolidator_initial c offset b =
     \<lparr>cl_state = (c, b), cl_offset = offset, cl_worker = EventPolling, cl_cancelled = False, cl_done = False,
      cl_errors = [], cl_closed = False, cl_closes = []\<rparr>"

inductive consolidator_reachable ::
    "event_codec \<Rightarrow> string \<Rightarrow> 'b publish_snapshot \<Rightarrow> consolidator \<Rightarrow> int \<Rightarrow> 'b \<Rightarrow> 'b consolidator_life \<Rightarrow> bool"
  for codec eventsTopic publish c offset b where
  consolidator_begins: "consolidator_reachable codec eventsTopic publish c offset b (consolidator_initial c offset b)"
| consolidator_moves: "consolidator_reachable codec eventsTopic publish c offset b s \<Longrightarrow>
    consolidator_exec codec eventsTopic publish a s = Some s' \<Longrightarrow>
    consolidator_reachable codec eventsTopic publish c offset b s'"

fun consolidator_runs ::
    "event_codec \<Rightarrow> string \<Rightarrow> 'b publish_snapshot \<Rightarrow> consolidator_action list \<Rightarrow> 'b consolidator_life
     \<Rightarrow> 'b consolidator_life option" where
  "consolidator_runs codec eventsTopic publish [] s = Some s"
| "consolidator_runs codec eventsTopic publish (a # as) s =
     (case consolidator_exec codec eventsTopic publish a s of
        None \<Rightarrow> None
      | Some s' \<Rightarrow> consolidator_runs codec eventsTopic publish as s')"

lemma consolidator_runs_reachable:
  "consolidator_reachable codec topic publish c offset b s \<Longrightarrow> consolidator_runs codec topic publish as s = Some s' \<Longrightarrow>
     consolidator_reachable codec topic publish c offset b s'"
  by (induction as arbitrary: s) (auto split: option.splits intro: consolidator_moves)

lemmas consolidator_loop_eval [go_eval] = consolidator_run_end_def consolidator_Close_def
  consolidator_Close_return_def consolidator_initial_def

section \<open>The invariant\<close>

definition life_ok :: "'b consolidator_life \<Rightarrow> bool" where
  "life_ok s \<longleftrightarrow>
     (cl_done s \<longleftrightarrow> cl_worker s = EventReturned) \<and> (cl_done s \<or> cl_closed s \<longrightarrow> cl_cancelled s)
     \<and> (cl_closes s \<noteq> [] \<longrightarrow> cl_closed s) \<and> (CloseReturned None \<in> set (cl_closes s) \<longrightarrow> cl_done s)
     \<and> length (cl_errors s) \<le> 1"

lemma life_ok_step:
  assumes "consolidator_exec codec topic publish a s = Some s'" and "life_ok s"
  shows "life_ok s'"
proof (cases a)
  case (ConsolidatorPoll p)
  then show ?thesis using assms by (auto simp: life_ok_def dest: poll_once_alive split: option.splits)
next
  case ConsolidatorApply
  then show ?thesis using assms by (auto simp: life_ok_def dest: apply_once_alive split: option.splits)
next
  case ConsolidatorExit
  then show ?thesis using assms report_length
    by (auto simp: life_ok_def consolidator_run_end_def Let_def split: event_worker.splits if_splits)
next
  case (ConsolidatorReturn c)
  then show ?thesis using assms by (auto simp: life_ok_def consolidator_Close_return_def split: option.splits dest: close_return_nil)
next
  case (ConsolidatorExpire c err)
  then show ?thesis using assms by (auto simp: life_ok_def consolidator_Close_return_def split: option.splits dest: close_return_nil)
qed (use assms in \<open>auto simp: life_ok_def consolidator_Close_def split: if_splits\<close>)

lemma life_reachable: "consolidator_reachable codec topic publish c offset b s \<Longrightarrow> life_ok s"
proof (induction rule: consolidator_reachable.induct)
  case consolidator_begins
  then show ?case by (simp add: life_ok_def consolidator_initial_def)
qed (rule life_ok_step)

lemma life_done_quiet:
  assumes "life_ok s" and "cl_done s" and "consolidator_exec codec topic publish a s = Some s'"
  shows "cl_state s' = cl_state s \<and> cl_offset s' = cl_offset s \<and> cl_done s'"
  using assms
  by (cases a) (auto simp: life_ok_def consolidator_run_end_def consolidator_Close_def consolidator_Close_return_def
      dest: poll_once_alive apply_once_alive split: option.splits if_splits)

section \<open>After \<open>Close\<close>\<close>

definition consolidator_own :: "consolidator_action \<Rightarrow> bool" where
  "consolidator_own a \<longleftrightarrow> a \<in> {ConsolidatorApply, ConsolidatorExit} \<or> (\<exists>p. a = ConsolidatorPoll p)"

lemma life_own_work:
  assumes "consolidator_exec codec topic publish a s = Some s'" and "life_ok s" and "cl_closed s"
  shows "event_work (cl_worker s') + (if consolidator_own a then 1 else 0) \<le> event_work (cl_worker s) \<and> cl_closed s'"
proof (cases a)
  case (ConsolidatorPoll p)
  have "cl_cancelled s" using assms(2,3) by (simp add: life_ok_def)
  then obtain worker where "poll_once True p (cl_worker s) = Some worker" "s' = s\<lparr>cl_worker := worker\<rparr>"
    using assms(1) ConsolidatorPoll by (auto split: option.splits)
  then show ?thesis using assms(3) poll_work by (fastforce simp: consolidator_own_def ConsolidatorPoll)
next
  case ConsolidatorApply
  then obtain worker k st where
      "apply_once topic (consumeEvent codec publish) (cl_worker s) (cl_offset s) (cl_state s) = Some (worker, k, st)"
      "s' = s\<lparr>cl_worker := worker, cl_offset := k, cl_state := st\<rparr>"
    using assms(1) by (auto split: option.splits)
  then show ?thesis using assms(3) apply_work by (fastforce simp: consolidator_own_def ConsolidatorApply)
next
  case ConsolidatorExit
  then show ?thesis using assms(1,3)
    by (auto simp: consolidator_own_def consolidator_run_end_def event_work_def Let_def split: event_worker.splits)
next
  case (ConsolidatorReturn c)
  then show ?thesis using assms(1,3)
    by (auto simp: consolidator_own_def consolidator_Close_return_def split: option.splits)
next
  case (ConsolidatorExpire c err)
  then show ?thesis using assms(1,3)
    by (auto simp: consolidator_own_def consolidator_Close_return_def split: option.splits)
qed (use assms(1,3) in \<open>auto simp: consolidator_own_def consolidator_Close_def split: if_splits\<close>)

lemma life_runs:
  "consolidator_runs codec topic publish as s = Some s' \<Longrightarrow> life_ok s \<Longrightarrow> cl_closed s \<Longrightarrow>
     length (filter consolidator_own as) + event_work (cl_worker s') \<le> event_work (cl_worker s) \<and> life_ok s' \<and> cl_closed s'"
proof (induction as arbitrary: s)
  case (Cons a as)
  obtain s1 where s1: "consolidator_exec codec topic publish a s = Some s1" "consolidator_runs codec topic publish as s1 = Some s'"
    using Cons.prems(1) by (auto split: option.splits)
  show ?case
    using Cons.IH [OF s1(2) life_ok_step [OF s1(1)]] life_own_work [OF s1(1)] Cons.prems by fastforce
qed simp

lemma life_progress:
  assumes "life_ok s" and "\<not> cl_done s"
  shows "\<exists>a s'. consolidator_own a \<and> consolidator_exec codec topic publish a s = Some s'"
proof -
  have w: "cl_worker s \<noteq> EventReturned" using assms by (simp add: life_ok_def)
  have own: "consolidator_own (ConsolidatorPoll p)" "consolidator_own ConsolidatorApply" "consolidator_own ConsolidatorExit" for p
    by (simp_all add: consolidator_own_def)
  have poll: "consolidator_exec codec topic publish (ConsolidatorPoll p) s = Some (s\<lparr>cl_worker := worker\<rparr>)"
    if "poll_once (cl_cancelled s) p (cl_worker s) = Some worker" for p worker
    using that by simp
  have consume: "consolidator_exec codec topic publish ConsolidatorApply s = Some (s\<lparr>cl_worker := worker, cl_offset := k, cl_state := st\<rparr>)"
    if "apply_once topic (consumeEvent codec publish) (cl_worker s) (cl_offset s) (cl_state s) = Some (worker, k, st)" for worker k st
    using that by simp
  have ends: "\<exists>s'. consolidator_exec codec topic publish ConsolidatorExit s = Some s'" if "cl_worker s = EventFailed err" for err
    using that by (simp add: consolidator_run_end_def Let_def)
  from loop_enabled [OF w, of "cl_cancelled s" topic "consumeEvent codec publish" "cl_offset s" "cl_state s"]
  show ?thesis
  proof (elim disjE exE)
    fix p worker
    assume "poll_once (cl_cancelled s) p (cl_worker s) = Some worker"
    from own(1) poll [OF this] show ?thesis by blast
  next
    fix worker k st
    assume "apply_once topic (consumeEvent codec publish) (cl_worker s) (cl_offset s) (cl_state s) = Some (worker, k, st)"
    from own(2) consume [OF this] show ?thesis by blast
  next
    fix err
    assume "cl_worker s = EventFailed err"
    from own(3) ends [OF this] show ?thesis by blast
  qed
qed

end
