(* ===== verification/KafkaBrokers.thy ===== *)
theory KafkaBrokers
  imports KafkaService ConsolidatorRun
begin

text \<open>
  The two \<open>KafkaBroker\<close>s of the Kafka example as objects (\<open>websubhub/broker.go\<close>,
  \<open>consolidator/broker.go\<close>): the checks and the connection of \<open>NewKafkaBroker\<close>,
  \<open>PublishSnapshot\<close>, and \<open>Close\<close>. What a client of Kafka does is outside: opening one,
  reaching the cluster, closing it and producing a record are functions on the outside state.
  Lemmas: a broker exists only with a checked configuration and a producer that reached Kafka, a
  producer that did not is closed again; and \<open>LoadSnapshot\<close> finds the newest of the published
  snapshots that were delivered before the first poll without a record.
\<close>

record 'b kafka_client =
  kc_open :: "'b \<Rightarrow> 'b \<times> error option"
  kc_ping :: "'b \<Rightarrow> 'b \<times> error option"
  kc_close :: "'b \<Rightarrow> 'b"

record broker_options =
  bo_brokers :: "string list"
  bo_events_topic :: string
  bo_snapshots_topic :: string

text \<open>\<open>bk_consumer\<close> and \<open>bk_producer\<close>: the client is set and open.\<close>

record kafka_broker =
  bk_options :: broker_options
  bk_offset :: int
  bk_consumer :: bool
  bk_producer :: bool
  bk_closed :: bool

definition connect_producer :: "string \<Rightarrow> string \<Rightarrow> 'b kafka_client \<Rightarrow> 'b \<Rightarrow> 'b \<times> error option" where
  "connect_producer open_text ping_text client b =
     (case kc_open client b of
        (b1, Some err) \<Rightarrow> (b1, Some (Prefixed open_text err))
      | (b1, None) \<Rightarrow>
          (case kc_ping client b1 of
             (b2, Some err) \<Rightarrow> (kc_close client b2, Some (Prefixed ping_text err))
           | (b2, None) \<Rightarrow> (b2, None)))"

definition connected_broker :: "broker_options \<Rightarrow> kafka_broker" where
  "connected_broker options =
     \<lparr>bk_options = options, bk_offset = 0, bk_consumer = False, bk_producer = True, bk_closed = False\<rparr>"

definition hub_NewKafkaBroker :: "'b kafka_client \<Rightarrow> broker_options \<Rightarrow> 'b \<Rightarrow> 'b \<times> (error + kafka_broker)" where
  "hub_NewKafkaBroker client options b =
     (if bo_brokers options = [] then (b, Inl (AppError ''at least one Kafka broker is required''))
      else if bo_events_topic options = [] then (b, Inl (AppError ''Kafka event topic must not be empty''))
      else case connect_producer ''create Kafka producer'' ''connect to Kafka'' client b of
             (b', Some err) \<Rightarrow> (b', Inl err)
           | (b', None) \<Rightarrow> (b', Inr (connected_broker options)))"

definition consolidator_NewKafkaBroker ::
    "'b kafka_client \<Rightarrow> broker_options \<Rightarrow> 'b \<Rightarrow> 'b \<times> (error + kafka_broker)" where
  "consolidator_NewKafkaBroker client options b =
     (if bo_brokers options = [] then (b, Inl (AppError ''at least one Kafka broker is required''))
      else if bo_events_topic options = [] then (b, Inl (AppError ''Kafka event topic must not be empty''))
      else if bo_snapshots_topic options = [] then (b, Inl (AppError ''Kafka snapshot topic must not be empty''))
      else case connect_producer ''create Kafka consolidator client'' ''connect consolidator to Kafka'' client b of
             (b', Some err) \<Rightarrow> (b', Inl err)
           | (b', None) \<Rightarrow> (b', Inr (connected_broker options)))"

definition PublishSnapshot ::
    "event_codec \<Rightarrow> string \<Rightarrow> (kafka_record \<Rightarrow> 'b \<Rightarrow> 'b \<times> error option) \<Rightarrow> 'b publish_snapshot" where
  "PublishSnapshot codec snapshotsTopic produce sn b =
     (case marshal_snapshot codec sn of
        Inl err \<Rightarrow> (b, Some (Prefixed ''encode Kafka state snapshot'' err))
      | Inr payload \<Rightarrow>
          (case produce \<lparr>kr_topic = snapshotsTopic, kr_partition = 0, kr_offset = 0, kr_value = payload,
                  kr_headers = []\<rparr> b of
             (b', Some err) \<Rightarrow> (b', Some (Prefixed ''produce Kafka state snapshot'' err))
           | (b', None) \<Rightarrow> (b', None)))"

text \<open>\<open>closeOnce\<close>: only the first call closes the clients.\<close>

definition broker_Close :: "kafka_broker \<Rightarrow> kafka_broker" where
  "broker_Close bk =
     (if bk_closed bk then bk else bk\<lparr>bk_closed := True, bk_consumer := False, bk_producer := False\<rparr>)"

lemmas kafka_brokers_eval [go_eval] = connect_producer_def connected_broker_def hub_NewKafkaBroker_def
  consolidator_NewKafkaBroker_def PublishSnapshot_def broker_Close_def

lemma connect_producer_cases:
  "connect_producer open_text ping_text client b = (b', err) \<Longrightarrow>
     (err = None \<longleftrightarrow> snd (kc_open client b) = None \<and> snd (kc_ping client (fst (kc_open client b))) = None)
     \<and> (snd (kc_open client b) = None \<and> err \<noteq> None \<longrightarrow> b' = kc_close client (fst (kc_ping client (fst (kc_open client b)))))"
  by (auto simp: connect_producer_def split: prod.splits option.splits)

lemma NewKafkaBroker_checked:
  "hub_NewKafkaBroker client options b = (b', Inr bk) \<Longrightarrow>
     bo_brokers options \<noteq> [] \<and> bo_events_topic options \<noteq> [] \<and> bk = connected_broker options"
  "consolidator_NewKafkaBroker client options b = (b', Inr bk) \<Longrightarrow>
     bo_brokers options \<noteq> [] \<and> bo_events_topic options \<noteq> [] \<and> bo_snapshots_topic options \<noteq> []
     \<and> bk = connected_broker options"
  by (auto simp: hub_NewKafkaBroker_def consolidator_NewKafkaBroker_def split: if_splits prod.splits option.splits)

lemma broker_Close_idem [simp]: "broker_Close (broker_Close bk) = broker_Close bk"
  by (simp add: broker_Close_def)

section \<open>Published snapshots are found\<close>

text \<open>The records that \<open>PublishSnapshot\<close> produces, in order, where producing never fails.\<close>

fun publish_all :: "event_codec \<Rightarrow> string \<Rightarrow> snapshot list \<Rightarrow> kafka_record list \<Rightarrow> kafka_record list" where
  "publish_all codec topic [] rs = rs"
| "publish_all codec topic (sn # sns) rs =
     publish_all codec topic sns (fst (PublishSnapshot codec topic (\<lambda>r rs. (rs @ [r], None)) sn rs))"

definition keeps_snapshot :: "event_codec \<Rightarrow> snapshot \<Rightarrow> bool" where
  "keeps_snapshot codec sn \<longleftrightarrow> (\<exists>p. marshal_snapshot codec sn = Inr p \<and> json_snapshot codec p = Inr sn)"

text \<open>What Kafka keeps of a record: it chooses partition and offset.\<close>

definition stored_as :: "kafka_record \<Rightarrow> string \<times> bytes" where
  "stored_as r = (kr_topic r, kr_value r)"

definition decodable :: "event_codec \<Rightarrow> string \<Rightarrow> string \<times> bytes \<Rightarrow> bool" where
  "decodable codec topic tv \<longleftrightarrow> (fst tv = topic \<longrightarrow> (\<exists>sn. json_snapshot codec (snd tv) = Inr sn))"

lemma candidates_iff:
  "sn \<in> set (candidates codec topic rs) \<longleftrightarrow> (\<exists>v. (topic, v) \<in> stored_as ` set rs \<and> json_snapshot codec v = Inr sn)"
proof
  assume "sn \<in> set (candidates codec topic rs)"
  then obtain r where "r \<in> set rs" "kr_topic r = topic" "json_snapshot codec (kr_value r) = Inr sn"
    by (auto simp: candidates_def split: if_splits sum.splits)
  then show "\<exists>v. (topic, v) \<in> stored_as ` set rs \<and> json_snapshot codec v = Inr sn"
    by (auto simp: stored_as_def image_iff)
next
  assume "\<exists>v. (topic, v) \<in> stored_as ` set rs \<and> json_snapshot codec v = Inr sn"
  then obtain r where "r \<in> set rs" "kr_topic r = topic" "json_snapshot codec (kr_value r) = Inr sn"
    by (auto simp: stored_as_def)
  then show "sn \<in> set (candidates codec topic rs)" by (force simp: candidates_def)
qed

lemma publish_all_stored:
  "\<forall>s \<in> set sns. keeps_snapshot codec s \<Longrightarrow>
     stored_as ` set (publish_all codec topic sns rs) =
       stored_as ` set rs \<union> {(topic, v) |v. \<exists>s \<in> set sns. marshal_snapshot codec s = Inr v}"
proof (induction sns arbitrary: rs)
  case (Cons s sns)
  then obtain p where "marshal_snapshot codec s = Inr p" by (auto simp: keeps_snapshot_def)
  then show ?case using Cons by (auto simp: PublishSnapshot_def stored_as_def)
qed simp

lemma load_records_decodable:
  "\<forall>r \<in> set rs. decodable codec topic (stored_as r) \<Longrightarrow> \<exists>lf'. fold (load_record codec topic) rs (lf, None) = (lf', None)"
proof (induction rs arbitrary: lf)
  case (Cons r rs)
  obtain latest found where lf: "lf = (latest, found)" by (cases lf)
  have "\<exists>lf1. load_record codec topic r (lf, None) = (lf1, None)"
    using Cons.prems by (auto simp: lf load_record_def retainLatestSnapshot_def decodable_def stored_as_def)
  then show ?case using Cons by auto
qed simp

text \<open>The first poll without a record ends the loop, whatever could still come.\<close>

lemma load_polls_returns:
  assumes "\<forall>p \<in> set ps. fetchError p = None \<and> po_records p \<noteq> []" and "fetchError stop = None" "po_records stop = []"
    and "\<forall>r \<in> set (delivered ps). decodable codec topic (stored_as r)"
  shows "\<exists>sn. load_polls codec topic (ps @ stop # rest) latest found = Some (Inr sn)"
  using assms(1,4)
proof (induction ps arbitrary: latest found)
  case (Cons p ps)
  then obtain lf where "fold (load_record codec topic) (po_records p) ((latest, found), None) = (lf, None)"
    using load_records_decodable [of "po_records p"] by fastforce
  then show ?case using Cons by (cases lf) auto
qed (simp add: assms(2,3))

lemma published_loads:
  assumes keeps: "\<forall>s \<in> set sns. keeps_snapshot codec s"
    and polls: "\<forall>p \<in> set ps. fetchError p = None \<and> po_records p \<noteq> []" "fetchError stop = None" "po_records stop = []"
    and kafka: "stored_as ` set (delivered ps) \<subseteq> stored_as ` set (publish_all codec topic sns [])"
    and reads: "reads = {s \<in> set sns. \<exists>v. marshal_snapshot codec s = Inr v \<and> (topic, v) \<in> stored_as ` set (delivered ps)}"
  shows "\<exists>sn. LoadSnapshot codec topic (ps @ stop # rest) = Some (Inr sn)
    \<and> (if reads = {} then sn = empty_snapshot else sn \<in> reads \<and> (\<forall>s \<in> reads. sn_revision s \<le> sn_revision sn))"
proof -
  have stored: "\<exists>s \<in> set sns. marshal_snapshot codec s = Inr v \<and> json_snapshot codec v = Inr s \<and> t = topic"
    if tv: "(t, v) \<in> stored_as ` set (delivered ps)" for t v
  proof -
    obtain s where "s \<in> set sns" "marshal_snapshot codec s = Inr v" "t = topic"
      using kafka tv publish_all_stored [OF keeps, of topic "[]"] by auto
    then show ?thesis using keeps by (auto simp: keeps_snapshot_def)
  qed
  have "s \<in> set (candidates codec topic (delivered ps)) \<longleftrightarrow> s \<in> reads" for s
  proof
    assume "s \<in> set (candidates codec topic (delivered ps))"
    then obtain v where v: "(topic, v) \<in> stored_as ` set (delivered ps)" "json_snapshot codec v = Inr s"
      by (auto simp only: candidates_iff)
    then show "s \<in> reads" using stored [OF v(1)] v by (auto simp: reads)
  next
    assume "s \<in> reads"
    then obtain v where "s \<in> set sns" "marshal_snapshot codec s = Inr v" "(topic, v) \<in> stored_as ` set (delivered ps)"
      by (auto simp: reads)
    then show "s \<in> set (candidates codec topic (delivered ps))"
      using keeps unfolding candidates_iff keeps_snapshot_def by fastforce
  qed
  then have read: "set (candidates codec topic (delivered ps)) = reads" by blast
  have "\<forall>r \<in> set (delivered ps). decodable codec topic (stored_as r)"
  proof
    fix r assume r: "r \<in> set (delivered ps)"
    obtain t v where tv: "stored_as r = (t, v)" by fastforce
    then have "(t, v) \<in> stored_as ` set (delivered ps)" using r by force
    then show "decodable codec topic (stored_as r)" using stored [of t v] by (auto simp: tv decodable_def)
  qed
  then obtain sn where sn: "LoadSnapshot codec topic (ps @ stop # rest) = Some (Inr sn)"
    using load_polls_returns [OF polls] unfolding LoadSnapshot_def by blast
  have "takeWhile (\<lambda>p. po_records p \<noteq> []) (ps @ stop # rest) = ps"
    using polls(1,3) by (simp add: takeWhile_append2)
  then show ?thesis using LoadSnapshot_greatest [OF sn refl] sn read by (auto split: if_splits)
qed

end
