(* ===== verification/RunInstances.thy ===== *)
theory RunInstances
  imports MemoryInstances KafkaRunLog ConsolidatorLoop KafkaBrokers
begin

text \<open>Concrete runs of the Kafka hub and of the consolidator, for the instances of their properties.\<close>

lemma sample_env_fields [simp]: "ke_codec sample_env = sample_codec" "ke_events_topic sample_env = ''events''"
  by (simp_all add: sample_env_def)

lemma sample_first_poll:
  "list_all (of_log ''events'' 0 [''r'', ''s'']) (delivered (take 1 sample_polls))"
  "gapless ''events'' 0 (delivered (take 1 sample_polls))" "list_all (\<lambda>p. fetchError p = None) (take 1 sample_polls)"
  "list_all (of_log ''events'' 0 [''r'', ''s'']) (po_records (sample_polls ! 1))"
  "gapless ''events'' 1 (po_records (sample_polls ! 1))" "po_context (sample_polls ! 1) = None"
  "po_records (sample_polls ! 1) = [sample_record 0 ''r'', sample_record 1 ''s'']"
  "fetchError (name_poll_errors (sample_polls ! 1)) = None"
  by code_simp+

lemma sample_first_records:
  "\<forall>r \<in> set (delivered (take 1 sample_polls)). event_record ''events'' r \<longrightarrow>
     (\<exists>e. decodes_to sample_codec (kr_value r) e \<and> event_valid e)"
  "\<exists>r \<in> set (delivered (take 1 sample_polls)). event_record ''events'' r \<and> kr_offset r = 1 - 1"
proof -
  have "set (delivered (take 1 sample_polls)) \<subseteq> set (delivered sample_polls)"
    by (simp add: sample_polls_def)
  then show "\<forall>r \<in> set (delivered (take 1 sample_polls)). event_record ''events'' r \<longrightarrow>
     (\<exists>e. decodes_to sample_codec (kr_value r) e \<and> event_valid e)"
    using sample_records by blast
  show "\<exists>r \<in> set (delivered (take 1 sample_polls)). event_record ''events'' r \<and> kr_offset r = 1 - 1"
    by (simp add: sample_polls_def sample_record_def event_record_def)
qed

definition snapshot_at :: "64 word \<Rightarrow> snapshot" where
  "snapshot_at k = \<lparr>sn_revision = k, sn_topics = [], sn_subscriptions = []\<rparr>"

definition snapshot_codec :: event_codec where
  "snapshot_codec =
     sample_codec\<lparr>marshal_snapshot := (\<lambda>sn. Inr (if sn_revision sn = 1 then ''1'' else ''2''))\<rparr>"

definition snapshot_record :: "int \<Rightarrow> bytes \<Rightarrow> kafka_record" where
  "snapshot_record i v = \<lparr>kr_topic = ''snapshots'', kr_partition = 2, kr_offset = i, kr_value = v, kr_headers = []\<rparr>"

definition poll_of_context :: "error \<Rightarrow> poll" where
  "poll_of_context err = \<lparr>po_context = Some err, po_errors = [], po_records = []\<rparr>"

text \<open>The hub starts with the log up to offset 1, and its goroutines are then all at work.\<close>

lemma sample_start:
  obtains h s where "kafka_recover sample_codec ''events'' (hub_options_of sample_options)
      (Inr \<lparr>sn_revision = 5, sn_topics = [], sn_subscriptions = []\<rparr>) (Inr 1) (take 1 sample_polls) = HubStarted h 1"
    "exec_runs sample_env (start_schedule h) (run_initial h 1 (0 :: nat)) = Some s"
    "run_reachable sample_env h 1 0 s" "ru_starter s = ReplayStarted" "ru_offset s = 1" "ru_events s = EventPolling"
    "\<not> kh_cancelled (ru_hub s)" "kh_server_id (ru_hub s) = ''s1''"
proof -
  let ?sn = "\<lparr>sn_revision = 5, sn_topics = [], sn_subscriptions = []\<rparr> :: snapshot"
  obtain h0 where h0: "new_kafka_hub (hub_options_of sample_options) = Inr h0" by (rule sample_hub)
  have sn: "snapshot_of ?sn (state_of (take 0 sample_events))" using empty_snapshot_of by simp
  have polls: "\<forall>p \<in> set (take 1 sample_polls). fetchError p = None" using sample_first_poll(3) by (simp add: list_all_iff)
  obtain h1 where h1: "kafka_New sample_codec ''events'' (hub_options_of sample_options) (Inr ?sn) (Inr (int 1))
      (take 1 sample_polls) = HubStarted h1 (int 1)"
    using kafka_starts [OF h0 sample_log(1) sn _ _ polls sample_first_records(1), of "int 1"] sample_first_records(2) by auto
  have len: "length sample_events = 2" by code_simp
  have vs: "list_all2 (decodes_to sample_codec) [''r'', ''s''] (drop 0 sample_events)" using sample_log(3) by simp
  have start: "\<not> kh_cancelled h1" "kh_server_id h1 = ''s1''"
    using kafka_start [OF sample_log(1) sn _ _ _ _ vs _ _ h1] sample_first_poll(1,2) len
    by (simp_all add: hub_options_of_def sample_options_def)
  obtain h where h: "kafka_recover sample_codec ''events'' (hub_options_of sample_options) (Inr ?sn) (Inr (int 1))
      (take 1 sample_polls) = HubStarted h (int 1)" "h1 = startReplayedSubscriptionWorkers h"
    by (rule new_recovered [OF h1])
  let ?s = "(run_initial h1 1 0)\<lparr>ru_starter := ReplayStarted, ru_wg := 1 + int (length (kh_workers h1))\<rparr>"
  have run: "exec_runs sample_env (start_schedule h) (run_initial h 1 (0 :: nat)) = Some ?s"
    using start_schedule_runs [of h sample_env 1 0] recovered [OF h(1)] by (simp add: h(2))
  show thesis
    by (rule that [OF _ run exec_runs_reachable [OF reach_initial run]]) (use h(1) start in \<open>simp_all add: run_initial_def\<close>)
qed

text \<open>Then it polls the subscription and applies it.\<close>

lemma sample_run:
  obtains h as s where "kafka_recover sample_codec ''events'' (hub_options_of sample_options)
      (Inr \<lparr>sn_revision = 5, sn_topics = [], sn_subscriptions = []\<rparr>) (Inr 1) (take 1 sample_polls) = HubStarted h 1"
    "exec_runs sample_env as (run_initial h 1 (0 :: nat)) = Some s"
    "polled as = po_records (sample_polls ! 1)" "\<forall>k err. WorkerReturn k err \<notin> set as"
    "ru_starter s = ReplayStarted" "\<not> kh_cancelled (ru_hub s)" "ru_offset s = 2" "run_reachable sample_env h 1 0 s"
proof -
  obtain h s where s: "kafka_recover sample_codec ''events'' (hub_options_of sample_options)
      (Inr \<lparr>sn_revision = 5, sn_topics = [], sn_subscriptions = []\<rparr>) (Inr 1) (take 1 sample_polls) = HubStarted h 1"
    "exec_runs sample_env (start_schedule h) (run_initial h 1 (0 :: nat)) = Some s"
    "run_reachable sample_env h 1 0 s" "ru_starter s = ReplayStarted" "ru_offset s = 1" "ru_events s = EventPolling"
    "\<not> kh_cancelled (ru_hub s)" "kh_server_id (ru_hub s) = ''s1''"
    by (rule sample_start)
  let ?s1 = "s\<lparr>ru_events := EventApplying [sample_record 0 ''r'', sample_record 1 ''s'']\<rparr>"
  have poll: "exec_run sample_env (EventPoll (sample_polls ! 1)) s = Some ?s1"
    using s(6,7) sample_first_poll(6-8) by (simp add: run_poll_def poll_once_def name_poll_errors_def)
  have ok: "run_ok s" using recovered_run(1) [OF s(1,3)] .
  then have ok1: "run_ok ?s1" using run_ok_step [OF poll] by simp
  obtain s2 where s2: "exec_run sample_env EventApply ?s1 = Some s2"
    using apply_once_enabled [of "''events''" "hub_handler sample_codec" "[sample_record 0 ''r'', sample_record 1 ''s'']"
      "ru_offset s" "ru_hub s"] by (auto simp: run_apply_def)
  have ok2: "run_ok s2" using run_ok_step [OF s2 ok1] .
  have two: "run_apply sample_codec ''events'' ?s1 = Some s2" using s2 by simp
  have e2: "ru_events s2 = EventApplying [sample_record 1 ''s'']"
    using two by (auto simp: run_apply_def apply_once_def consume_record_def sample_record_def s(5) split: prod.splits option.splits)
  obtain s3 where s3: "exec_run sample_env EventApply s2 = Some s3"
    using apply_once_enabled [of "''events''" "hub_handler sample_codec" "[sample_record 1 ''s'']" "ru_offset s2" "ru_hub s2"]
    by (auto simp: run_apply_def e2)
  have three: "run_apply sample_codec ''events'' s2 = Some s3" using s3 by simp
  let ?as = "start_schedule h @ [EventPoll (sample_polls ! 1), EventApply, EventApply]"
  have run: "exec_runs sample_env ?as (run_initial h 1 0) = Some s3"
    using s(2) poll s2 s3 by (simp add: exec_runs_append del: exec_run.simps)
  have "ru_offset s2 = 1"
    using two by (auto simp: run_apply_def apply_once_def consume_record_def sample_record_def s(5) put_hub_def split: prod.splits option.splits)
  moreover have "decodes_to sample_codec ''s'' (EventSubscribe (NewSubscription sample_verified ''s1''))
      \<and> event_valid (EventSubscribe (NewSubscription sample_verified ''s1''))" by code_simp
  then obtain h' where "hub_handler sample_codec 1 ''s'' (ru_hub s2) = (h', None)"
    using hub_handler_valid [OF run_okD(1) [OF ok2]] by blast
  moreover have "wrap64 2 = 2" by code_simp
  ultimately have offset: "ru_offset s3 = 2"
    using three e2 by (auto simp: run_apply_def apply_once_def consume_record_def sample_record_def put_hub_def)
  have "\<forall>k err. WorkerReturn k err \<notin> set ?as" by (auto simp: start_schedule_def)
  then show thesis
    by (intro that [OF s(1) run _ _ _ _ offset exec_runs_reachable [OF reach_initial run]])
      (use apply_fields(1,4) [OF two ok1] apply_fields(1,4) [OF three ok2] s(4,7) in simp_all)
qed

end
