(* ===== verification/Spec2Isabelle.thy ===== *)
theory Spec2Isabelle
  imports Instances Discovery LifecycleLive Extension RunInstances
begin

text \<open>
  A verification development for \<open>lib-websubhub\<close> (Go): a library that adds a WebSub hub to
  an HTTP server, a publisher client and a delivery client for it, and two example hubs, one in
  memory and one on Kafka with a separate state consolidator.

  \<^bold>\<open>The program.\<close> A request reaches \<open>Handler.ServeHTTP\<close>, which parses and checks it, calls
  the application's callbacks (\<open>Service\<close>), and either answers at once or admits a verification job
  to a bounded queue and answers 202. Workers take jobs once the response was written, ask the
  subscriber to confirm its intent with a random challenge and tell the application of the verified
  (un)subscription. \<open>Close\<close> stops admission, lets admitted jobs finish and stops the workers.
  Applications deliver content with a \<open>DeliveryClient\<close>, publishers reach the hub with a
  \<open>PublisherClient\<close>. The Kafka example keeps its state as a log of events, consumed by the hub and
  by the consolidator, which publishes snapshots of it.

  \<^bold>\<open>Theories and code.\<close>
  \<^item> \<open>Prelude\<close>, \<open>GoMap\<close>, \<open>NestedMap\<close>, \<open>GoStrings\<close>, \<open>NetUrl\<close>, \<open>UrlParse\<close>, \<open>NetHttp\<close>,
    \<open>GoMime\<close>, \<open>Crypto\<close>: what the code uses of Go and its standard library (bytes and 64-bit
    arithmetic, maps, strconv and strings, net/url, headers, response writers, bounded readers and
    clients of net/http, mime, SHA-256 and HMAC). Strings and byte slices are lists of bytes; a Go
    map is an association list, whose order stands for the order of \<open>range\<close>; an \<open>int\<close> that can
    overflow is wrapped by \<open>wrap64\<close>, a revision or version is a \<open>64 word\<close>.
  \<^item> \<open>Errors\<close> (errors.go), \<open>Service\<close> (service.go), \<open>Urls\<close> and \<open>Helpers\<close> (helpers.go),
    \<open>Challenge\<close> (challenge.go), \<open>Discovery\<close> (discovery.go), \<open>HubConfig\<close>, \<open>Requests\<close>,
    \<open>Responses\<close>, \<open>Dispatch\<close> (handler.go), \<open>Verification\<close> (subscription.go and the verified
    callbacks), \<open>Delivery\<close> (delivery.go), \<open>Publisher\<close> (publisher.go): one definition per function,
    under the name of the function. A callback is a function from the state of the application to a
    new state and an \<open>outcome\<close>, which is a value or a panic; errors are values of \<open>error\<close>, on which
    \<open>errors.Is\<close> and \<open>errors.As\<close> are functions.
  \<^item> \<open>Lifecycle\<close>: the goroutines of one handler (requests, workers, \<open>Close\<close> and the goroutine it
    starts, drains) as a state and an executable step per action; \<open>reachable\<close> covers every
    interleaving. A lock section or a channel operation is one step. \<open>LifecycleInv\<close> and
    \<open>LifecycleJobs\<close> hold its invariants, \<open>LifecycleLive\<close> the measure that bounds a closing run.
  \<^item> \<open>ServeProps\<close>, \<open>VerifyProps\<close>, \<open>CallbackQuery\<close>, \<open>Extension\<close>: lemmas about serving, about
    verification runs, about the printed and parsed callback URL, and about client and hub together.
  \<^item> \<open>MemoryHub\<close>, \<open>MemoryProps\<close>: the in-memory example (examples/in-memory-websubhub/hub.go), its
    callbacks, its dispatcher and its delivery workers as steps (three of which merge a check or a
    round trip with the change that follows it), and its invariants.
  \<^item> \<open>KafkaState\<close>, \<open>KafkaReplay\<close>, \<open>StateCodec\<close> (internal/state/state.go): the events and the
    \<open>Consumer\<close> interface. \<open>spec_event\<close> and \<open>replica_step\<close> are the abstract state machine of the log;
    the locale \<open>event_consumer\<close> is the contract of the interface.
  \<^item> \<open>Consolidator\<close>, \<open>ConsolidatorRun\<close> (consolidator/consolidator.go), \<open>KafkaHub\<close>, \<open>KafkaHubInv\<close>,
    \<open>KafkaWorkers\<close>, \<open>KafkaService\<close>, \<open>KafkaProps\<close> (websubhub/hub.go, broker.go, snapshot.go),
    \<open>KafkaEvents\<close> and \<open>KafkaBrokers\<close> (both broker.go: the event loops as functions, connecting,
    snapshots, closing), \<open>Commands\<close> (config.go and the checks of the commands): the two processes
    of the Kafka example. Both interpret \<open>event_consumer\<close>.
  \<^item> \<open>EventLoop\<close>, \<open>KafkaRun\<close>, \<open>ConsolidatorLoop\<close>: the goroutines of those processes as transition
    systems over all interleavings: the event worker (one poll, then one record per action; it
    computes what the function \<open>consumeEvents\<close> does, \<open>loop_refines\<close>), the start of the replayed
    workers that runs beside it, the subscription workers with the wait group, the error channel,
    and \<open>Close\<close>. \<open>KafkaRunInv\<close> holds the invariants and the measure of a shutdown,
    \<open>KafkaRunLog\<close> follows the log through every interleaving.
  \<^item> \<open>Instances\<close>, \<open>MemoryInstances\<close>, \<open>KafkaInstances\<close>, \<open>RunInstances\<close>: concrete handlers, hubs, logs,
    environments and runs, on which the properties are applied.

  \<^bold>\<open>Interfaces.\<close> \<open>pair_store\<close> (\<open>NestedMap\<close>) is a store under two keys; the nested maps of the hubs
  and the flat map of the consolidator, whose keys join topic and callback with a NUL byte, provide
  it (the flat one for callbacks without a NUL). \<open>event_consumer\<close> (\<open>KafkaReplay\<close>) says that each
  method does to the abstract state what the event says or refuses it unchanged; restoring a
  snapshot, replaying a log and starting from both are proved once, inside the locale.

  \<^bold>\<open>Outside.\<close> The network (a round trip), the clock, the random source, Kafka (the polls, producing,
  committing), the grammar of JSON (\<open>event_codec\<close>) and the application are arguments. What the proofs
  use of them is a named hypothesis: \<open>fills_array\<close> (the random source fills the 32 bytes), \<open>of_log\<close>
  and \<open>gapless\<close> (Kafka delivers the records of the log, possibly again, never skipping one),
  \<open>decodes_to\<close> (a record decodes to the event it was made of), \<open>keeps_snapshot\<close> (a snapshot survives
  its encoding) and that a snapshot reader is delivered only records that were published, as many
  as come before the first poll without one. No property says when such a poll comes:
  \<open>published_snapshots_are_found\<close> is about what was delivered by then. A subscription worker may
  return at any time with any result; that it can return once its context is cancelled is assumed
  in \<open>hub_close_terminates\<close>.

  \<^bold>\<open>Bounds and fuel.\<close> No definition needs fuel: loops recurse on their data (with a \<open>measure\<close> where
  the recursion is not structural) or on the list of what the outside delivers, and then a loop that
  has used up that list is still \<open>Polling\<close>. That a replay returns is \<open>hub_starts\<close>, and that it does
  not without the last record \<open>replay_waits_for_the_last_record\<close>.

  \<^bold>\<open>What the properties show.\<close> The first groups are about serving, verification and the goroutines of
  the handler; then the configuration, the texts the hub passes on, the delivery and publisher
  clients against the hub; then the example hubs: their invariants, that both Kafka processes agree
  on every log and recover it after a restart with exactly the workers they owe, and that content is
  committed only after it was delivered; and, for both processes as running programs, that the state
  follows the log in every interleaving and that \<open>Close\<close> ends every goroutine. \<open>workers_at\<close> are the
  workers started for a topic and a callback whose context is not cancelled, \<open>running_at\<close> those of
  them that have not returned, and \<open>owed\<close> what the abstract state asks for.
  \<open>body_limit_overflow\<close>, \<open>verification_panics_only_on_nil_denial\<close>, \<open>revision_wraps_silently\<close> and \<open>replay_waits_for_the_last_record\<close> state what the code does where it
  falls short of what it means to do.

  \<^bold>\<open>Not modelled.\<close> Logging; the text of wrapped errors where it quotes its arguments (the model keeps
  the constant part); the TLS, connection and cookie handling of net/http; contexts other than as a
  call that fails or a cancelled flag; the grammars of JSON and TOML; the Kafka client (what opening,
  producing and closing do, group membership); what a subscription worker does between two actions
  of \<open>KafkaRun\<close> is \<open>ConsumeSubscription\<close>, which leaves the hub alone; routing by
  \<open>http.ServeMux\<close>; flag parsing, listening and signals of the commands. Times are nanoseconds since the zero time, without a zone.
\<close>

section \<open>Serving requests\<close>

text \<open>C1: Whatever the request, the application, and the interference of other
  goroutines with the admission state, \<open>ServeHTTP\<close> either panics before it wrote anything
  (and admitted nothing), or commits the response exactly once; it admits a job only together
  with status 202, when the handler is open and the queue has room at that moment, and it opens
  the job's start gate only after that response.\<close>

theorem serve_one_response:
  assumes "fresh_writer w"
  shows "case sv_response (ServeHTTP h interfere w request s ad) of
      Panicked \<Rightarrow> sv_trace (ServeHTTP h interfere w request s ad) = []
        \<and> sv_admission (ServeHTTP h interfere w request s ad) = ad
    | Returned w' \<Rightarrow>
        rw_calls w' = 1 \<and> rw_status w' \<noteq> None
        \<and> (sv_trace (ServeHTTP h interfere w request s ad) = [Committed w']
             \<and> sv_admission (ServeHTTP h interfere w request s ad) \<in> {ad, interfere ad}
           \<or> (\<exists>job. sv_trace (ServeHTTP h interfere w request s ad) = [Admitted job, Committed w', GateOpened]
                \<and> rw_status w' = Some 202
                \<and> \<not> ad_closed (interfere ad) \<and> length (ad_jobs (interfere ad)) < ad_capacity (interfere ad)
                \<and> sv_admission (ServeHTTP h interfere w request s ad) =
                    (interfere ad)\<lparr>ad_jobs := ad_jobs (interfere ad) @ [job], ad_wg := ad_wg (interfere ad) + 1\<rparr>))"
  using served_well_ServeHTTP [OF assms, of interfere ad h request s]
  by (auto simp: served_well_def committed_once_def admit_iff admit_accepted split: outcome.splits)

theorem serve_one_response_witness:
  "case sv_response (ServeHTTP sample_handler id new_writer (form_request sample_body) 0 (new_admission sample_handler)) of
      Panicked \<Rightarrow> False | Returned w' \<Rightarrow> rw_calls w' = 1"
proof -
  have "sv_response (ServeHTTP sample_handler id new_writer (form_request sample_body) 0 (new_admission sample_handler))
      \<noteq> Panicked"
    by code_simp
  then show ?thesis
    using serve_one_response [OF fresh_new_writer, of sample_handler id "form_request sample_body" 0 "new_admission sample_handler"]
    by (auto split: outcome.splits)
qed

text \<open>C3: A job that a request puts in the verification queue holds what
  the request says: the request was a POST to an open handler whose body, within the limit,
  is a well-formed form; the job is the parsed subscription or unsubscription of that form
  with the request's metadata, and is marked verified only where the configuration allows
  external verification.\<close>

theorem admitted_job_of_request:
  assumes "Admitted job \<in> set (sv_trace (ServeHTTP h interfere w request s ad))"
  shows "rq_method request = ''POST'' \<and> \<not> ad_closed ad
    \<and> (\<exists>body form. readRequestBody h request = Inr body \<and> parse_query body = (form, False)
         \<and> requiredSingle form ''hub.mode'' = Inr (job_mode job)
         \<and> (job_mode job = ModeSubscribe \<and> parseSubscription h form = Inr (job_sub job)
            \<or> job_mode job = ModeUnsubscribe \<and> parseUnsubscription h form = Inr (job_unsub job)))
    \<and> job_metadata job = metadataFromRequest request
    \<and> (job_verified job \<longrightarrow> AllowExternalVerification (h_config h))"
  using trace_ServeHTTP [OF assms] by (auto simp: job_of_form_def)

theorem admitted_job_of_request_witness:
  "\<exists>job::verification_job. job_mode job = ModeSubscribe \<and> sub_callback (job_sub job) = ''http://c/~x?y=1''
     \<and> job_metadata job = metadataFromRequest (form_request sample_body)"
proof -
  let ?v = "ServeHTTP sample_handler id new_writer (form_request sample_body) 0 (new_admission sample_handler)"
  have "list_ex (\<lambda>e. case e of Admitted job \<Rightarrow>
      job_mode job = ModeSubscribe \<and> sub_callback (job_sub job) = ''http://c/~x?y=1'' | _ \<Rightarrow> False) (sv_trace ?v)"
    by code_simp
  then obtain job where job: "Admitted job \<in> set (sv_trace ?v)" "job_mode job = ModeSubscribe"
      "sub_callback (job_sub job) = ''http://c/~x?y=1''"
    by (auto dest: admitted_in_trace)
  have "job_metadata job = metadataFromRequest (form_request sample_body)"
    using admitted_job_of_request [OF job(1)] by simp
  with job(2,3) show ?thesis by - (rule exI [of _ job], simp)
qed

section \<open>Intent verification\<close>

text \<open>C2: The application's \<open>OnSubscriptionVerified\<close>
  is called only for a job marked verified at admission, or right after a GET on the
  subscriber's callback, carrying a 43-character challenge drawn for it, the topic, the mode and the
  granted lease, was answered with a 2xx status and a body equal to the challenge. It gets the
  admitted subscription and the effective lease.\<close>

theorem subscription_verified_only_after_challenge:
  assumes "handler_ok h" and "in_int64 (MaxCallbackBody (h_config h))" and "fills_array env"
    and "VerifiedSub v \<in> set (run_calls (runSubscription h env job s))"
  shows "vs_subscription v = cloneSubscription (job_sub job)
    \<and> vs_effective_lease v = effective_lease (h_config h) (sub_lease_seconds (job_sub job))
    \<and> (job_verified job
       \<or> (\<exists>pre post q r challenge.
            run_calls (runSubscription h env job s) = pre @ [Get q (Some r), VerifiedSub v] @ post
            \<and> length challenge = 43
            \<and> callback_request (sub_callback (job_sub job))
                (subscribe_form (job_sub job) challenge (vs_effective_lease v)) q
            \<and> 200 \<le> rs_status r \<and> rs_status r < 300 \<and> rd_data (rs_body r) = challenge))"
  using runSubscription_verified [OF assms] unfolding shows_intent_def challenged_def .

theorem subscription_verified_only_after_challenge_witness:
  "\<exists>v::verified_subscription. VerifiedSub v \<in> set (run_calls (runSubscription sample_handler echo_env sample_job 0))
     \<and> vs_subscription v = cloneSubscription sample_subscription
     \<and> (\<exists>q r. Get q (Some r) \<in> set (run_calls (runSubscription sample_handler echo_env sample_job 0))
          \<and> rs_status r < 300)"
proof -
  have "list_ex (\<lambda>c. case c of VerifiedSub v \<Rightarrow> True | _ \<Rightarrow> False)
      (run_calls (runSubscription sample_handler echo_env sample_job 0))"
    by code_simp
  then obtain v where v: "VerifiedSub v \<in> set (run_calls (runSubscription sample_handler echo_env sample_job 0))"
    by (auto dest: verified_in_calls [where P = "\<lambda>_. True"])
  moreover have "in_int64 (MaxCallbackBody (h_config sample_handler))" and "\<not> job_verified sample_job"
    by code_simp+
  ultimately show ?thesis
    using subscription_verified_only_after_challenge [OF handler_ok_sample _ fills_array_echo v]
    by (auto simp: sample_job_def) (metis in_set_conv_decomp append_Cons append.assoc)
qed

section \<open>Admission, workers and shutdown\<close>

text \<open>C4: In every interleaving, no admitted job is started twice, and
  a job is only started after its gate was opened, which a request does after it committed
  its response.\<close>

theorem job_runs_once_after_response:
  assumes "reachable capacity workers n s"
  shows "distinct (lc_started s)
    \<and> (\<forall>g \<in> set (lc_started s). gate_is s g Opened)
    \<and> (\<forall>w g. runs s w g \<longrightarrow> g \<in> set (lc_started s))
    \<and> (\<forall>w g. holds s w g \<longrightarrow> g \<notin> set (lc_started s) \<and> \<not> queued s g)"
  using reachable_jobs [OF assms] by (auto simp: inv_jobs_def)

theorem job_runs_once_after_response_witness:
  "\<exists>s. run_actions sample_run (initial 2 1 1) = Some s \<and> lc_started s = [0, 1] \<and> distinct (lc_started s)
     \<and> gate_is s 1 Opened"
proof -
  have "run_ends (\<lambda>s. lc_started s = [0, 1]) sample_run (initial 2 1 1)"
    by code_simp
  then obtain s where s: "run_actions sample_run (initial 2 1 1) = Some s" "lc_started s = [0, 1]"
    by (blast dest: run_ends_state)
  then have "gate_is s 1 Opened" "distinct (lc_started s)"
    using job_runs_once_after_response [OF sample_reachable [OF s(1)]] by simp_all
  with s show ?thesis by blast
qed

text \<open>C14: Once \<open>closeDone\<close> is closed (and a \<open>Close\<close> call returned nil), the
  handler admits nothing, no job is queued or being worked on, and every worker has
  left.\<close>

theorem closed_means_quiet:
  assumes "reachable capacity workers n s" and "lc_done s \<or> close_is s c ReturnedNil"
  shows "lc_done s \<and> exec (Admit j) s = None \<and> ad_jobs (lc_adm s) = []
    \<and> (\<forall>w < length (lc_workers s). worker_is s w Exited)"
proof -
  have inv: "inv_wg s" "inv_phase s" "inv_called s"
    using reachable_inv [OF assms(1)] by (simp_all add: inv_close_def)
  have closed: "lc_done s" using assms(2) inv(3) by (auto simp: inv_called_def)
  then have "lc_workers_wg s = 0" "ad_wg (lc_adm s) = 0" "ad_closed (lc_adm s)"
    using inv(2) by (auto simp: inv_phase_def)
  then show ?thesis
    using closed wg_zero(1) [OF inv(1)] workers_wg_zero [OF inv(1)]
    by (auto simp: exec_admit_closed worker_is_def)
qed

theorem closed_means_quiet_witness:
  "\<exists>s. run_actions sample_run (initial 2 1 1) = Some s \<and> close_is s 0 ReturnedNil
     \<and> exec (Admit 9) s = None \<and> ad_jobs (lc_adm s) = []"
proof -
  have "run_ends (\<lambda>s. close_is s 0 ReturnedNil) sample_run (initial 2 1 1)"
    by code_simp
  then obtain s where s: "run_actions sample_run (initial 2 1 1) = Some s" "close_is s 0 ReturnedNil"
    by (blast dest: run_ends_state)
  show ?thesis
    using closed_means_quiet [OF sample_reachable [OF s(1)], of 0 9] s by blast
qed

text \<open>C5: If no \<open>Close\<close> call's context ended, every job that was ever
  admitted has been started by the time the handler is done.\<close>

theorem graceful_close_loses_no_job:
  assumes "reachable capacity workers n s" and "lc_done s" and "\<not> expired s"
    and "g < length (lc_gates s)"
  shows "g \<in> set (lc_started s)"
proof -
  have inv: "inv_wg s" "inv_phase s" and kept: "kept s"
    using reachable_inv [OF assms(1)] reachable_jobs [OF assms(1)] assms(3)
    by (simp_all add: inv_close_def inv_kept_def kept_def)
  have wg: "ad_wg (lc_adm s) = 0"
    using inv(2) assms(2) by (simp add: inv_phase_def)
  then have "\<not> holds s w g" for w
    using inv_wg_called [OF inv(1), of w] by (force simp: holds_def busy_def)
  moreover have "\<not> queued s g"
    using wg_zero(1) [OF inv(1) wg] by (simp add: queued_def)
  ultimately show ?thesis
    using kept assms(4) unfolding kept_def by blast
qed

theorem graceful_close_loses_no_job_witness:
  "\<exists>s. run_actions sample_run (initial 2 1 1) = Some s \<and> lc_done s \<and> 1 \<in> set (lc_started s)"
proof -
  have "run_ends (\<lambda>s. lc_done s \<and> lc_closes s = [ReturnedNil] \<and> length (lc_gates s) = 2)
      sample_run (initial 2 1 1)"
    by code_simp
  then obtain s where s: "run_actions sample_run (initial 2 1 1) = Some s" "lc_done s"
      "lc_closes s = [ReturnedNil]" "length (lc_gates s) = 2"
    by (blast dest: run_ends_state)
  then have "\<not> expired s" by (auto simp: expired_def close_is_def)
  then show ?thesis
    using graceful_close_loses_no_job [OF sample_reachable [OF s(1)] s(2), of 1] s by auto
qed

text \<open>C11: After \<open>Close\<close> was called, on a handler with at least one worker, every
  run is finite, with at most \<open>work s\<close> actions, whether contexts end or not; and as long as
  \<open>closeDone\<close> is not closed one of the handler's own goroutines can move: there is no
  deadlock.\<close>

theorem close_terminates:
  assumes "reachable capacity workers n s" and "0 < workers" and "ad_closed (lc_adm s)"
    and "run_actions as s = Some s'"
  shows "length as \<le> work s \<and> (lc_done s' \<or> (\<exists>a. internal a \<and> enabled a s'))"
  using run_actions_work [OF assms(4,3)] closed_progress
    [OF run_actions_reachable [OF assms(1,4)] assms(2) run_actions_closed [OF assms(4,3)]]
  by auto

theorem close_terminates_witness:
  "\<exists>s s'. run_actions (take 6 sample_run) (initial 2 1 1) = Some s
     \<and> run_actions (take 9 (drop 6 sample_run)) s = Some s' \<and> 9 \<le> work s \<and> \<not> lc_done s'
     \<and> (\<exists>a. internal a \<and> enabled a s')"
proof -
  have "run_ends (\<lambda>s. ad_closed (lc_adm s) \<and> run_ends (\<lambda>s'. \<not> lc_done s') (take 9 (drop 6 sample_run)) s)
      (take 6 sample_run) (initial 2 1 1)"
    by code_simp
  then obtain s s' where s: "run_actions (take 6 sample_run) (initial 2 1 1) = Some s" "ad_closed (lc_adm s)"
      "run_actions (take 9 (drop 6 sample_run)) s = Some s'" "\<not> lc_done s'"
    by (blast dest: run_ends_state)
  have "reachable 2 1 1 s"
    using run_actions_reachable [OF reachable_initial s(1)] .
  moreover have "length (take 9 (drop 6 sample_run)) = 9"
    by code_simp
  ultimately show ?thesis
    using close_terminates [of 2 1 1 s, OF _ _ s(2,3)] s by fastforce
qed

text \<open>C16: What \<open>ServeHTTP\<close> does to the admission state and to the start
  gate is what the actions \<open>Admit\<close>, \<open>Answer\<close>, \<open>OpenGate\<close> of the lifecycle do, in that
  order, from any lifecycle state with the same queue; a request that admits nothing leaves
  the admission state alone.\<close>

theorem request_refines_lifecycle:
  assumes "fresh_writer w" and "forget_gates (lc_adm s) = interfere ad"
    and "sv_trace (ServeHTTP h interfere w request st ad) = tr"
  shows "(\<exists>job w' s'. tr = [Admitted job, Committed w', GateOpened]
        \<and> run_actions [Admit job, Answer (length (lc_gates s)), OpenGate (length (lc_gates s))] s = Some s'
        \<and> forget_gates (lc_adm s') = sv_admission (ServeHTTP h interfere w request st ad))
    \<or> (\<forall>job. Admitted job \<notin> set tr)
        \<and> sv_admission (ServeHTTP h interfere w request st ad) \<in> {ad, interfere ad}"
  using served_well_ServeHTTP [OF assms(1), of interfere ad h request st] request_actions [of s]
  by (auto simp: served_well_def admit_iff admit_accepted assms(2) assms(3) [symmetric] split: outcome.splits)

theorem request_refines_lifecycle_witness:
  "(\<exists>job w' t. sv_trace (ServeHTTP sample_handler id new_writer (form_request sample_body) 0 (new_admission sample_handler))
           = [Admitted job, Committed w', GateOpened]
         \<and> run_actions [Admit job, Answer 0, OpenGate 0]
             (initial (ad_capacity (new_admission sample_handler :: admission)) 1 1) = Some t)"
proof -
  let ?v = "ServeHTTP sample_handler id new_writer (form_request sample_body) 0 (new_admission sample_handler)"
  let ?s = "initial (ad_capacity (new_admission sample_handler :: admission)) 1 1 :: verification_job lifecycle"
  have "list_ex (\<lambda>e. case e of Admitted job \<Rightarrow> True | _ \<Rightarrow> False) (sv_trace ?v)"
    by code_simp
  then have "\<exists>job. Admitted job \<in> set (sv_trace ?v)"
    by (auto dest: admitted_in_trace [where P = "\<lambda>_. True"])
  moreover have "forget_gates (lc_adm ?s) = id (new_admission sample_handler)"
    by (simp add: initial_def forget_gates_def new_admission_def)
  moreover have "lc_gates ?s = []" by (simp add: initial_def)
  ultimately show ?thesis
    using request_refines_lifecycle [OF fresh_new_writer, of ?s id "new_admission sample_handler" sample_handler] by fastforce
qed

section \<open>Configuration and requests\<close>

text \<open>C27: \<open>NewHandler\<close> makes a handler exactly of an acceptable configuration and
  a service with both required callbacks and, where the publisher extension is on, all three of
  its callbacks. The handler it makes is determined: the service as given, a client that does not
  follow redirects, and the configuration with its defaults filled in, which is complete: the
  bounds are positive, the leases are whole seconds with the default at most the maximum, and
  normalising it again changes nothing.\<close>

theorem config_normal_form:
  "(NewHandler c service = Inr h \<longleftrightarrow>
      acceptable c
      \<and> OnSubscriptionVerified service \<noteq> None \<and> OnUnsubscriptionVerified service \<noteq> None
      \<and> (EnablePublisherExtension c \<longrightarrow>
          OnRegisterTopic service \<noteq> None \<and> OnDeregisterTopic service \<noteq> None \<and> OnUpdateMessage service \<noteq> None)
      \<and> h = \<lparr>h_config = with_defaults c, h_service = service,
               h_client = newHTTPClient (HTTPClient c) (VerificationTimeout (with_defaults c))\<rparr>)
   \<and> (NewHandler c service = Inr h \<longrightarrow>
      well_configured (h_config h) \<and> normalizeConfig (h_config h) = Inr (h_config h)
      \<and> cl_check_redirect (h_client h) = UseLastResponse)"
proof (rule conjI [OF NewHandler_iff], intro impI)
  assume new: "NewHandler c service = Inr h"
  then have "acceptable c" "h_config h = with_defaults c" by (simp_all add: NewHandler_iff)
  then show "well_configured (h_config h) \<and> normalizeConfig (h_config h) = Inr (h_config h)
      \<and> cl_check_redirect (h_client h) = UseLastResponse"
    using well_configured_defaults [of c] NewHandler_ok [OF new]
    by (simp add: handler_ok_def normalizeConfig_ok_iff) (simp add: well_configured_def)
qed

theorem config_normal_form_witness:
  "well_configured (h_config sample_handler)
   \<and> (\<forall>h. NewHandler (sample_config\<lparr>EnablePublisherExtension := True\<rparr>) (counting_service\<lparr>OnRegisterTopic := None\<rparr>) \<noteq> Inr h)"
  using config_normal_form [of sample_config counting_service sample_handler] NewHandler_sample
    config_normal_form [of "sample_config\<lparr>EnablePublisherExtension := True\<rparr>" "counting_service\<lparr>OnRegisterTopic := None\<rparr>"]
  by simp

text \<open>C26: A subscription form (with each key once, as a Go map has it) is
  accepted exactly when topic and callback occur once and are absolute HTTP(S) URLs, the callback
  without user information and fragment, the lease is absent or occurs once and is a positive
  decimal number of seconds that fits a duration, and the secret is absent or occurs once, is not
  empty and shorter than 200 bytes. What is accepted is the URLs with their escapes of unreserved
  characters decoded, the lease and the secret as sent, and every other parameter of the form
  that the protocol does not reserve.\<close>

theorem subscription_request_exact:
  assumes "map_ok form"
  shows "parseSubscription h form = Inr m \<longleftrightarrow>
     (\<exists>raw u. map_get form ''hub.topic'' = Some [raw] \<and> parse_url raw = Some u
        \<and> u_scheme u \<in> {''http'', ''https''} \<and> u_host u \<noteq> [] \<and> sub_topic m = decode_unreserved raw)
     \<and> (\<exists>raw u. map_get form ''hub.callback'' = Some [raw] \<and> parse_url raw = Some u
          \<and> u_scheme u \<in> {''http'', ''https''} \<and> u_host u \<noteq> [] \<and> u_user u = None \<and> u_fragment u = []
          \<and> sub_callback m = decode_unreserved raw)
     \<and> (map_get form ''hub.lease_seconds'' = None \<and> sub_lease_seconds m = []
        \<or> map_get form ''hub.lease_seconds'' = Some [sub_lease_seconds m]
          \<and> (\<exists>n. parse_int (sub_lease_seconds m) = (n, None) \<and> 0 < n \<and> n \<le> 9223372036))
     \<and> (map_get form ''hub.secret'' = None \<and> sub_secret m = []
        \<or> map_get form ''hub.secret'' = Some [sub_secret m] \<and> 0 < length (sub_secret m) \<and> length (sub_secret m) < 200)
     \<and> sub_hub m = HubURL (h_config h) \<and> sub_mode m = ModeSubscribe
     \<and> sub_parameters m = Some (filter (\<lambda>(key, values). key \<notin>
          {''hub.mode'', ''hub.topic'', ''hub.callback'', ''hub.lease_seconds'', ''hub.secret''}) form)"
  by (rule parseSubscription_exact [OF assms])

theorem subscription_request_exact_witness:
  "(\<exists>m. parseSubscription sample_handler (fst (parse_query
        ''hub.mode=subscribe&hub.topic=http://t/a&hub.callback=http://c/%257Ex&hub.secret=s&z=2'')) = Inr m
      \<and> sub_callback m = ''http://c/~x'' \<and> sub_secret m = ''s'' \<and> sub_parameters m = Some [(''z'', [''2''])])
   \<and> (\<forall>m. parseSubscription sample_handler (fst (parse_query
        ''hub.mode=subscribe&hub.topic=http://t/a&hub.callback=http://c/x&hub.lease_seconds=0'')) \<noteq> Inr m)"
proof
  let ?form = "fst (parse_query ''hub.mode=subscribe&hub.topic=http://t/a&hub.callback=http://c/%257Ex&hub.secret=s&z=2'')"
  have "case parseSubscription sample_handler ?form of Inl _ \<Rightarrow> False | Inr m \<Rightarrow> sub_callback m = ''http://c/~x''"
    by code_simp
  then obtain m where m: "parseSubscription sample_handler ?form = Inr m" "sub_callback m = ''http://c/~x''"
    by (auto split: sum.splits)
  note exact = iffD1 [OF subscription_request_exact [OF parse_query_ok] m(1)]
  have "map_get ?form ''hub.secret'' = Some [''s'']"
      "filter (\<lambda>(key, values). key \<notin>
          {''hub.mode'', ''hub.topic'', ''hub.callback'', ''hub.lease_seconds'', ''hub.secret''}) ?form = [(''z'', [''2''])]"
    by code_simp+
  then have "sub_secret m = ''s''" "sub_parameters m = Some [(''z'', [''2''])]" using exact by simp_all
  then show "\<exists>m. parseSubscription sample_handler ?form = Inr m
      \<and> sub_callback m = ''http://c/~x'' \<and> sub_secret m = ''s'' \<and> sub_parameters m = Some [(''z'', [''2''])]"
    using m by blast
next
  let ?form = "fst (parse_query ''hub.mode=subscribe&hub.topic=http://t/a&hub.callback=http://c/x&hub.lease_seconds=0'')"
  have lease: "map_get ?form ''hub.lease_seconds'' = Some [''0'']" "parse_int ''0'' = (0, None)" by code_simp+
  show "\<forall>m. parseSubscription sample_handler ?form \<noteq> Inr m"
  proof (intro allI notI)
    fix m assume "parseSubscription sample_handler ?form = Inr m"
    then show False using iffD1 [OF subscription_request_exact [OF parse_query_ok]] lease by fastforce
  qed
qed

text \<open>C25: Whatever lease a subscriber asks for, the lease the hub grants is a
  positive number of seconds of at most the configured maximum, and its computation does not
  overflow.\<close>

theorem granted_lease_bounds:
  assumes "NewHandler c service = Inr h" and "in_int64 (MaxLease (h_config h))"
    and "parseSubscription h form = Inr m"
  shows "\<exists>n. parse_int (effective_lease (h_config h) (sub_lease_seconds m)) = (n, None) \<and> 0 < n
    \<and> n * second \<le> MaxLease (h_config h)"
  using effective_lease_bounds [of "h_config h" "sub_lease_seconds m"] NewHandler_ok [OF assms(1)] assms(2)
    parseSubscription_lease_ok [OF assms(3)]
  by (simp add: handler_ok_def)

theorem granted_lease_bounds_witness:
  "\<exists>n. parse_int (effective_lease (h_config sample_handler) ''999999999'') = (n, None) \<and> 0 < n
    \<and> n * second \<le> MaxLease (h_config sample_handler)"
proof -
  let ?form = "fst (parse_query ''hub.mode=subscribe&hub.topic=http://t/a&hub.callback=http://c/x&hub.lease_seconds=999999999'')"
  obtain m where m: "parseSubscription sample_handler ?form = Inr m"
    "sub_lease_seconds m = ''999999999''"
  proof -
    have "case parseSubscription sample_handler ?form of Inl _ \<Rightarrow> False | Inr m \<Rightarrow> sub_lease_seconds m = ''999999999''"
      by code_simp
    then show ?thesis using that by (auto split: sum.splits)
  qed
  have "in_int64 (MaxLease (h_config sample_handler))" by code_simp
  then show ?thesis
    using granted_lease_bounds [OF NewHandler_sample _ m(1)] m(2) by simp
qed

section \<open>Texts the hub passes on\<close>

text \<open>C30: The single-pass loop that decodes the escapes of unreserved
  characters, with its indices and its copied pieces, computes the plain recursive decoder.\<close>

theorem url_decoding_is_its_reference: "decodeURLUnreserved raw = decode_unreserved raw"
  by (rule decodeURLUnreserved_spec)

text \<open>C29: Normalising a string whose escapes are well formed keeps what it
  stands for: unescaping it, as a path, a query or a fragment, gives the same bytes before and
  after, and normalising it again changes nothing.\<close>

theorem url_decoding_keeps_meaning:
  assumes "unescape mode s = Some t" and "mode \<noteq> EncodeHost" and "mode \<noteq> EncodeZone"
  shows "unescape mode (decodeURLUnreserved s) = Some t
    \<and> decodeURLUnreserved (decodeURLUnreserved s) = decodeURLUnreserved s"
  using decode_unescape [OF assms] decode_unreserved_idem [OF unescape_well_escaped [OF assms(1)]]
  by (simp add: decodeURLUnreserved_spec)

theorem url_decoding_keeps_meaning_witness:
  "unescape EncodePath (decodeURLUnreserved ''%7Euser/%2541%2F'') = Some ''~user/%41/''"
proof -
  have "unescape EncodePath ''%7Euser/%2541%2F'' = Some ''~user/%41/''" by code_simp
  from url_decoding_keeps_meaning [OF this] show ?thesis by simp
qed

text \<open>C28: Headers that pass the validation put nothing else on the wire
  than they say: every value they add is free of CR and LF, and they add nothing under a reserved
  name or one of the connection headers.\<close>

theorem application_headers_are_safe:
  assumes "validateHeaders src reserved = None" and "v \<in> set (header_values (copyHeaders dst src) k)"
    and "v \<notin> set (header_values dst k)"
  shows "CHR 0x0D \<notin> set v \<and> CHR 0x0A \<notin> set v \<and> canonical_key k \<notin> set (reserved @ forbiddenHeaders)"
  using copyHeaders_safe_values [OF assms] copyHeaders_reserved [OF assms(1), of k dst] assms(2,3) by auto

theorem application_headers_are_safe_witness:
  "canonical_key ''x-a'' \<notin> set (delivery_reserved @ forbiddenHeaders)"
proof -
  have "validateHeaders (Some [(''X-A'', [''1''])]) delivery_reserved = None"
    "''1'' \<in> set (header_values (copyHeaders [] (Some [(''X-A'', [''1''])])) ''x-a'')"
    "''1'' \<notin> set (header_values [] ''x-a'')"
    by code_simp+
  from application_headers_are_safe [OF this] show ?thesis by blast
qed

text \<open>C40: With the largest limit an \<open>int64\<close> holds, the limit plus one wraps and
  every body is read as empty, without an error.\<close>

theorem body_limit_overflow: "readBounded r (2 ^ 63 - 1) = Inr []"
  by (rule readBounded_max)

text \<open>C36: Adding discovery links either fails and leaves the headers alone, or
  appends the self link and the hub links, in order, after the \<open>Link\<close> values that are there, and
  touches nothing else; it succeeds exactly for a good topic URL and a non-empty list of good hub
  URLs.\<close>

theorem discovery_is_atomic:
  "case AddDiscoveryLinks (Some h) self hubs of
     (Some e, h') \<Rightarrow> h' = Some h
       \<and> \<not> ((\<exists>u. validateHTTPURL self ''self URL'' False False = Inr u) \<and> hubs \<noteq> []
            \<and> list_all (\<lambda>hub. \<exists>u. validateHTTPURL hub ''hub URL'' True True = Inr u) hubs)
   | (None, h') \<Rightarrow> \<exists>m. h' = Some m
       \<and> ((\<exists>u. validateHTTPURL self ''self URL'' False False = Inr u) \<and> hubs \<noteq> []
          \<and> list_all (\<lambda>hub. \<exists>u. validateHTTPURL hub ''hub URL'' True True = Inr u) hubs)
       \<and> (\<forall>k. header_values m k =
          (if canonical_key k = ''Link''
           then header_values h k @ encodedLink self ''self'' # map (\<lambda>hub. encodedLink hub ''hub'') hubs
           else header_values h k))"
proof -
  have link: "canonical_key ''Link'' = ''Link''" by code_simp
  show ?thesis
    using AddDiscoveryLinks_ok [of h self hubs] AddDiscoveryLinks_error [of "Some h" self hubs]
      AddDiscoveryLinks_accepts_iff [of h self hubs]
    by (cases "AddDiscoveryLinks (Some h) self hubs") (auto simp: link list_all_iff split: option.split)
qed

section \<open>Callbacks to subscribers\<close>

text \<open>C18: The subscriber reads, under any name, first the values of its own
  callback URL and then exactly the values the hub sent; the request the hub makes is printed and
  parsed again in between.\<close>

theorem callback_query_roundtrip:
  assumes "sendCallback h env s callback form expected = (s', [Get q resp], err)"
    and "cl_check_redirect (h_client h) = UseLastResponse"
    and "parse_url callback = Some target" and "http_url True True target"
    and "parse_url (hr_url q) = Some sent" and "map_ok form" and "map_get form name = Some (v # vs)"
  shows "query_values (u_raw_query sent) k = query_values (u_raw_query target) k @ values_of form k"
  using sendCallback_calls [OF assms(1,2)] callback_request_values [OF _ assms(3-7)] by simp

theorem callback_query_roundtrip_witness:
  "\<exists>sent :: url. query_values (u_raw_query sent) ''hub.topic'' = [''mine'', ''http://t/?a=b&c#d'']"
proof -
  let ?form = "[(''hub.topic'', [''http://t/?a=b&c#d''])]"
  let ?run = "sendCallback sample_handler echo_env 0 ''http://c/x?hub.topic=mine'' ?form []"
  have "case ?run of (_, [Get q _], _) \<Rightarrow> parse_url (hr_url q) \<noteq> None | _ \<Rightarrow> False" by code_simp
  then obtain s' q resp err sent where run: "?run = (s', [Get q resp], err)" and sent: "parse_url (hr_url q) = Some sent"
    by (auto split: prod.splits list.splits call.splits)
  have "case parse_url ''http://c/x?hub.topic=mine'' of None \<Rightarrow> False
      | Some u \<Rightarrow> http_url True True u \<and> query_values (u_raw_query u) ''hub.topic'' = [''mine'']"
    unfolding http_url_def by code_simp
  then obtain target where target: "parse_url ''http://c/x?hub.topic=mine'' = Some target" "http_url True True target"
      "query_values (u_raw_query target) ''hub.topic'' = [''mine'']"
    by (auto split: option.splits)
  have refuse: "cl_check_redirect (h_client sample_handler) = UseLastResponse"
    using handler_ok_sample by (simp add: handler_ok_def)
  have form: "map_ok ?form" "map_get ?form ''hub.topic'' = Some (''http://t/?a=b&c#d'' # [])"
      "values_of ?form ''hub.topic'' = [''http://t/?a=b&c#d'']"
    by (simp_all add: map_ok_def values_of_def)
  have "query_values (u_raw_query sent) ''hub.topic'' = [''mine'', ''http://t/?a=b&c#d'']"
    using callback_query_roundtrip [OF run refuse target(1,2) sent form(1,2), of "''hub.topic''"]
    unfolding target(3) form(3) by simp
  then show ?thesis by blast
qed

text \<open>C37: A verification job never panics, with one exception:
  a validation callback that returns a typed nil \<open>*DeniedError\<close>, which the hub dereferences.\<close>

theorem verification_panics_only_on_nil_denial:
  assumes "NewHandler c service = Inr h"
  shows "run_panicked (runSubscription h env job s) \<longleftrightarrow>
    (\<exists>f err. OnSubscriptionValidation (h_service h) = Some f
       \<and> snd (call_validated f s (cloneSubscription (job_sub job)) (cloneMetadata (job_metadata job))) = Some err
       \<and> errors_as_denied err = Some None)"
  by (rule runSubscription_panics) (use NewHandler_ok [OF assms] in \<open>simp add: handler_ok_def\<close>)

theorem verification_panics_only_on_nil_denial_witness:
  "\<not> run_panicked (runSubscription sample_handler echo_env sample_job 0)"
  using verification_panics_only_on_nil_denial [OF NewHandler_sample, of echo_env sample_job 0]
  by (simp add: sample_handler_def counting_service_def)

section \<open>Delivery and publication\<close>

text \<open>C13: A delivery that passes the validation makes one \<open>POST\<close> to the
  subscriber's callback, with the body unchanged, the content type, the hub and self links and,
  when the subscription has a secret, the signature of that body, whatever headers the
  application adds; it reports success exactly when the answer is 2xx with a body within the
  limit, and otherwise an error of the class \<open>ErrDeliveryFailed\<close>.\<close>

theorem delivery_is_one_signed_request:
  assumes "NewDeliveryClient subscription config = Inr client"
    and "validateContentType (cd_content_type content) = None"
    and "validateHeaders (cd_header content) delivery_reserved = None"
    and "Deliver (Some client) rt s content = (s', exs, answer, err)"
  shows "\<exists>q resp. exs = [(q, resp)] \<and> hr_method q = ''POST'' \<and> hr_url q = sub_callback subscription
    \<and> hr_body q = bytes_of (cd_body content)
    \<and> header_values (hr_header q) ''Content-Type'' = [cd_content_type content]
    \<and> header_values (hr_header q) ''Link'' =
        [encodedLink (sub_hub subscription) ''hub'', encodedLink (sub_topic subscription) ''self'']
    \<and> header_values (hr_header q) HeaderHubSignature =
        (if sub_secret subscription = [] then [] else [signature (sub_secret subscription) (bytes_of (cd_body content))])
    \<and> (err = None \<longleftrightarrow> (\<exists>r body. resp = Some r \<and> 200 \<le> rs_status r \<and> rs_status r < 300
         \<and> readBounded (rs_body r) (dc_max_body client) = Inr body))
    \<and> (\<forall>e. err = Some e \<longrightarrow> errors_is e (Sentinel ErrDeliveryFailed))"
proof -
  have client: "deliverable subscription" "dc_subscription client = subscription"
    using assms(1) by (simp_all add: NewDeliveryClient_iff)
  then obtain u where u: "parse_url (sub_callback (dc_subscription client)) = Some u"
    by (auto simp: deliverable_def validateHTTPURL_iff)
  have names: "canonical_key HeaderHubSignature = HeaderHubSignature"
    "canonical_key ''Content-Type'' = ''Content-Type''" "canonical_key ''Link'' = ''Link''"
    "HeaderHubSignature \<noteq> ''Content-Type''" "HeaderHubSignature \<noteq> ''Link''"
    by code_simp+
  let ?q = "delivery_request client content"
  have q: "hr_method ?q = ''POST'' \<and> hr_url ?q = sub_callback subscription \<and> hr_body ?q = bytes_of (cd_body content)
    \<and> header_values (hr_header ?q) ''Content-Type'' = [cd_content_type content]
    \<and> header_values (hr_header ?q) ''Link'' =
        [encodedLink (sub_hub subscription) ''hub'', encodedLink (sub_topic subscription) ''self'']
    \<and> header_values (hr_header ?q) HeaderHubSignature =
        (if sub_secret subscription = [] then [] else [signature (sub_secret subscription) (bytes_of (cd_body content))])"
    by (simp add: delivery_request_def client(2) delivery_header_values [OF assms(3)] names)
  obtain s1 resp where go: "client_do (dc_client client) rt s ?q = (s1, resp)" by fastforce
  have exs: "exs = [(?q, resp)]"
    and err: "err = (case resp of None \<Rightarrow> Some (errors_join [Sentinel ErrDeliveryFailed, transport_error])
      | Some r \<Rightarrow> snd (delivery_result (dc_max_body client) r))"
    using Deliver_valid [OF assms(2,3) u, of rt s] assms(4) go by (auto split: option.splits) (metis snd_conv)
  have ok: "err = None \<longleftrightarrow> (\<exists>r body. resp = Some r \<and> 200 \<le> rs_status r \<and> rs_status r < 300
      \<and> readBounded (rs_body r) (dc_max_body client) = Inr body)"
    by (cases resp) (simp_all add: err delivery_result_ok)
  have "errors_is e (Sentinel ErrDeliveryFailed)" if "err = Some e" for e
    using that by (cases resp) (auto simp: err dest: delivery_result_failed)
  then show ?thesis using q ok exs by blast
qed

theorem delivery_is_one_signed_request_witness:
  "\<exists>client q err. Deliver (Some client) (\<lambda>n _. (n, None)) (0 :: nat)
        \<lparr>cd_content_type = ''text/plain'', cd_body = Some ''hi'', cd_header = None\<rparr> = (0, [(q, None)], no_delivery, Some err)
    \<and> header_values (hr_header q) HeaderHubSignature = [signature ''s'' ''hi'']"
proof -
  let ?config = "\<lparr>dcfg_client = None, dcfg_timeout = 0, dcfg_max_body = 0\<rparr>"
  let ?content = "\<lparr>cd_content_type = ''text/plain'', cd_body = Some ''hi'', cd_header = None\<rparr>"
  have "case NewDeliveryClient sample_subscription ?config of Inl _ \<Rightarrow> False | Inr _ \<Rightarrow> True" by code_simp
  then obtain client where client: "NewDeliveryClient sample_subscription ?config = Inr client"
    by (auto split: sum.splits)
  have v: "validateContentType (cd_content_type ?content) = None"
    "validateHeaders (cd_header ?content) delivery_reserved = None"
    by code_simp+
  obtain u where u: "parse_url (sub_callback (dc_subscription client)) = Some u"
    using client by (auto simp: NewDeliveryClient_iff deliverable_def validateHTTPURL_iff)
  have refuse: "cl_check_redirect (dc_client client) = UseLastResponse"
    using client by (auto simp: NewDeliveryClient_iff)
  have run: "Deliver (Some client) (\<lambda>n _. (n, None)) (0 :: nat) ?content =
      (0, [(delivery_request client ?content, None)], no_delivery,
       Some (errors_join [Sentinel ErrDeliveryFailed, transport_error]))"
    using Deliver_valid [OF v u, of "\<lambda>n _. (n, None)" "0 :: nat"] refuse by (simp add: client_do_refuse)
  have "header_values (hr_header (delivery_request client ?content)) HeaderHubSignature = [signature ''s'' ''hi'']"
    using delivery_is_one_signed_request [OF client v run] by (simp add: sample_subscription_def bytes_of_def)
  then show ?thesis using run by blast
qed

text \<open>C19: The publisher client against the hub: a valid topic, with at most one
  valid content type, reaches the application as exactly that registration; the client reports
  success when the application accepts it, and an error of the class \<open>ErrPublisherFailed\<close> when it
  returns an error or panics.\<close>

theorem registration_end_to_end:
  assumes "NewPublisherClient config = Inr c" and "17 \<le> pc_max_body c" "pc_max_body c < 2 ^ 63 - 1"
    and "validateHTTPURL topic ''Topic'' False False = Inr u" and "apply_options supplied no_options = Inr options"
    and "EnablePublisherExtension (h_config h)" and "\<not> ad_closed ad" and "OnRegisterTopic (h_service h) = Some f"
    and "int (length (encode_values (form_fields ModeRegister topic
        (if supplied = [] then None else Some (ro_content_type options))))) \<le> MaxRequestBody (h_config h)"
    and "\<And>md. f s \<lparr>reg_mode = ModeRegister, reg_topic = decode_unreserved topic,
        reg_content_type = ro_content_type options\<rparr> md = (s', out)"
  shows "\<exists>q resp err. RegisterTopic (Some c) (hub_round_trip h ad remote) s topic supplied = (s', [(q, resp)], err)
    \<and> (out = Returned (zero_result, None) \<longrightarrow> err = None)
    \<and> (snd (recover_result out) \<noteq> None \<longrightarrow> (\<exists>e. err = Some e \<and> errors_is e (Sentinel ErrPublisherFailed)))"
proof -
  define ct where "ct = (if supplied = [] then None else Some (ro_content_type options))"
  have o: "(if ro_content_type_set options then Some (ro_content_type options) else None) = ct"
    "\<forall>t. ct = Some t \<longrightarrow> validateContentType t = None"
    "(case ct of None \<Rightarrow> [] | Some t \<Rightarrow> t) = ro_content_type options"
    using assms(5) unfolding apply_options_iff ct_def by (auto simp: no_options_def)
  obtain v where v: "parse_url (pc_hub_url c) = Some v" and refuse: "cl_check_redirect (pc_client c) = UseLastResponse"
    using assms(1) by (auto simp: NewPublisherClient_iff validateHTTPURL_iff)
  let ?q = "form_request_of c [] (form_fields ModeRegister topic ct)"
  have "RegisterTopic (Some c) (hub_round_trip h ad remote) s topic supplied =
      publisher_do c (hub_round_trip h ad remote) s ?q"
    using RegisterTopic_valid [OF assms(4) v assms(5)] o(1) by simp
  moreover have "ServeHTTP h id new_writer (inbound ?q remote) s ad =
      finish_extension 200 (fst (recover_result out)) (snd (recover_result out)) new_writer s' ad"
    using register_served [OF assms(6,7,4) o(2)] assms(8-10)
    by (simp add: ct_def [symmetric] o(3) call_extension_def split: prod.split)
  moreover have "seen c (finish_extension 200 (fst (recover_result out)) (snd (recover_result out)) new_writer s' ad) = None"
    if "out = Returned (zero_result, None)"
    using that by (intro register_seen(2) [OF assms(2,3)]) simp
  moreover have "\<exists>e. seen c (finish_extension 200 (fst (recover_result out)) (snd (recover_result out)) new_writer s' ad) = Some e
      \<and> errors_is e (Sentinel ErrPublisherFailed)" if some: "snd (recover_result out) \<noteq> None"
  proof -
    obtain e where "snd (recover_result out) = Some e" using some by auto
    then show ?thesis by (rule register_seen(3) [OF assms(2,3)])
  qed
  ultimately show ?thesis
    using publisher_do_hub [OF refuse, of h ad remote s ?q] register_seen(1) [OF assms(2,3)] by (simp add: Let_def)
qed

theorem registration_end_to_end_witness:
  "\<exists>c q resp. RegisterTopic (Some c) (hub_round_trip sample_handler (new_admission sample_handler) ''1.2.3.4:5'')
     5 ''http://t/a'' [WithTopicContentType ''text/plain''] = (6, [(q, resp)], None)"
proof -
  let ?config = "\<lparr>pcfg_hub_url = ''http://hub/'', pcfg_client = None, pcfg_max_body = 0\<rparr>"
  have "case NewPublisherClient ?config of Inl _ \<Rightarrow> False | Inr c \<Rightarrow> 17 \<le> pc_max_body c \<and> pc_max_body c < 2 ^ 63 - 1"
    by code_simp
  then obtain c where c: "NewPublisherClient ?config = Inr c" "17 \<le> pc_max_body c" "pc_max_body c < 2 ^ 63 - 1"
    by (auto split: sum.splits)
  have "case validateHTTPURL ''http://t/a'' ''Topic'' False False of Inl _ \<Rightarrow> False | Inr _ \<Rightarrow> True" by code_simp
  then obtain u where u: "validateHTTPURL ''http://t/a'' ''Topic'' False False = Inr u" by (auto split: sum.splits)
  let ?o = "\<lparr>ro_content_type = ''text/plain'', ro_content_type_set = True\<rparr>"
  have o: "apply_options [WithTopicContentType ''text/plain''] no_options = Inr ?o" by code_simp
  have h: "EnablePublisherExtension (h_config sample_handler)" "\<not> ad_closed (new_admission sample_handler)"
    by code_simp+
  have fits: "int (length (encode_values (form_fields ModeRegister ''http://t/a''
      (if [WithTopicContentType ''text/plain''] = [] then None else Some (ro_content_type ?o)))))
      \<le> MaxRequestBody (h_config sample_handler)"
    by code_simp
  have app: "OnRegisterTopic (h_service sample_handler) = Some (\<lambda>n _ _. (Suc n, Returned (zero_result, None)))"
    by (simp add: sample_handler_def counting_service_def)
  show ?thesis
    using registration_end_to_end [OF c u o h app fits, of 5 6 "Returned (zero_result, None)" "''1.2.3.4:5''"]
    by auto
qed

text \<open>C20: Content published by the client reaches the application of the hub as
  one update: the normalised topic, the content type as given, the body unchanged and the
  headers of the request; the client reports success when the application accepts it and an
  error of the class \<open>ErrPublisherFailed\<close> when it returns an error or panics.\<close>

theorem publication_end_to_end:
  assumes "NewPublisherClient config = Inr c" and "17 \<le> pc_max_body c" "pc_max_body c < 2 ^ 63 - 1"
    and "validateHTTPURL (upd_topic message) ''Topic'' False False = Inr u"
    and "parseMediaType (upd_content_type message) = Inr mt" and "mt \<noteq> form_type"
    and "validateHeaders (upd_header message) publish_reserved = None"
    and "parse_url (pc_hub_url c) = Some target"
    and "parse_url (hr_url (publish_request c target message)) = Some v"
    and "EnablePublisherExtension (h_config h)" and "\<not> ad_closed ad" and "OnUpdateMessage (h_service h) = Some f"
    and "int (length (bytes_of (upd_body message))) \<le> MaxRequestBody (h_config h)"
    and "\<And>md. f s (cloneUpdate \<lparr>upd_kind = UpdateContent, upd_topic = decode_unreserved (upd_topic message),
        upd_content_type = upd_content_type message, upd_body = cloneBytes (Some (bytes_of (upd_body message))),
        upd_header = cloneHeader (Some (hr_header (publish_request c target message)))\<rparr>) md = (s', out)"
  shows "\<exists>q resp err. Publish (Some c) (hub_round_trip h ad remote) s message = (s', [(q, resp)], err)
    \<and> (out = Returned (zero_result, None) \<longrightarrow> err = None)
    \<and> (snd (recover_result out) \<noteq> None \<longrightarrow> (\<exists>e. err = Some e \<and> errors_is e (Sentinel ErrPublisherFailed)))"
proof -
  let ?q = "publish_request c target message"
  have hub: "http_url True True target" and refuse: "cl_check_redirect (pc_client c) = UseLastResponse"
    using assms(1,8) by (auto simp: NewPublisherClient_iff validateHTTPURL_iff)
  have ct: "validateContentType (upd_content_type message) = None"
    using assms(5) by (simp add: validateContentType_def)
  have "parse_url (url_string (publish_target target (upd_topic message))) = Some v"
    using assms(9) by (simp add: publish_request_def)
  then have "Publish (Some c) (hub_round_trip h ad remote) s message = publisher_do c (hub_round_trip h ad remote) s ?q"
    by (rule Publish_valid [OF assms(4) ct assms(7,8)])
  moreover note publish_served [OF assms(10,11,4,5) _ assms(8) hub assms(9,13), of remote s]
  moreover note update_seen(1) [OF assms(12,2,3) assms(14)]
  moreover note update_seen(2) [OF assms(12,2,3) assms(14)]
  moreover note update_seen(3) [OF assms(12,2,3) assms(14)]
  ultimately show ?thesis
    using publisher_do_hub [OF refuse, of h ad remote s ?q] assms(6) by (simp add: Let_def)
qed

theorem publication_end_to_end_witness:
  "\<exists>c q resp. Publish (Some c) (hub_round_trip sample_handler (new_admission sample_handler) ''1.2.3.4:5'') 5 sample_update
     = (6, [(q, resp)], None)"
proof -
  let ?config = "\<lparr>pcfg_hub_url = ''http://hub/'', pcfg_client = None, pcfg_max_body = 0\<rparr>"
  have "case NewPublisherClient ?config of Inl _ \<Rightarrow> False
      | Inr c \<Rightarrow> 17 \<le> pc_max_body c \<and> pc_max_body c < 2 ^ 63 - 1
         \<and> (case parse_url (pc_hub_url c) of None \<Rightarrow> False
            | Some target \<Rightarrow> parse_url (hr_url (publish_request c target sample_update)) \<noteq> None)"
    unfolding publish_request_def by code_simp
  then obtain c target v where c: "NewPublisherClient ?config = Inr c" "17 \<le> pc_max_body c" "pc_max_body c < 2 ^ 63 - 1"
    and t: "parse_url (pc_hub_url c) = Some target" "parse_url (hr_url (publish_request c target sample_update)) = Some v"
    by (auto split: sum.splits option.splits)
  have "case validateHTTPURL (upd_topic sample_update) ''Topic'' False False of Inl _ \<Rightarrow> False | Inr _ \<Rightarrow> True" by code_simp
  then obtain u where u: "validateHTTPURL (upd_topic sample_update) ''Topic'' False False = Inr u" by (auto split: sum.splits)
  have m: "parseMediaType (upd_content_type sample_update) = Inr ''text/plain''" "''text/plain'' \<noteq> form_type"
    "validateHeaders (upd_header sample_update) publish_reserved = None"
    by code_simp+
  have h: "EnablePublisherExtension (h_config sample_handler)" "\<not> ad_closed (new_admission sample_handler)"
    "int (length (bytes_of (upd_body sample_update))) \<le> MaxRequestBody (h_config sample_handler)"
    by code_simp+
  have app: "OnUpdateMessage (h_service sample_handler) = Some (\<lambda>n _ _. (Suc n, Returned (zero_result, None)))"
    by (simp add: sample_handler_def counting_service_def)
  show ?thesis
    using publication_end_to_end [OF c u m t h(1,2) app h(3), of 5 6 "Returned (zero_result, None)" "''1.2.3.4:5''"]
    by auto
qed

section \<open>The in-memory example\<close>

text \<open>C31: However callbacks, dispatcher, delivery workers and \<open>Close\<close> of the
  in-memory hub interleave, a stored subscription belongs to a registered topic and is filed under
  its own topic and callback, and the queues stay within their capacities.\<close>

theorem memory_hub_invariant:
  assumes "memory_reachable options rt h w"
  shows "length (mh_updates h) \<le> mh_update_capacity h \<and> length (mh_deliveries h) \<le> mh_delivery_capacity h
    \<and> (nested_get (mh_subscriptions h) t c = Some v \<longrightarrow>
        map_has (mh_topics h) t \<and> sub_topic (st_subscription v) = t \<and> sub_callback (st_subscription v) = c)"
  using memory_reachable_ok [OF assms] memory_ok_entry [of h t c v] by (auto simp: memory_ok_def)

theorem memory_hub_invariant_witness:
  "\<exists>h w v. memory_reachable sample_memory_options gone_round_trip h w
    \<and> nested_get (mh_subscriptions h) ''http://t/a'' ''http://c/x'' = Some v \<and> map_has (mh_topics h) ''http://t/a''"
proof -
  have "case newMemoryHub sample_memory_options of Inl _ \<Rightarrow> False
      | Inr h0 \<Rightarrow> (case memory_run gone_round_trip sample_actions (h0, 0) of None \<Rightarrow> False
         | Some (h, w) \<Rightarrow> nested_get (mh_subscriptions h) ''http://t/a'' ''http://c/x'' \<noteq> None)"
    by code_simp
  then obtain h0 h w v where h0: "newMemoryHub sample_memory_options = Inr h0"
      "memory_run gone_round_trip sample_actions (h0, 0) = Some (h, w)"
    and v: "nested_get (mh_subscriptions h) ''http://t/a'' ''http://c/x'' = Some v"
    by (auto split: sum.splits option.splits)
  have "memory_reachable sample_memory_options gone_round_trip h w"
    using memory_run_reachable [OF h0(2) memory_new [OF h0(1)]] .
  then show ?thesis using memory_hub_invariant [of _ _ h w "''http://t/a''" "''http://c/x''" v] v by blast
qed

text \<open>C17: A delivery that was queued for an old subscription and is answered with
  410 after the subscriber renewed does not remove the renewed subscription.\<close>

theorem gone_keeps_renewal:
  assumes "newMemoryHub options = Inr h0" and "memory_run rt actions (h0, w0) = Some (h, w)"
    and "length actions + 1 < 2 ^ 64" and "job \<in> set (mh_deliveries h)"
    and "onSubscriptionVerified h m md = (h', Returned None)"
  shows "nested_get (mh_subscriptions (fst (deliver_job rt job h' w')))
      (sub_topic (vs_subscription m)) (sub_callback (vs_subscription m)) =
    Some \<lparr>st_subscription = cloneSubscription (vs_subscription m),
          st_expires = vs_lease_started m + wrap64 (fst (parse_int (vs_effective_lease m)) * second),
          st_version = mh_next_version h + 1\<rparr>"
proof -
  have v: "versions_ok h" "unat (mh_next_version h) \<le> length actions"
    using memory_run_versions [OF assms(2) new_ok [OF assms(1)]] new_versions_ok [OF assms(1)] assms(3) by auto
  have "unat (mh_next_version h) + 1 < 2 ^ 64" using v(2) assms(3) by linarith
  then show ?thesis
    using gone_keeps_renewal_aux [OF v(1) _ queued_version [OF assms(4)] assms(5), of rt w'] assms(5)
    by (auto simp: onSubscriptionVerified_returns store_verified_get)
qed

theorem gone_keeps_renewal_witness:
  "\<exists>h job h'. job \<in> set (mh_deliveries h)
    \<and> onSubscriptionVerified h unsigned_verified no_metadata = (h', Returned None)
    \<and> nested_get (mh_subscriptions (fst (deliver_job gone_round_trip job h' 0))) ''http://t/a'' ''http://c/x'' \<noteq> None"
proof -
  have "case newMemoryHub sample_memory_options of Inl _ \<Rightarrow> False
      | Inr h0 \<Rightarrow> (case memory_run gone_round_trip sample_actions (h0, 0) of None \<Rightarrow> False
         | Some (h, w) \<Rightarrow> mh_deliveries h \<noteq> []
             \<and> (case onSubscriptionVerified h unsigned_verified no_metadata of (_, Returned None) \<Rightarrow> True | _ \<Rightarrow> False))"
    by code_simp
  then obtain h0 h w h' where h0: "newMemoryHub sample_memory_options = Inr h0"
      "memory_run gone_round_trip sample_actions (h0, 0) = Some (h, w)" "mh_deliveries h \<noteq> []"
      "onSubscriptionVerified h unsigned_verified no_metadata = (h', Returned None)"
    by (auto split: sum.splits option.splits prod.splits outcome.splits)
  have key: "sub_topic (vs_subscription unsigned_verified) = ''http://t/a''"
    "sub_callback (vs_subscription unsigned_verified) = ''http://c/x''"
    by code_simp+
  have short: "length sample_actions + 1 < 2 ^ 64" by (simp add: sample_actions_def)
  have job: "hd (mh_deliveries h) \<in> set (mh_deliveries h)" using h0(3) by simp
  show ?thesis
    using gone_keeps_renewal [OF h0(1,2) short job h0(4), of 0] key job h0(4) by auto
qed

text \<open>C32: The dispatcher selects for an update exactly the
  subscriptions of its topic whose lease has not run out, and drops exactly the expired ones of
  that topic from the state.\<close>

theorem updates_reach_active_subscriptions:
  assumes "memory_reachable options rt h w" and "activeSubscriptions h topic now = (h', active)"
  shows "(v \<in> set active \<longleftrightarrow> live now v \<and> (\<exists>c. nested_get (mh_subscriptions h) topic c = Some v))
    \<and> nested_get (mh_subscriptions h') t c =
      (case nested_get (mh_subscriptions h) t c of
         None \<Rightarrow> None
       | Some s \<Rightarrow> if t = topic \<and> \<not> live now s then None else Some s)"
  using activeSubscriptions_list [OF memory_ok_nested [OF memory_reachable_ok [OF assms(1)]] assms(2)]
    activeSubscriptions_get [OF memory_ok_nested [OF memory_reachable_ok [OF assms(1)]] assms(2)] by blast

theorem updates_reach_active_subscriptions_witness:
  "\<exists>h w h'. memory_reachable sample_memory_options gone_round_trip h w
    \<and> activeSubscriptions h ''http://t/a'' (7 + 60 * second) = (h', [])
    \<and> nested_get (mh_subscriptions h') ''http://t/a'' ''http://c/x'' = None"
proof -
  have "case newMemoryHub sample_memory_options of Inl _ \<Rightarrow> False
      | Inr h0 \<Rightarrow> (case memory_run gone_round_trip sample_actions (h0, 0) of None \<Rightarrow> False
         | Some (h, w) \<Rightarrow> snd (activeSubscriptions h ''http://t/a'' (7 + 60 * second)) = []
            \<and> (case nested_get (mh_subscriptions h) ''http://t/a'' ''http://c/x'' of None \<Rightarrow> False
               | Some v \<Rightarrow> \<not> live (7 + 60 * second) v))"
    by code_simp
  then obtain h0 h w v where h0: "newMemoryHub sample_memory_options = Inr h0"
      "memory_run gone_round_trip sample_actions (h0, 0) = Some (h, w)"
    and v: "snd (activeSubscriptions h ''http://t/a'' (7 + 60 * second)) = []"
      "nested_get (mh_subscriptions h) ''http://t/a'' ''http://c/x'' = Some v" "\<not> live (7 + 60 * second) v"
    by (auto split: sum.splits option.splits)
  have r: "memory_reachable sample_memory_options gone_round_trip h w"
    using memory_run_reachable [OF h0(2) memory_new [OF h0(1)]] .
  obtain h' where h': "activeSubscriptions h ''http://t/a'' (7 + 60 * second) = (h', [])"
    using v(1) by (metis prod.collapse)
  show ?thesis
    using updates_reach_active_subscriptions [OF r h', of v "''http://t/a''" "''http://c/x''"] r h' v(2,3) by auto
qed

section \<open>The Kafka example: one state from one log\<close>

text \<open>C10: The hub and the consolidator implement one state machine: from states that
  look the same, the same log leads both to states that look the same, invalid events included,
  and both stop with an error or neither does.\<close>

theorem consumers_agree:
  assumes "hub_ok h" and "consolidator_ok c" and "hub_view h = consolidator_view c"
    and "list_all (callbacks_in no_nul) es"
    and "dispatch_log hub_methods es h = (h', e1)" and "dispatch_log consolidator_methods es c = (c', e2)"
  shows "hub_view h' = consolidator_view c' \<and> (e1 = None \<longleftrightarrow> e2 = None)"
  using hub.log_view [OF assms(1) _ assms(5)] consolidator.log_view [OF assms(2,4,6)]
    hub.log_contract_error [OF assms(1) _ assms(5)] consolidator.log_contract_error [OF assms(2,4,6)] assms(3)
  by (simp add: list_all_iff)

theorem consumers_agree_witness:
  "\<exists>h h' c'. new_kafka_hub (hub_options_of sample_options) = Inr h
    \<and> dispatch_log hub_methods sample_events h = (h', None)
    \<and> dispatch_log consolidator_methods sample_events (new_consolidator 0) = (c', None)
    \<and> hub_view h' = consolidator_view c' \<and> hub_view h' = state_of sample_events"
proof -
  obtain h where h: "new_kafka_hub (hub_options_of sample_options) = Inr h" "hub_ok h" "hub_view h = empty_replica"
    using validated_hub_options [OF sample_config_valid] by blast
  have c: "consolidator_ok (new_consolidator 0)" "consolidator_view (new_consolidator 0) = empty_replica"
    by simp_all
  obtain h' e1 c' e2 where run: "dispatch_log hub_methods sample_events h = (h', e1)"
      "dispatch_log consolidator_methods sample_events (new_consolidator 0) = (c', e2)"
    by fastforce
  have "e1 = None \<and> hub_view h' = state_of sample_events"
    using hub.log_contract [OF h(2) _ run(1)] sample_log(1) h(3) by (simp add: spec_log_fold state_of_def list_all_iff)
  then show ?thesis
    using consumers_agree [OF h(2) c(1) _ sample_log(2) run] h c(2) run by simp
qed

text \<open>C8: Started from a snapshot of any earlier moment and the retained
  part of the event log, whatever the order of redeliveries, the consolidator ends in the state
  of the whole log up to the captured end, positioned there, with one revision more per event it
  applied.\<close>

theorem consolidator_recovers_the_log:
  assumes "list_all event_valid es" and "list_all (callbacks_in no_nul) es"
    and "snapshot_of sn (state_of (take n es))"
    and "base \<le> n" "n \<le> E" "E \<le> length es" "length es < 2 ^ 63"
    and "list_all2 (decodes_to codec) vs (drop base es)"
    and "list_all (of_log topic (int base) vs) (delivered ps)" "gapless topic (int base) (delivered ps)"
    and "\<And>sn b. snd (publish sn b) = None"
    and "consolidator_New codec topic publish (Inr sn) (Inr (int E)) ps b = (b', Started (c, offset))"
  shows "consolidator_view c = state_of (take E es) \<and> offset = int E
    \<and> cn_revision c = sn_revision sn + of_nat (E - base)"
  by (rule consolidator_start [OF assms])

theorem consolidator_recovers_the_log_witness:
  "\<exists>b c offset. consolidator_New sample_codec ''events'' (\<lambda>_ n. (Suc n, None))
      (Inr \<lparr>sn_revision = 5, sn_topics = [], sn_subscriptions = []\<rparr>) (Inr 2) sample_polls (0 :: nat) = (b, Started (c, offset))
    \<and> consolidator_view c = state_of sample_events \<and> cn_revision c = 7"
proof -
  let ?run = "consolidator_New sample_codec ''events'' (\<lambda>_ n. (Suc n, None))
      (Inr \<lparr>sn_revision = 5, sn_topics = [], sn_subscriptions = []\<rparr>) (Inr (int 2)) sample_polls (0 :: nat)"
  have "case ?run of (_, Started _) \<Rightarrow> True | _ \<Rightarrow> False" by code_simp
  then obtain b c offset where run: "?run = (b, Started (c, offset))" by (auto split: prod.splits started.splits)
  have len: "length sample_events = 2" by code_simp
  show ?thesis
    using consolidator_recovers_the_log [OF sample_log(1,2), of _ 0 0 2, OF _ _ _ _ _ _ _ _ _ run]
      empty_snapshot_of sample_log(3) sample_delivered(1,2) len run by simp
qed

text \<open>C6: Started likewise, the hub ends in the same state, positioned at the
  captured end, and under every topic and callback the workers whose context is not cancelled are
  exactly those that the log owes: one, with the stored data, where the log holds a subscription
  of this server that is not stale, and none anywhere else.\<close>

theorem hub_recovers_the_log:
  assumes "list_all event_valid es" and "snapshot_of sn (state_of (take n es))"
    and "base \<le> n" "n \<le> E" "E \<le> length es" "length es < 2 ^ 63"
    and "list_all2 (decodes_to codec) vs (drop base es)"
    and "list_all (of_log topic (int base) vs) (delivered ps)" "gapless topic (int base) (delivered ps)"
    and "kafka_New codec topic options (Inr sn) (Inr (int E)) ps = HubStarted h offset"
  shows "hub_view h = state_of (take E es) \<and> offset = int E
    \<and> (\<forall>t c. map kw_verified (workers_at h t c) = owed (kop_server_id options) (rp_subs (state_of (take E es)) t c))"
proof -
  note start = kafka_start [OF assms]
  then show ?thesis using served_exactly [of h] by simp
qed

theorem hub_recovers_the_log_witness:
  "\<exists>h. kafka_New sample_codec ''events'' (hub_options_of sample_options)
      (Inr \<lparr>sn_revision = 5, sn_topics = [], sn_subscriptions = []\<rparr>) (Inr 2) sample_polls = HubStarted h 2
    \<and> hub_view h = state_of sample_events
    \<and> map kw_verified (workers_at h ''http://t/a'' ''http://c/x'') = [sample_verified]
    \<and> map kw_verified (workers_at h ''http://t/a'' ''http://c/y'') = []"
proof -
  let ?sn = "\<lparr>sn_revision = 5, sn_topics = [], sn_subscriptions = []\<rparr> :: snapshot"
  obtain h0 where h0: "new_kafka_hub (hub_options_of sample_options) = Inr h0"
    using validated_hub_options [OF sample_config_valid] by blast
  have sn: "snapshot_of ?sn (state_of (take 0 sample_events))" using empty_snapshot_of by simp
  have polls: "\<forall>p \<in> set sample_polls. fetchError p = None" using sample_delivered(3) by (simp add: list_all_iff)
  obtain h where h: "kafka_New sample_codec ''events'' (hub_options_of sample_options) (Inr ?sn) (Inr (int 2)) sample_polls =
      HubStarted h (int 2)"
    using kafka_starts [OF h0 sample_log(1) sn _ _ polls sample_records, of "int 2"] sample_last by auto
  have len: "length sample_events = 2" by code_simp
  have pre: "0 \<le> (0 :: nat)" "(0 :: nat) \<le> 2" "2 \<le> length sample_events" "length sample_events < 2 ^ 63"
      "list_all2 (decodes_to sample_codec) [''r'', ''s''] (drop 0 sample_events)"
      "list_all (of_log ''events'' (int 0) [''r'', ''s'']) (delivered sample_polls)"
      "gapless ''events'' (int 0) (delivered sample_polls)"
    using len sample_log(3) sample_delivered by simp_all
  have "owed ''s1'' (rp_subs (state_of (take 2 sample_events)) ''http://t/a'' ''http://c/x'') = [sample_verified]"
      "owed ''s1'' (rp_subs (state_of (take 2 sample_events)) ''http://t/a'' ''http://c/y'') = []"
    by code_simp+
  then show ?thesis
    using hub_recovers_the_log [OF sample_log(1) sn pre h] h len
    by (intro exI [of _ h]) (simp add: hub_options_of_def sample_options_def)
qed

text \<open>C7: In every interleaving of the hub's goroutines after its start (the event
  worker applies new events while the workers of the replay are still being started, workers
  return, errors are reported, \<open>Close\<close> is called), the hub's state is the state of the log up to
  the position of the event worker. Once the start is over and while nothing is cancelled, under
  every topic and callback the workers that were started and whose context is not cancelled are
  exactly those that this state owes (one for a subscription of this server that is not stale, with
  its data, none otherwise), and such a worker is running unless it returned by itself.\<close>

theorem hub_follows_the_log:
  assumes "list_all event_valid es" and "snapshot_of sn (state_of (take n es))"
    and "base \<le> n" "n \<le> E" "E \<le> length es" "length es < 2 ^ 63"
    and "list_all2 (decodes_to (ke_codec env)) vs (drop base es)"
    and "list_all (of_log (ke_events_topic env) (int base) vs) (delivered ps)"
      "gapless (ke_events_topic env) (int base) (delivered ps)"
    and "kafka_recover (ke_codec env) (ke_events_topic env) options (Inr sn) (Inr (int E)) ps = HubStarted h offset"
    and "exec_runs env as (run_initial h offset b) = Some s"
    and "list_all (of_log (ke_events_topic env) (int base) vs) (polled as)" "gapless (ke_events_topic env) (int E) (polled as)"
  shows "hub_view (ru_hub s) = state_of (take (nat (ru_offset s)) es)
    \<and> (ru_starter s = ReplayStarted \<and> \<not> kh_cancelled (ru_hub s) \<longrightarrow>
        (\<forall>t c. map kw_verified (workers_at (ru_hub s) t c) =
            owed (kop_server_id options) (rp_subs (state_of (take (nat (ru_offset s)) es)) t c)
          \<and> running_at s t c = filter (\<lambda>w. \<forall>err. WorkerReturn (kw_id w) err \<notin> set as) (workers_at (ru_hub s) t c)))"
proof -
  have view: "hub_view (ru_hub s) = state_of (take (nat (ru_offset s)) es)" using log_in_every_run [OF assms] .
  have ok: "run_ok s" "run_ok (run_initial h offset b)"
    using recovered_run(1) [OF assms(10)] exec_runs_reachable [OF reach_initial assms(11)] reach_initial by metis+
  have server: "kh_server_id (ru_hub s) = kop_server_id options"
    using server_run [OF assms(11) ok(2)] recovered [OF assms(10)] by (simp add: run_initial_def)
  have "set (ru_ended s) = {k. \<exists>err. WorkerReturn k err \<in> set as}"
    using ended_run [OF assms(11)] by (simp add: run_initial_def)
  then have "running_at s t c = filter (\<lambda>w. \<forall>err. WorkerReturn (kw_id w) err \<notin> set as) (workers_at (ru_hub s) t c)" for t c
    by (simp add: running_at_def)
  moreover have "map kw_verified (workers_at (ru_hub s) t c) = owed (kop_server_id options) (rp_subs (hub_view (ru_hub s)) t c)"
    if "ru_starter s = ReplayStarted" "\<not> kh_cancelled (ru_hub s)" for t c
    using run_okD(1,2) [OF ok(1)] served_exactly [of "ru_hub s" t c] that server by (simp add: pending_starts_def)
  ultimately show ?thesis using view by simp
qed

theorem hub_follows_the_log_witness:
  "\<exists>h as s. kafka_recover sample_codec ''events'' (hub_options_of sample_options)
      (Inr \<lparr>sn_revision = 5, sn_topics = [], sn_subscriptions = []\<rparr>) (Inr 1) (take 1 sample_polls) = HubStarted h 1
    \<and> exec_runs sample_env as (run_initial h 1 (0 :: nat)) = Some s
    \<and> hub_view (ru_hub s) = state_of sample_events
    \<and> map kw_verified (running_at s ''http://t/a'' ''http://c/x'') = [sample_verified]
    \<and> map kw_verified (running_at s ''http://t/a'' ''http://c/y'') = []"
proof -
  let ?sn = "\<lparr>sn_revision = 5, sn_topics = [], sn_subscriptions = []\<rparr> :: snapshot"
  obtain h as s where s: "kafka_recover sample_codec ''events'' (hub_options_of sample_options) (Inr ?sn) (Inr 1)
        (take 1 sample_polls) = HubStarted h 1"
      "exec_runs sample_env as (run_initial h 1 (0 :: nat)) = Some s" "polled as = po_records (sample_polls ! 1)"
      "\<forall>k err. WorkerReturn k err \<notin> set as" "ru_starter s = ReplayStarted" "\<not> kh_cancelled (ru_hub s)" "ru_offset s = 2"
    by (rule sample_run)
  have len: "length sample_events = 2" by code_simp
  have sn: "snapshot_of ?sn (state_of (take 0 sample_events))" using empty_snapshot_of by simp
  have "owed ''s1'' (rp_subs (state_of sample_events) ''http://t/a'' ''http://c/x'') = [sample_verified]"
      "owed ''s1'' (rp_subs (state_of sample_events) ''http://t/a'' ''http://c/y'') = []"
    by code_simp+
  moreover have "kop_server_id (hub_options_of sample_options) = ''s1''"
    by (simp add: hub_options_of_def sample_options_def)
  ultimately show ?thesis
    using hub_follows_the_log [where env = sample_env, OF sample_log(1) sn, of 0 1 "[''r'', ''s'']" "take 1 sample_polls"
        "hub_options_of sample_options" h 1 as 0 s]
      s len sample_log(3) sample_first_poll
    by (intro exI [of _ h] exI [of _ as] exI [of _ s]) simp
qed

text \<open>C15: Once \<open>done\<close> is closed, and so when a \<open>Close\<close> call has returned nil, the
  event worker and every subscription worker have returned, the wait group is at zero, and
  nothing that can still happen changes the hub, its position in the log or what it has
  published.\<close>

theorem hub_close_is_quiet:
  assumes "kafka_recover codec topic options fetched logEnd ps = HubStarted h offset"
    and "run_reachable env h offset b s" and "ru_done s \<or> CloseReturned None \<in> set (ru_closes s)"
    and "exec_run env a s = Some s'"
  shows "ru_done s \<and> ru_wg s = 0 \<and> ru_events s = EventReturned
    \<and> kw_id ` set (kh_workers (ru_hub s)) = set (ru_ended s)
    \<and> ru_hub s' = ru_hub s \<and> ru_offset s' = ru_offset s \<and> ru_outside s' = ru_outside s \<and> ru_done s'"
proof -
  note ok = recovered_run [OF assms(1,2)]
  have d: "ru_done s" "ru_wg s = 0" "ru_starter s = ReplayStarted" using assms(3) ok(2) by (auto simp: close_ok_def)
  note ended = all_ended [OF ok(1) d(2)]
  have "kh_cancelled (ru_hub s)" using ok(2) ended(1) by (simp add: close_ok_def)
  then show ?thesis
    using done_quiet [OF ok(1) d(2,3) assms(4)] d ended run_okD(4) [OF ok(1)] by auto
qed

theorem hub_close_is_quiet_witness:
  "\<exists>h s s'. kafka_recover sample_codec ''events'' (hub_options_of sample_options)
      (Inr \<lparr>sn_revision = 5, sn_topics = [], sn_subscriptions = []\<rparr>) (Inr 1) (take 1 sample_polls) = HubStarted h 1
    \<and> run_reachable sample_env h 1 (0 :: nat) s \<and> ru_done s \<and> exec_run sample_env CallClose s = Some s'
    \<and> ru_events s = EventReturned \<and> ru_hub s' = ru_hub s"
proof -
  obtain h s0 where s0: "kafka_recover sample_codec ''events'' (hub_options_of sample_options)
      (Inr \<lparr>sn_revision = 5, sn_topics = [], sn_subscriptions = []\<rparr>) (Inr 1) (take 1 sample_polls) = HubStarted h 1"
      "run_reachable sample_env h 1 (0 :: nat) s0" "ru_starter s0 = ReplayStarted"
    by (rule sample_run)
  obtain s where s: "run_reachable sample_env h 1 0 s" "ru_done s"
    using close_after_start [OF s0(2,3) recovered_run [OF s0(1,2)]] by metis
  have "ru_starter s = ReplayStarted" using recovered_run(2) [OF s0(1) s(1)] s(2) by (simp add: close_ok_def)
  then obtain s' where s': "exec_run sample_env CallClose s = Some s'" by (simp add: kafka_Close_def)
  show ?thesis
    using hub_close_is_quiet [OF s0(1) s(1) _ s'] s0(1) s s' by blast
qed

text \<open>C12: After \<open>Close\<close> was called, whatever else happens, the hub's goroutines
  together do at most \<open>shutdown_work s\<close> more actions, and as long as \<open>done\<close> is not closed one of
  them can move: the shutdown neither blocks nor runs for ever. (That a worker whose context is
  cancelled can return is part of the model: Kafka and the network give up when a context ends.)\<close>

theorem hub_close_terminates:
  assumes "kafka_recover codec topic options fetched logEnd ps = HubStarted h offset"
    and "run_reachable env h offset b s" and "ru_closed s" and "exec_runs env as s = Some s'"
  shows "length (filter own_action as) \<le> shutdown_work s
    \<and> (ru_done s' \<or> (\<exists>a s''. own_action a \<and> exec_run env a s' = Some s''))"
proof -
  note run = shutdown_runs [OF assms(4) recovered_run [OF assms(1,2)] assms(3)]
  then show ?thesis using shutdown_progress [of s' env] by auto
qed

theorem hub_close_terminates_witness:
  "\<exists>h s as s'. kafka_recover sample_codec ''events'' (hub_options_of sample_options)
      (Inr \<lparr>sn_revision = 5, sn_topics = [], sn_subscriptions = []\<rparr>) (Inr 1) (take 1 sample_polls) = HubStarted h 1
    \<and> run_reachable sample_env h 1 (0 :: nat) s \<and> ru_closed s \<and> exec_runs sample_env as s = Some s' \<and> ru_done s'
    \<and> length (filter own_action as) \<le> shutdown_work s"
proof -
  obtain h s0 where s0: "kafka_recover sample_codec ''events'' (hub_options_of sample_options)
      (Inr \<lparr>sn_revision = 5, sn_topics = [], sn_subscriptions = []\<rparr>) (Inr 1) (take 1 sample_polls) = HubStarted h 1"
      "run_reachable sample_env h 1 (0 :: nat) s0" "ru_starter s0 = ReplayStarted"
    by (rule sample_run)
  obtain s as s' where s: "run_reachable sample_env h 1 0 s" "ru_closed s" "exec_runs sample_env as s = Some s'" "ru_done s'"
    using close_after_start [OF s0(2,3) recovered_run [OF s0(1,2)]] by metis
  show ?thesis
    using hub_close_terminates [OF s0(1) s(1-3)] s0(1) s by blast
qed

text \<open>C23: The same for the consolidator: after \<open>Close\<close> its goroutine has
  boundedly many steps left and can move until \<open>done\<close> is closed; a \<open>Close\<close> call that returned
  nil means that it has ended, and from then on its state, and so every snapshot, stays.\<close>

theorem consolidator_close_terminates:
  assumes "consolidator_reachable codec topic publish c offset b s" and "cl_closed s"
    and "consolidator_runs codec topic publish as s = Some s'"
  shows "length (filter consolidator_own as) \<le> event_work (cl_worker s)
    \<and> (cl_done s' \<or> (\<exists>a s''. consolidator_own a \<and> consolidator_exec codec topic publish a s' = Some s''))
    \<and> (CloseReturned None \<in> set (cl_closes s') \<longrightarrow> cl_done s')
    \<and> (\<forall>a s''. cl_done s' \<longrightarrow> consolidator_exec codec topic publish a s' = Some s'' \<longrightarrow>
         cl_state s'' = cl_state s' \<and> cl_offset s'' = cl_offset s' \<and> cl_done s'')"
proof -
  note run = life_runs [OF assms(3) life_reachable [OF assms(1)] assms(2)]
  then have "CloseReturned None \<in> set (cl_closes s') \<longrightarrow> cl_done s'" unfolding life_ok_def by blast
  moreover have "cl_done s' \<or> (\<exists>a s''. consolidator_own a \<and> consolidator_exec codec topic publish a s' = Some s'')"
    using run life_progress [of s' codec topic publish] by auto
  ultimately show ?thesis using run life_done_quiet [of s' codec topic publish] by auto
qed

theorem consolidator_close_terminates_witness:
  "\<exists>s s'. consolidator_runs sample_codec ''events'' (\<lambda>_ n. (Suc n, None))
      [ConsolidatorPoll (sample_polls ! 0), ConsolidatorApply, ConsolidatorClose]
      (consolidator_initial (new_consolidator 5) 0 (0 :: nat)) = Some s
    \<and> consolidator_runs sample_codec ''events'' (\<lambda>_ n. (Suc n, None))
        [ConsolidatorApply, ConsolidatorPoll (poll_of_context (AppError ''context canceled'')), ConsolidatorExit,
         ConsolidatorReturn 0] s = Some s'
    \<and> cl_done s' \<and> CloseReturned None \<in> set (cl_closes s') \<and> snd (cl_state s') = 1 \<and> event_work (cl_worker s) = 3"
proof -
  let ?run = "consolidator_runs sample_codec ''events'' (\<lambda>_ n. (Suc n, None))"
  let ?as = "[ConsolidatorPoll (sample_polls ! 0), ConsolidatorApply, ConsolidatorClose]"
  let ?bs = "[ConsolidatorApply, ConsolidatorPoll (poll_of_context (AppError ''context canceled'')), ConsolidatorExit,
         ConsolidatorReturn 0]"
  have "(case ?run ?as (consolidator_initial (new_consolidator 5) 0 (0 :: nat)) of
      None \<Rightarrow> False
    | Some s \<Rightarrow> cl_closed s \<and> event_work (cl_worker s) = 3 \<and> (case ?run ?bs s of
          None \<Rightarrow> False
        | Some s' \<Rightarrow> CloseReturned None \<in> set (cl_closes s') \<and> snd (cl_state s') = 1))"
    by code_simp
  then obtain s s' where s: "?run ?as (consolidator_initial (new_consolidator 5) 0 (0 :: nat)) = Some s" "cl_closed s"
      "event_work (cl_worker s) = 3" "?run ?bs s = Some s'" "CloseReturned None \<in> set (cl_closes s')" "snd (cl_state s') = 1"
    by (auto split: option.splits)
  show ?thesis
    using consolidator_close_terminates [OF consolidator_runs_reachable [OF consolidator_begins s(1)] s(2,4)] s by blast
qed

text \<open>C22: With options that pass the checks, a snapshot of the log and polls that do not
  fail, the start of the hub returns as soon as the record just before the captured end has been
  delivered.\<close>

theorem hub_starts:
  assumes "validate_websubhub config = None" and "list_all event_valid es" and "snapshot_of sn (state_of (take n es))"
    and "0 < E" "E < 2 ^ 63" and "\<forall>p \<in> set ps. fetchError p = None"
    and "\<forall>r \<in> set (delivered ps). event_record topic r \<longrightarrow> (\<exists>e. decodes_to codec (kr_value r) e \<and> event_valid e)"
    and "\<exists>r \<in> set (delivered ps). event_record topic r \<and> kr_offset r = E - 1"
  shows "\<exists>h. kafka_New codec topic (hub_options_of config) (Inr sn) (Inr E) ps = HubStarted h E"
proof -
  obtain h0 where "new_kafka_hub (hub_options_of config) = Inr h0" using validated_hub_options [OF assms(1)] by blast
  then show ?thesis using kafka_starts [OF _ assms(2-8)] by blast
qed

theorem hub_starts_witness:
  "\<exists>h. kafka_New sample_codec ''events'' (hub_options_of sample_options)
      (Inr \<lparr>sn_revision = 5, sn_topics = [], sn_subscriptions = []\<rparr>) (Inr 2) sample_polls = HubStarted h 2"
proof -
  have sn: "snapshot_of \<lparr>sn_revision = 5, sn_topics = [], sn_subscriptions = []\<rparr> (state_of (take 0 sample_events))"
    using empty_snapshot_of by simp
  have polls: "\<forall>p \<in> set sample_polls. fetchError p = None" using sample_delivered(3) by (simp add: list_all_iff)
  show ?thesis using hub_starts [OF sample_config_valid sample_log(1) sn _ _ polls sample_records sample_last] by simp
qed

text \<open>C33: A hub that starts from the consolidator's snapshot holds the consolidator's
  state.\<close>

theorem snapshot_roundtrip:
  assumes "consolidator_ok c" and "list_all event_valid es" and "consolidator_view c = state_of es"
    and "new_kafka_hub options = Inr h" and "applySnapshot (snapshotLocked c) h = (h', err)"
  shows "err = None \<and> hub_view h' = consolidator_view c"
  using start_restored [OF _ _ assms(2) _ assms(5)] new_kafka_hub_running [OF assms(4)]
    snapshotLocked_of [OF assms(1)] assms(3) by simp

theorem snapshot_roundtrip_witness:
  "\<exists>c h h'. new_kafka_hub (hub_options_of sample_options) = Inr h
    \<and> applySnapshot (snapshotLocked c) h = (h', None) \<and> hub_view h' = state_of sample_events"
proof -
  obtain h where h: "new_kafka_hub (hub_options_of sample_options) = Inr h"
    using validated_hub_options [OF sample_config_valid] by blast
  obtain c e where run: "dispatch_log consolidator_methods sample_events (new_consolidator 0) = (c, e)" by fastforce
  have c: "consolidator_ok c" "consolidator_view c = state_of sample_events"
    using consolidator.log_contract [OF _ sample_log(2) run] sample_log(1) by (simp_all add: spec_log_fold state_of_def)
  obtain h' err where snap: "applySnapshot (snapshotLocked c) h = (h', err)" by fastforce
  show ?thesis using snapshot_roundtrip [OF c(1) sample_log(1) c(2) h snap] c(2) h snap by auto
qed

text \<open>C34: The snapshot the consolidator publishes is a function of its
  state: the order in which Go iterates over its maps does not show.\<close>

theorem snapshot_depends_on_state_only:
  assumes "consolidator_ok c" and "consolidator_ok c'" and "consolidator_view c = consolidator_view c'"
    and "cn_revision c = cn_revision c'"
  shows "snapshotLocked c = snapshotLocked c'"
  by (rule snapshotLocked_order [OF assms])

theorem snapshot_depends_on_state_only_witness:
  "\<exists>c c'. cn_topics c \<noteq> cn_topics c' \<and> snapshotLocked c = snapshotLocked c'"
proof -
  let ?a = "EventRegister sample_registration" and ?b = "EventRegister (sample_registration\<lparr>reg_topic := ''http://t/b''\<rparr>)"
  let ?new = "new_consolidator 0"
  obtain c e1 c' e2 where run: "dispatch_log consolidator_methods [?a, ?b] ?new = (c, e1)"
      "dispatch_log consolidator_methods [?b, ?a] ?new = (c', e2)" by fastforce
  have ok: "consolidator_ok ?new" "list_all (callbacks_in no_nul) [?a, ?b]" "list_all (callbacks_in no_nul) [?b, ?a]"
    by simp_all
  have "list_all event_valid [?a, ?b] \<and> list_all event_valid [?b, ?a]" by code_simp
  moreover have "replica_step ?b (replica_step ?a empty_replica) = replica_step ?a (replica_step ?b empty_replica)"
    by (simp add: replica_step_def empty_replica_def sample_registration_def fun_eq_iff)
  ultimately have "consolidator_ok c" "consolidator_ok c'" "consolidator_view c = consolidator_view c'"
    using consolidator.log_contract [OF ok(1,2) run(1)] consolidator.log_contract [OF ok(1,3) run(2)]
    by (simp_all add: spec_log_fold)
  moreover have "cn_revision c = cn_revision c'"
    using dispatch_log_revision [OF run(1)] dispatch_log_revision [OF run(2)] by simp
  ultimately have "snapshotLocked c = snapshotLocked c'" by (rule snapshot_depends_on_state_only)
  moreover have "cn_topics (fst (dispatch_log consolidator_methods [?a, ?b] ?new))
      \<noteq> cn_topics (fst (dispatch_log consolidator_methods [?b, ?a] ?new))"
    by code_simp
  ultimately show ?thesis using run by auto
qed

text \<open>C35: Of the published snapshots whose records were delivered before
  the first poll without a record, in whatever order, partition and number of repetitions,
  \<open>LoadSnapshot\<close> returns one with the greatest revision, and the empty snapshot when there are none;
  what could come after that poll does not matter. So it returns the newest snapshot exactly when
  that one was delivered by then.\<close>

theorem published_snapshots_are_found:
  assumes "\<forall>s \<in> set sns. keeps_snapshot codec s"
    and "\<forall>p \<in> set ps. fetchError p = None \<and> po_records p \<noteq> []" and "fetchError stop = None" "po_records stop = []"
    and "stored_as ` set (delivered ps) \<subseteq> stored_as ` set (publish_all codec topic sns [])"
    and "reads = {s \<in> set sns. \<exists>v. marshal_snapshot codec s = Inr v \<and> (topic, v) \<in> stored_as ` set (delivered ps)}"
  shows "\<exists>sn. LoadSnapshot codec topic (ps @ stop # rest) = Some (Inr sn)
    \<and> (if reads = {} then sn = empty_snapshot else sn \<in> reads \<and> (\<forall>s \<in> reads. sn_revision s \<le> sn_revision sn))"
  by (rule published_loads [OF assms])

theorem published_snapshots_are_found_witness:
  "\<exists>sn. LoadSnapshot snapshot_codec ''snapshots''
      [\<lparr>po_context = None, po_errors = [], po_records = [snapshot_record 0 ''1'']\<rparr>,
       \<lparr>po_context = None, po_errors = [], po_records = []\<rparr>,
       \<lparr>po_context = None, po_errors = [], po_records = [snapshot_record 1 ''2'']\<rparr>] = Some (Inr sn) \<and> sn_revision sn = 1"
proof -
  let ?ps = "[\<lparr>po_context = None, po_errors = [], po_records = [snapshot_record 0 ''1'']\<rparr>]"
  let ?stop = "\<lparr>po_context = None, po_errors = [], po_records = []\<rparr>"
  let ?sns = "[snapshot_at 1, snapshot_at 2]"
  have keeps: "\<forall>s \<in> set ?sns. keeps_snapshot snapshot_codec s"
    by (simp add: keeps_snapshot_def snapshot_codec_def snapshot_at_def sample_codec_def)
  have polls: "\<forall>p \<in> set ?ps. fetchError p = None \<and> po_records p \<noteq> []" "fetchError ?stop = None" "po_records ?stop = []"
    by (simp_all add: fetchError_def)
  have log: "stored_as ` set (delivered ?ps) \<subseteq> stored_as ` set (publish_all snapshot_codec ''snapshots'' ?sns [])"
    by (auto simp: stored_as_def snapshot_record_def PublishSnapshot_def snapshot_codec_def snapshot_at_def)
  have "{s \<in> set ?sns. \<exists>v. marshal_snapshot snapshot_codec s = Inr v
      \<and> (''snapshots'', v) \<in> stored_as ` set (delivered ?ps)} = {snapshot_at 1}"
    by (auto simp: stored_as_def snapshot_record_def snapshot_codec_def snapshot_at_def)
  note reads = this [symmetric]
  have "\<exists>sn. LoadSnapshot snapshot_codec ''snapshots'' (?ps @ ?stop # [\<lparr>po_context = None, po_errors = [],
      po_records = [snapshot_record 1 ''2'']\<rparr>]) = Some (Inr sn)
    \<and> (if {snapshot_at 1} = {} then sn = empty_snapshot
       else sn \<in> {snapshot_at 1} \<and> (\<forall>s \<in> {snapshot_at 1}. sn_revision s \<le> sn_revision sn))"
    by (rule published_snapshots_are_found [OF keeps polls log reads])
  then show ?thesis by (simp add: snapshot_at_def)
qed

text \<open>C38: Without a record just before the captured end (an empty or
  compacted log) the replay does not return: after any number of polls without an error, and with
  records that the handler accepts, it is still polling, below the end.\<close>

theorem replay_waits_for_the_last_record:
  assumes "\<forall>r \<in> set (delivered ps). event_record topic r \<longrightarrow> kr_offset r \<noteq> E - 1"
    and "0 < E" "E < 2 ^ 63" and "\<forall>p \<in> set ps. fetchError p = None"
    and "accepts topic handler I (delivered ps)" and "I s"
  shows "\<exists>pos s'. ReplayEvents topic handler (Inr E) ps 0 s = (pos, s', Polling) \<and> pos < E \<and> I s'"
  using replay_waits [OF assms(5,6) _ assms(2-4,1)] assms(2) by (simp add: ReplayEvents_def)

theorem replay_waits_for_the_last_record_witness:
  "\<exists>h pos h'. new_kafka_hub (hub_options_of sample_options) = Inr h
    \<and> ReplayEvents ''events'' (hub_handler sample_codec) (Inr 5) sample_polls 0 h = (pos, h', Polling) \<and> pos < 5"
proof -
  obtain h where h: "new_kafka_hub (hub_options_of sample_options) = Inr h" by (rule sample_hub)
  have none: "\<forall>r \<in> set (delivered sample_polls). event_record ''events'' r \<longrightarrow> kr_offset r \<noteq> 5 - 1"
    by (simp add: sample_polls_def sample_record_def)
  have polls: "\<forall>p \<in> set sample_polls. fetchError p = None" using sample_delivered(3) by (simp add: list_all_iff)
  have accept: "accepts ''events'' (hub_handler sample_codec) hub_running (delivered sample_polls)"
    unfolding accepts_def using sample_records hub_handler_valid by metis
  have "hub_running h" using new_kafka_hub_running [OF h] by simp
  then show ?thesis
    using replay_waits_for_the_last_record [OF none _ _ polls accept] h by fastforce
qed

text \<open>C39: After the last 64-bit revision a valid event is consumed without an
  error and the revision starts again at zero, so that a reader which has seen the last revision
  keeps its old snapshot.\<close>

theorem revision_wraps_silently:
  assumes "consolidator_ok c" and "callbacks_in no_nul e" and "decodes_to codec p e" and "event_valid e"
    and "cn_revision c = - 1" and "\<And>sn b. snd (publish sn b) = None"
    and "consumeEvent codec publish offset p (c, b) = ((c', b'), err)"
  shows "err = None \<and> cn_revision c' = 0
    \<and> (json_snapshot codec q = Inr (snapshotLocked c') \<longrightarrow>
        retainLatestSnapshot codec latest True q = ((latest, True), None))"
  by (rule revision_wraps [OF assms])

theorem revision_wraps_silently_witness:
  "\<exists>c b. consumeEvent sample_codec (\<lambda>_ n. (Suc n, None)) 9 ''r'' (new_consolidator (- 1), 0 :: nat) = ((c, b), None)
    \<and> cn_revision c = 0"
proof -
  let ?e = "EventRegister sample_registration"
  obtain c b err where run: "consumeEvent sample_codec (\<lambda>_ n. (Suc n, None)) 9 ''r'' (new_consolidator (- 1), 0 :: nat) = ((c, b), err)"
    by (metis surj_pair)
  have e: "decodes_to sample_codec ''r'' ?e" "event_valid ?e" by code_simp+
  have rev: "cn_revision (new_consolidator (- 1)) = - 1" by (simp add: new_consolidator_def)
  have "err = None \<and> cn_revision c = 0"
    using revision_wraps_silently [OF new_consolidator_ok(1) _ e _ _ run] rev by simp
  then show ?thesis using run by blast
qed

section \<open>The Kafka example: the hub at work\<close>

text \<open>C21: For one message the hub makes at most the configured number of
  requests to the subscriber, all of them the same; it reports success only when the last of
  them was answered with a 2xx status.\<close>

theorem delivery_attempts_bounded:
  assumes "deliverContent env h client verified m b = (b', exs, res)"
  shows "int (length exs) \<le> max 0 (kh_attempts h)
    \<and> list_all (\<lambda>ex. fst ex = delivery_request client (distribution m)) exs
    \<and> (res = None \<longrightarrow> exs \<noteq> [] \<and> answered_ok (last exs))"
  using deliver_attempts_exchanges [OF assms [unfolded deliverContent_def]] by (auto simp: list_all_iff)

theorem delivery_attempts_bounded_witness:
  "\<exists>h client exs. new_kafka_hub (hub_options_of sample_options) = Inr h
    \<and> deliverContent sample_env h client unsigned_verified
        \<lparr>cm_content_type = ''application/json'', cm_body = Some ''hi''\<rparr> 0 = (0, exs, None)
    \<and> answered_ok (last exs) \<and> length exs \<le> 3"
proof -
  obtain h where h: "new_kafka_hub (hub_options_of sample_options) = Inr h" "kh_attempts h = 3" by (rule sample_hub)
  obtain client exs where d: "deliverContent sample_env h client unsigned_verified
      \<lparr>cm_content_type = ''application/json'', cm_body = Some ''hi''\<rparr> 0 = (0, exs, None)"
    using sample_delivery [OF h, of 0] by blast
  show ?thesis using delivery_attempts_bounded [OF d] h d by auto
qed

text \<open>C9: Kafka is told to skip a batch only after every message of it was
  delivered: for each record of a committed batch the subscriber answered the request that
  carries it with a 2xx status, in the call that consumed the batch just before the commit.\<close>

theorem commit_follows_delivery:
  assumes "ConsumeSubscription env (worker_consume env h verified) ps b = (b', committed, res)"
    and "batch \<in> set committed" and "r \<in> set batch"
  shows "\<exists>b1 b2 b3 exs client ex. deliverBatch env h verified (map message_of batch) b1 = (b2, exs, None)
    \<and> ke_commit env batch b2 = (b3, None)
    \<and> NewDeliveryClient (vs_subscription verified) (kh_delivery_config h) = Inr client
    \<and> ex \<in> set exs \<and> fst ex = delivery_request client (distribution (message_of r)) \<and> answered_ok ex"
proof -
  obtain b1 b2 b3 where c: "worker_consume env h verified (map message_of batch) b1 = (b2, None)"
      "ke_commit env batch b2 = (b3, None)"
    using committed_consumed [OF assms(1,2)] by blast
  then obtain exs where d: "deliverBatch env h verified (map message_of batch) b1 = (b2, exs, None)"
    by (auto simp: worker_consume_def split: prod.splits)
  show ?thesis using deliverBatch_ok [OF d, of "message_of r"] assms(3) c(2) d by fastforce
qed

theorem commit_follows_delivery_witness:
  "\<exists>h ex. new_kafka_hub (hub_options_of sample_options) = Inr h
    \<and> fst (snd (ConsumeSubscription sample_env (worker_consume sample_env h unsigned_verified) [content_poll] 0)) =
      [po_records content_poll] \<and> answered_ok ex \<and> hr_body (fst ex) = ''hi''"
proof -
  obtain h where h: "new_kafka_hub (hub_options_of sample_options) = Inr h" "kh_attempts h = 3" by (rule sample_hub)
  let ?m = "\<lparr>cm_content_type = ''application/json'', cm_body = Some ''hi''\<rparr>"
  have m: "map message_of (po_records content_poll) = [?m]" "fetchError content_poll = None" "po_records content_poll \<noteq> []"
    by code_simp+
  have "worker_consume sample_env h unsigned_verified [?m] n = (n, None)" for n
    using sample_delivery [OF h, of n] by (auto simp: worker_consume_def deliverBatch_def)
  then have "\<exists>n. ConsumeSubscription sample_env (worker_consume sample_env h unsigned_verified) [content_poll] 0 =
      (n, [po_records content_poll], Polling)"
    using m by (simp add: sample_env_def [THEN arg_cong, of ke_commit])
  then obtain n where run: "ConsumeSubscription sample_env (worker_consume sample_env h unsigned_verified) [content_poll] 0 =
      (n, [po_records content_poll], Polling)" by blast
  let ?r = "hd (po_records content_poll)"
  have r: "?r \<in> set (po_records content_poll)" "cm_body (message_of ?r) = Some ''hi''"
    using m by (auto simp: map_eq_Cons_conv)
  obtain client ex where ex: "fst ex = delivery_request client (distribution (message_of ?r))" "answered_ok ex"
    using commit_follows_delivery [OF run _ r(1)] by auto
  then have "hr_body (fst ex) = ''hi''" using r(2) by (simp add: delivery_request_def distribution_def bytes_of_def cloneBytes_def)
  moreover have "fst (snd (ConsumeSubscription sample_env (worker_consume sample_env h unsigned_verified) [content_poll] 0)) =
      [po_records content_poll]"
    by (simp only: run fst_conv snd_conv)
  ultimately show ?thesis using h(1) ex(2) by blast
qed

text \<open>C24: The hub changes its state only through the log, and never
  publishes a subscription that a consumer would stop on. A verified subscription is refused when
  its effective lease is not a positive number, its topic is not registered or an active
  subscription is stored for it. Otherwise exactly one event is published and its outcome is the
  callback's: the verified data and this server where nothing is stored, the stored data and the
  stored server where the stored subscription is stale. The event is valid, and every consumer
  that applies it to this state holds that subscription, active.\<close>

theorem hub_publishes_valid_events:
  assumes "replica_valid (hub_view h)" and "kh_server_id h \<noteq> []"
    and "sub_mode (vs_subscription m) = ModeSubscribe" "sub_hub (vs_subscription m) \<noteq> []" "vs_lease_started m \<noteq> 0"
    and "sub_topic (vs_subscription m) = t" "t \<noteq> []" and "sub_callback (vs_subscription m) = c" "c \<noteq> []"
    and "u = (case rp_subs (hub_view h) t c of
        None \<Rightarrow> \<lparr>ks_verified = m, ks_server_id = kh_server_id h, ks_status = []\<rparr>
      | Some old \<Rightarrow> old\<lparr>ks_status := []\<rparr>)"
  shows "if \<not> (\<exists>n. parse_int (vs_effective_lease m) = (n, None) \<and> 0 < n)
    then kafka_onSubscriptionVerified env (h, b) m md = ((h, b), Returned (Some (AppError ''invalid effective lease'')))
    else if rp_topics (hub_view h) t = None
    then kafka_onSubscriptionVerified env (h, b) m md = ((h, b), Returned (Some (DeniedError ''topic is not registered'' None)))
    else if \<exists>old. rp_subs (hub_view h) t c = Some old \<and> ks_status old \<noteq> SubscriptionStatusStale
    then kafka_onSubscriptionVerified env (h, b) m md =
      ((h, b), Returned (Some (DeniedError ''subscriber is already registered'' None)))
    else kafka_onSubscriptionVerified env (h, b) m md =
        ((h, fst (publish_event env (EventSubscribe u) b)), Returned (snd (publish_event env (EventSubscribe u) b)))
      \<and> event_valid (EventSubscribe u) \<and> rp_subs (replica_step (EventSubscribe u) (hub_view h)) t c = Some u"
proof -
  note exact = onSubscriptionVerified_exact [where h = h and m = m, unfolded assms(6,8), OF assms(1,2,3,7,9,4,5)]
  note refuses = onSubscriptionVerified_refuses [where h = h and m = m and env = env and b = b and md = md, unfolded assms(6,8)]
  show ?thesis
  proof (cases "\<exists>n. parse_int (vs_effective_lease m) = (n, None) \<and> 0 < n")
    case True
    note leased = this
    then obtain n where n: "parse_int (vs_effective_lease m) = (n, None)" "0 < n" by blast
    show ?thesis
    proof (cases "rp_topics (hub_view h) t = None \<or> (\<exists>old. rp_subs (hub_view h) t c = Some old \<and> ks_status old \<noteq> SubscriptionStatusStale)")
      case True
      then show ?thesis using leased refuses(2,3) [OF leased] by (auto simp del: hub_view_simps)
    next
      case False
      then have topic: "rp_topics (hub_view h) t \<noteq> None"
        and free: "\<forall>old. rp_subs (hub_view h) t c = Some old \<longrightarrow> ks_status old = SubscriptionStatusStale"
        by (auto simp del: hub_view_simps)
      show ?thesis using False leased exact [OF n topic free assms(10)] by (auto simp del: hub_view_simps event_valid.simps)
    qed
  qed (use refuses(1) in simp)
qed

theorem hub_publishes_valid_events_witness:
  "\<exists>h. kafka_recover sample_codec ''events'' (hub_options_of sample_options)
      (Inr \<lparr>sn_revision = 5, sn_topics = [], sn_subscriptions = []\<rparr>) (Inr 1) (take 1 sample_polls) = HubStarted h 1
    \<and> kafka_onSubscriptionVerified sample_env (h, 0) sample_verified no_metadata = ((h, 1), Returned None)"
proof -
  let ?sn = "\<lparr>sn_revision = 5, sn_topics = [], sn_subscriptions = []\<rparr> :: snapshot"
  let ?u = "\<lparr>ks_verified = sample_verified, ks_server_id = ''s1'', ks_status = []\<rparr>"
  obtain h where h: "kafka_recover sample_codec ''events'' (hub_options_of sample_options) (Inr ?sn) (Inr 1)
      (take 1 sample_polls) = HubStarted h 1" by (rule sample_run)
  have server: "kh_server_id h = ''s1''"
    using recovered [OF h] by (simp add: hub_options_of_def sample_options_def)
  have len: "length sample_events = 2" by code_simp
  have sn: "snapshot_of ?sn (state_of (take 0 sample_events))" using empty_snapshot_of by simp
  have view: "hub_view h = state_of (take 1 sample_events)"
    using recovered_at [OF sample_log(1) sn, of 0 1 sample_codec "[''r'', ''s'']" "''events''" "take 1 sample_polls"
        "hub_options_of sample_options" h 1] h len sample_log(3) sample_first_poll by (simp add: hub_at_def)
  have valid: "replica_valid (hub_view h)"
    using state_of_valid [of "take 1 sample_events"] sample_log(1) view by (auto simp: list_all_iff dest: in_set_takeD)
  have fields: "rp_topics (state_of (take 1 sample_events)) ''http://t/a'' \<noteq> None"
      "rp_subs (state_of (take 1 sample_events)) ''http://t/a'' ''http://c/x'' = None"
      "sub_mode (vs_subscription sample_verified) = ModeSubscribe" "sub_hub (vs_subscription sample_verified) \<noteq> []"
      "vs_lease_started sample_verified \<noteq> 0" "sub_topic (vs_subscription sample_verified) = ''http://t/a''"
      "sub_callback (vs_subscription sample_verified) = ''http://c/x''"
      "parse_int (vs_effective_lease sample_verified) = (60, None)"
      "publish_event sample_env (EventSubscribe ?u) 0 = (1, None)"
    by code_simp+
  have u: "?u = (case rp_subs (hub_view h) ''http://t/a'' ''http://c/x'' of
        None \<Rightarrow> \<lparr>ks_verified = sample_verified, ks_server_id = kh_server_id h, ks_status = []\<rparr>
      | Some old \<Rightarrow> old\<lparr>ks_status := []\<rparr>)"
    by (simp only: view fields server option.case)
  have "kh_server_id h \<noteq> []" using server by simp
  note published = hub_publishes_valid_events [OF valid this fields(3-6) _ fields(7) _ u, of sample_env 0 no_metadata]
  show ?thesis
    using published h unfolding view by (simp add: fields del: One_nat_def)
qed

end
